theory Spec2Isabelle
  imports Main "HOL-Library.Monad_Syntax"
begin

section \<open>The yajl tree value\<close>

text \<open>
  The generated codecs of libocispec work on a parsed JSON tree (\<^verbatim>\<open>yajl_val\<close>).
  An object node holds two parallel arrays, \<^verbatim>\<open>keys\<close> and \<^verbatim>\<open>values\<close>, of one length;
  they are modelled as one list of slots. Both entries of a slot are pointers and can be
  \<^verbatim>\<open>NULL\<close> (the decoders null them when they move an entry out), hence the options.
\<close>

datatype yajl_type =
    yajl_t_string | yajl_t_number | yajl_t_object | yajl_t_array
  | yajl_t_true | yajl_t_false | yajl_t_null | yajl_t_any

datatype yajl_val =
    YString string
  | YNumber string
  | YObject "(string option \<times> yajl_val option) list"
  | YArray "yajl_val option list"
  | YTrue
  | YFalse
  | YNull

type_synonym slot = "string option \<times> yajl_val option"

fun type_of :: "yajl_val \<Rightarrow> yajl_type" where
  "type_of (YString s) = yajl_t_string"
| "type_of (YNumber n) = yajl_t_number"
| "type_of (YObject kvs) = yajl_t_object"
| "type_of (YArray vs) = yajl_t_array"
| "type_of YTrue = yajl_t_true"
| "type_of YFalse = yajl_t_false"
| "type_of YNull = yajl_t_null"

text \<open>
  Modelled from the spec: \<^verbatim>\<open>get_val\<close> (libocispec's \<^verbatim>\<open>json_common.c\<close>) is not among
  the sources. The spec has the decoder ``look up wire-name in the tree's object by exact
  key match'', and then says what the matched value gives for each kind of field. A
  boolean is ``present only if the matched value is exactly JSON-true or JSON-false'': the
  call sites read a boolean field by one call asking for \<^verbatim>\<open>yajl_t_true\<close> and, when that call
  returns \<^verbatim>\<open>NULL\<close>, by a second one asking for \<^verbatim>\<open>yajl_t_false\<close>, so a lookup that asks for
  one of these kinds returns the matched value only when it has that kind. A string array
  ``must be a JSON array''. For a scalar string ``a present-but-non-string value copies
  the empty string'': a lookup that asks for \<^verbatim>\<open>yajl_t_string\<close> returns the matched value
  whatever its kind, and the call site copies the empty string when the accessor finds no
  text in it. The lookup therefore returns the value of the first slot whose key is the
  name, provided the tree is an object and the value has the requested kind, where
  \<^verbatim>\<open>yajl_t_string\<close> and \<^verbatim>\<open>yajl_t_any\<close> accept every kind, and \<^verbatim>\<open>NULL\<close> otherwise. A nulled
  key matches no name.
\<close>

definition get_val :: "yajl_val \<Rightarrow> string \<Rightarrow> yajl_type \<Rightarrow> yajl_val option" where
  "get_val tree name ty =
     (case tree of
        YObject slots \<Rightarrow>
          (case map_of slots (Some name) of
             Some (Some v) \<Rightarrow>
               if ty = yajl_t_any \<or> ty = yajl_t_string \<or> type_of v = ty then Some v else None
           | _ \<Rightarrow> None)
      | _ \<Rightarrow> None)"

text \<open>
  Modelled from the spec: the yajl accessor macros \<^verbatim>\<open>YAJL_GET_STRING\<close> (the text of a
  string node, \<^verbatim>\<open>NULL\<close> for every other kind) and \<^verbatim>\<open>YAJL_IS_TRUE\<close> are not among the
  sources.
\<close>

definition YAJL_GET_STRING :: "yajl_val \<Rightarrow> string option" where
  "YAJL_GET_STRING v = (case v of YString s \<Rightarrow> Some s | _ \<Rightarrow> None)"

definition YAJL_IS_TRUE :: "yajl_val \<Rightarrow> bool" where
  "YAJL_IS_TRUE v = (v = YTrue)"

section \<open>The parser context\<close>

text \<open>
  Modelled from the spec: \<^verbatim>\<open>struct parser_context\<close> and the \<^verbatim>\<open>OPT_\<close> bit masks are
  declared in a header that is not among the sources. The code only ever tests
  \<^verbatim>\<open>ctx->options & OPT_X\<close>, and the spec describes the options as independent
  switches, so the options word is modelled by one boolean per mask
  (\<^verbatim>\<open>OPT_PARSE_FULLKEY\<close> is the spec's captureUnknown, \<^verbatim>\<open>OPT_PARSE_STRICT\<close> its strictWarn,
  \<^verbatim>\<open>OPT_GEN_KEY_VALUE\<close> its alwaysEmitKnownKeys). \<open>errfile\<close> tells whether
  \<^verbatim>\<open>ctx->errfile\<close> is not \<^verbatim>\<open>NULL\<close>.
\<close>

record parser_context =
  OPT_PARSE_STRICT :: bool
  OPT_PARSE_FULLKEY :: bool
  OPT_GEN_KEY_VALUE :: bool
  OPT_GEN_SIMPLIFY :: bool
  errfile :: bool

section \<open>Memory\<close>

type_synonym addr = nat

text \<open>The C structs, with pointers as optional addresses (\<^verbatim>\<open>NULL\<close> is \<open>None\<close>).\<close>

record cgroup =
  v1 :: bool
  v2 :: bool
  systemd :: bool
  systemd_user :: bool
  rdma :: bool
  cgroup_residual :: "addr option"
  v1_present :: bool
  v2_present :: bool
  systemd_present :: bool
  systemd_user_present :: bool
  rdma_present :: bool

record namespace_reference =
  type :: "addr option"
  path :: "addr option"
  zos_residual :: "addr option"

record seccomp =
  enabled :: bool
  actions :: "addr option"
  actions_len :: nat
  operators :: "addr option"
  operators_len :: nat
  archs :: "addr option"
  archs_len :: nat
  known_flags :: "addr option"
  known_flags_len :: nat
  supported_flags :: "addr option"
  supported_flags_len :: nat
  seccomp_residual :: "addr option"
  enabled_present :: bool

record idmap =
  idmap_enabled :: bool
  idmap_residual :: "addr option"
  idmap_enabled_present :: bool

record mount_extensions =
  idmap :: "addr option"
  mount_extensions_residual :: "addr option"

text \<open>
  What one allocated block holds: the characters of a \<^verbatim>\<open>char *\<close>, the elements of a
  \<^verbatim>\<open>char **\<close>, one of the structs, or a yajl node. The key and value arrays of a yajl
  node belong to the node's block: yajl never hands them out on their own, and
  \<^verbatim>\<open>yajl_tree_free\<close> releases them with the node.
\<close>

datatype obj =
    Chars string
  | Ptrs "addr option list"
  | Tree yajl_val
  | Cgroup cgroup
  | Zos namespace_reference
  | Seccomp seccomp
  | Idmap idmap
  | MountExt mount_extensions

text \<open>
  The state is the heap, the outcomes of the coming allocations and the lines written to
  \<^verbatim>\<open>ctx->errfile\<close>. An address is the index of its block in \<open>cells\<close>; a released block
  is \<open>None\<close> and its address is never handed out again, so that every use of a dangling
  pointer is visible. \<open>mem\<close> scripts the allocator: the head is consumed by the next
  allocation, which fails on \<open>False\<close>; once the script is exhausted every allocation
  succeeds.
\<close>

record state =
  cells :: "obj option list"
  mem :: "bool list"
  errlog :: "string list"

definition heap_load :: "state \<Rightarrow> addr \<Rightarrow> obj option" where
  "heap_load s a = (if a < length (cells s) then cells s ! a else None)"

definition heap_store :: "addr \<Rightarrow> obj \<Rightarrow> state \<Rightarrow> state" where
  "heap_store a v s = s\<lparr>cells := (cells s)[a := Some v]\<rparr>"

text \<open>
  A store through a pointer into a block of the heap. Writing to a released block is
  undefined behaviour (\<open>None\<close>).
\<close>

definition heap_write :: "addr \<Rightarrow> obj \<Rightarrow> state \<Rightarrow> state option" where
  "heap_write a v s = (if heap_load s a = None then None else Some (heap_store a v s))"

text \<open>\<^verbatim>\<open>calloc\<close>, \<^verbatim>\<open>strdup\<close> and \<^verbatim>\<open>asprintf\<close>: a new block with the given content, or \<^verbatim>\<open>NULL\<close>.\<close>

definition alloc :: "obj \<Rightarrow> state \<Rightarrow> addr option \<times> state" where
  "alloc v s =
     (case mem s of
        False # m \<Rightarrow> (None, s\<lparr>mem := m\<rparr>)
      | True # m \<Rightarrow> (Some (length (cells s)), s\<lparr>cells := cells s @ [Some v], mem := m\<rparr>)
      | [] \<Rightarrow> (Some (length (cells s)), s\<lparr>cells := cells s @ [Some v]\<rparr>))"

text \<open>
  An allocation for an array inside a yajl node: the outcome comes from the same script,
  the array lives in the node's block.
\<close>

definition alloc_inside :: "state \<Rightarrow> bool \<times> state" where
  "alloc_inside s =
     (case mem s of
        False # m \<Rightarrow> (False, s\<lparr>mem := m\<rparr>)
      | True # m \<Rightarrow> (True, s\<lparr>mem := m\<rparr>)
      | [] \<Rightarrow> (True, s))"

text \<open>
  \<^verbatim>\<open>free\<close>: a no-op on \<^verbatim>\<open>NULL\<close>; releasing an address that holds no live block (a double
  free) is undefined behaviour, the result \<open>None\<close> of every function that can run into it.
\<close>

definition free :: "addr option \<Rightarrow> state \<Rightarrow> state option" where
  "free p s =
     (case p of
        None \<Rightarrow> Some s
      | Some a \<Rightarrow>
          (case heap_load s a of
             None \<Rightarrow> None
           | Some v \<Rightarrow> Some (s\<lparr>cells := (cells s)[a := None]\<rparr>)))"

text \<open>
  Modelled from the spec: \<^verbatim>\<open>yajl_tree_free\<close> belongs to yajl and is not among the
  sources. It releases a whole tree and accepts \<^verbatim>\<open>NULL\<close>.
\<close>

definition yajl_tree_free :: "addr option \<Rightarrow> state \<Rightarrow> state option" where
  "yajl_tree_free p s =
     (case p of
        None \<Rightarrow> Some s
      | Some a \<Rightarrow>
          (case heap_load s a of
             Some (Tree t) \<Rightarrow> free (Some a) s
           | _ \<Rightarrow> None))"

section \<open>The residual of unknown keys\<close>

text \<open>
  Every decoder ends with the same block. It walks the slots of the source object; a key
  that is none of the known names counts as unknown, and with \<^verbatim>\<open>OPT_PARSE_FULLKEY\<close> the
  key and its value are moved to the next free slot of the residual object and nulled in
  the source. \<^verbatim>\<open>strcmp\<close> on a nulled key is undefined behaviour (\<open>None\<close>). The result is
  the slots left in the source, the slots of the residual and the counter \<^verbatim>\<open>j\<close>.
\<close>

fun detach :: "string list \<Rightarrow> bool \<Rightarrow> slot list \<Rightarrow> (slot list \<times> slot list \<times> nat) option" where
  "detach known fullkey [] = Some ([], [], 0)"
| "detach known fullkey ((k, v) # rest) =
     (case k of
        None \<Rightarrow> None
      | Some key \<Rightarrow>
          (case detach known fullkey rest of
             None \<Rightarrow> None
           | Some (src, resi, j) \<Rightarrow>
               if key \<notin> set known
               then (if fullkey
                     then Some ((None, None) # src, (Some key, v) # resi, Suc j)
                     else Some ((k, v) # src, resi, Suc j))
               else Some ((k, v) # src, resi, j)))"

text \<open>
  The three allocations of the residual node: the node, its key array and its value
  array. When an array cannot be had the node is released again.
\<close>

definition calloc_resi :: "state \<Rightarrow> (addr option \<times> state) option" where
  "calloc_resi s =
     (case alloc (Tree (YObject [])) s of
        (None, s1) \<Rightarrow> Some (None, s1)
      | (Some a, s1) \<Rightarrow>
          (case alloc_inside s1 of
             (False, s2) \<Rightarrow> map_option (Pair None) (yajl_tree_free (Some a) s2)
           | (True, s2) \<Rightarrow>
               (case alloc_inside s2 of
                  (False, s3) \<Rightarrow> map_option (Pair None) (yajl_tree_free (Some a) s3)
                | (True, s3) \<Rightarrow> Some (Some a, s3))))"

definition unknown_key_warning :: string where
  "unknown_key_warning = ''WARNING: unknown key found'' @ [CHR 0x0A]"

definition fprintf :: "string \<Rightarrow> state \<Rightarrow> state" where
  "fprintf line s = s\<lparr>errlog := errlog s @ [line]\<rparr>"

text \<open>
  The block as a whole. \<open>NoMemory\<close> is its early \<^verbatim>\<open>return NULL\<close>; \<open>Parsed\<close> carries the
  value assigned to \<^verbatim>\<open>ret->_residual\<close>, the source tree as the block leaves it, and the
  state.
\<close>

datatype residual_step = NoMemory state | Parsed "addr option" yajl_val state

definition parse_residual ::
  "string list \<Rightarrow> yajl_val \<Rightarrow> parser_context \<Rightarrow> state \<Rightarrow> residual_step option" where
  "parse_residual known tree ctx s =
     (case tree of
        YObject slots \<Rightarrow>
          (case (if OPT_PARSE_FULLKEY ctx then calloc_resi s else Some (None, s)) of
             None \<Rightarrow> None
           | Some (resi, s1) \<Rightarrow>
               if OPT_PARSE_FULLKEY ctx \<and> resi = None then Some (NoMemory s1)
               else
                 (case detach known (OPT_PARSE_FULLKEY ctx) slots of
                    None \<Rightarrow> None
                  | Some (src, moved, j) \<Rightarrow>
                      let s2 = (case resi of
                                  None \<Rightarrow> s1
                                | Some a \<Rightarrow> heap_store a (Tree (YObject moved)) s1);
                          s3 = (if OPT_PARSE_STRICT ctx \<and> 0 < j \<and> errfile ctx
                                then fprintf unknown_key_warning s2 else s2)
                      in Some (Parsed resi (YObject src) s3)))
      | _ \<Rightarrow> Some (Parsed None tree s))"

section \<open>Decoding\<close>

text \<open>
  What a decoder leaves behind: the returned pointer, \<^verbatim>\<open>*err\<close>, the source tree as the
  call leaves it (\<open>None\<close> when the caller passed \<^verbatim>\<open>NULL\<close>) and the state. The error
  message is a block of its own that the caller owns.
\<close>

record made =
  ret :: "addr option"
  err :: "addr option"
  tree_after :: "yajl_val option"
  st :: state

text \<open>The read of one boolean field: the value and the presence flag.\<close>

definition get_bool :: "yajl_val \<Rightarrow> string \<Rightarrow> bool \<times> bool" where
  "get_bool tree name =
     (case get_val tree name yajl_t_true of
        Some val \<Rightarrow> (YAJL_IS_TRUE val, True)
      | None \<Rightarrow>
          (case get_val tree name yajl_t_false of
             Some val \<Rightarrow> (False, True)
           | None \<Rightarrow> (False, False)))"

definition zero_cgroup :: cgroup where
  "zero_cgroup = \<lparr>v1 = False, v2 = False, systemd = False, systemd_user = False,
     rdma = False, cgroup_residual = None, v1_present = False, v2_present = False,
     systemd_present = False, systemd_user_present = False, rdma_present = False\<rparr>"

definition free_runtime_spec_schema_features_linux_cgroup ::
  "addr option \<Rightarrow> state \<Rightarrow> state option" where
  "free_runtime_spec_schema_features_linux_cgroup ptr s =
     (case ptr of
        None \<Rightarrow> Some s
      | Some p \<Rightarrow>
          (case heap_load s p of
             Some (Cgroup r) \<Rightarrow>
               do {
                 s1 \<leftarrow> yajl_tree_free (cgroup_residual r) s;
                 s2 \<leftarrow> heap_write p (Cgroup (r\<lparr>cgroup_residual := None\<rparr>)) s1;
                 free (Some p) s2
               }
           | _ \<Rightarrow> None))"

definition cgroup_keys :: "string list" where
  "cgroup_keys = [''v1'', ''v2'', ''systemd'', ''systemdUser'', ''rdma'']"

text \<open>
  \<^verbatim>\<open>ret\<close> is declared \<^verbatim>\<open>__auto_cleanup\<close>: every \<^verbatim>\<open>return NULL\<close> after the \<^verbatim>\<open>calloc\<close>
  releases the record built so far through the free function, and \<^verbatim>\<open>move_ptr\<close> hands
  the record out without releasing it.
\<close>

definition read_cgroup :: "yajl_val \<Rightarrow> cgroup" where
  "read_cgroup t =
     zero_cgroup
       \<lparr>v1 := fst (get_bool t ''v1''), v1_present := snd (get_bool t ''v1''),
        v2 := fst (get_bool t ''v2''), v2_present := snd (get_bool t ''v2''),
        systemd := fst (get_bool t ''systemd''),
        systemd_present := snd (get_bool t ''systemd''),
        systemd_user := fst (get_bool t ''systemdUser''),
        systemd_user_present := snd (get_bool t ''systemdUser''),
        rdma := fst (get_bool t ''rdma''),
        rdma_present := snd (get_bool t ''rdma'')\<rparr>"

definition make_runtime_spec_schema_features_linux_cgroup ::
  "yajl_val option \<Rightarrow> parser_context \<Rightarrow> state \<Rightarrow> made option" where
  "make_runtime_spec_schema_features_linux_cgroup tree ctx s =
     (case tree of
        None \<Rightarrow> Some \<lparr>ret = None, err = None, tree_after = None, st = s\<rparr>
      | Some t \<Rightarrow>
          (case alloc (Cgroup zero_cgroup) s of
             (None, s1) \<Rightarrow> Some \<lparr>ret = None, err = None, tree_after = Some t, st = s1\<rparr>
           | (Some p, s1) \<Rightarrow>
               let r = read_cgroup t
               in (case parse_residual cgroup_keys t ctx (heap_store p (Cgroup r) s1) of
                     None \<Rightarrow> None
                   | Some (NoMemory s2) \<Rightarrow>
                       map_option (\<lambda>s3. \<lparr>ret = None, err = None, tree_after = Some t, st = s3\<rparr>)
                         (free_runtime_spec_schema_features_linux_cgroup (Some p) s2)
                   | Some (Parsed resi t' s2) \<Rightarrow>
                       Some \<lparr>ret = Some p, err = None, tree_after = Some t',
                             st = heap_store p (Cgroup (r\<lparr>cgroup_residual := resi\<rparr>)) s2\<rparr>)))"

definition zero_namespace_reference :: namespace_reference where
  "zero_namespace_reference = \<lparr>type = None, path = None, zos_residual = None\<rparr>"

definition free_runtime_spec_schema_defs_zos_namespace_reference ::
  "addr option \<Rightarrow> state \<Rightarrow> state option" where
  "free_runtime_spec_schema_defs_zos_namespace_reference ptr s =
     (case ptr of
        None \<Rightarrow> Some s
      | Some p \<Rightarrow>
          (case heap_load s p of
             Some (Zos r) \<Rightarrow>
               do {
                 s1 \<leftarrow> free (type r) s;
                 s2 \<leftarrow> heap_write p (Zos (r\<lparr>type := None\<rparr>)) s1;
                 s3 \<leftarrow> free (path r) s2;
                 s4 \<leftarrow> heap_write p (Zos (r\<lparr>type := None, path := None\<rparr>)) s3;
                 s5 \<leftarrow> yajl_tree_free (zos_residual r) s4;
                 s6 \<leftarrow> heap_write p (Zos zero_namespace_reference) s5;
                 free (Some p) s6
               }
           | _ \<Rightarrow> None))"

text \<open>
  The read of one string field: whether the decoder may go on, and the pointer stored in
  the field. \<^verbatim>\<open>strdup\<close> copies the empty string when the accessor yields \<^verbatim>\<open>NULL\<close>.
\<close>

definition get_string :: "yajl_val \<Rightarrow> string \<Rightarrow> state \<Rightarrow> bool \<times> addr option \<times> state" where
  "get_string tree name s =
     (case get_val tree name yajl_t_string of
        None \<Rightarrow> (True, None, s)
      | Some val \<Rightarrow>
          (case alloc (Chars (case YAJL_GET_STRING val of Some str \<Rightarrow> str | None \<Rightarrow> [])) s of
             (None, s1) \<Rightarrow> (False, None, s1)
           | (Some a, s1) \<Rightarrow> (True, Some a, s1)))"

text \<open>
  \<^verbatim>\<open>asprintf (err, "Required field '%s' not present", name)\<close>, with the fallback message
  when the allocation of the formatted one fails.
\<close>

definition required_field_message :: "string \<Rightarrow> string" where
  "required_field_message name =
     ''Required field '' @ [CHR 0x27] @ name @ [CHR 0x27] @ '' not present''"

definition required_field_error :: "string \<Rightarrow> state \<Rightarrow> addr option \<times> state" where
  "required_field_error name s =
     (case alloc (Chars (required_field_message name)) s of
        (Some e, s1) \<Rightarrow> (Some e, s1)
      | (None, s1) \<Rightarrow> alloc (Chars ''error allocating memory'') s1)"

definition zos_keys :: "string list" where
  "zos_keys = [''type'', ''path'']"

text \<open>An early \<^verbatim>\<open>return NULL\<close> of the decoder: the cleanup of \<^verbatim>\<open>ret\<close> runs.\<close>

definition zos_return_null ::
  "addr \<Rightarrow> namespace_reference \<Rightarrow> addr option \<Rightarrow> yajl_val \<Rightarrow> state \<Rightarrow> made option" where
  "zos_return_null p r e t s =
     map_option (\<lambda>s'. \<lparr>ret = None, err = e, tree_after = Some t, st = s'\<rparr>)
       (free_runtime_spec_schema_defs_zos_namespace_reference (Some p) (heap_store p (Zos r) s))"

definition make_runtime_spec_schema_defs_zos_namespace_reference ::
  "yajl_val option \<Rightarrow> parser_context \<Rightarrow> state \<Rightarrow> made option" where
  "make_runtime_spec_schema_defs_zos_namespace_reference tree ctx s =
     (case tree of
        None \<Rightarrow> Some \<lparr>ret = None, err = None, tree_after = None, st = s\<rparr>
      | Some t \<Rightarrow>
          (case alloc (Zos zero_namespace_reference) s of
             (None, s1) \<Rightarrow> Some \<lparr>ret = None, err = None, tree_after = Some t, st = s1\<rparr>
           | (Some p, s1) \<Rightarrow>
               (case get_string t ''type'' s1 of
                  (False, ty, s2) \<Rightarrow> zos_return_null p zero_namespace_reference None t s2
                | (True, ty, s2) \<Rightarrow>
                    (case get_string t ''path'' s2 of
                       (False, pa, s3) \<Rightarrow>
                         zos_return_null p (zero_namespace_reference\<lparr>type := ty\<rparr>) None t s3
                     | (True, pa, s3) \<Rightarrow>
                         let r = zero_namespace_reference\<lparr>type := ty, path := pa\<rparr> in
                         if ty = None
                         then (case required_field_error ''type'' s3 of
                                 (e, s4) \<Rightarrow> zos_return_null p r e t s4)
                         else
                           (case parse_residual zos_keys t ctx (heap_store p (Zos r) s3) of
                              None \<Rightarrow> None
                            | Some (NoMemory s4) \<Rightarrow> zos_return_null p r None t s4
                            | Some (Parsed resi t' s4) \<Rightarrow>
                                Some \<lparr>ret = Some p, err = None, tree_after = Some t',
                                      st = heap_store p (Zos (r\<lparr>zos_residual := resi\<rparr>)) s4\<rparr>)))))"

section \<open>Encoding\<close>

text \<open>
  Modelled from the spec: the emitter (\<^verbatim>\<open>yajl_gen\<close>) is an external collaborator, ``an
  abstract emitter supporting open-object/close-object/open-array/close-array/write-key/
  write-scalar''. Its state is the sequence of calls it has accepted; the document is
  that sequence. Any call can be refused with a status other than
  \<^verbatim>\<open>yajl_gen_status_ok\<close>: \<open>script\<close> holds the statuses of the coming calls, and once it
  is exhausted every call is accepted.
\<close>

datatype yajl_gen_status =
    yajl_gen_status_ok
  | yajl_gen_keys_must_be_strings
  | yajl_max_depth_exceeded
  | yajl_gen_in_error_state
  | yajl_gen_generation_complete
  | yajl_gen_invalid_number
  | yajl_gen_no_buf
  | yajl_gen_invalid_string

datatype gen_call =
    MapOpen | MapClose | ArrayOpen | ArrayClose
  | Str string | Bln bool | Num string | Nul
  | Beautify bool

record yajl_gen =
  calls :: "gen_call list"
  script :: "yajl_gen_status list"

definition emit :: "gen_call \<Rightarrow> yajl_gen \<Rightarrow> yajl_gen_status \<times> yajl_gen" where
  "emit c g =
     (case script g of
        [] \<Rightarrow> (yajl_gen_status_ok, g\<lparr>calls := calls g @ [c]\<rparr>)
      | stat # rest \<Rightarrow>
          if stat = yajl_gen_status_ok
          then (yajl_gen_status_ok, g\<lparr>calls := calls g @ [c], script := rest\<rparr>)
          else (stat, g\<lparr>script := rest\<rparr>))"

definition yajl_gen_map_open :: "yajl_gen \<Rightarrow> yajl_gen_status \<times> yajl_gen" where
  "yajl_gen_map_open = emit MapOpen"

definition yajl_gen_map_close :: "yajl_gen \<Rightarrow> yajl_gen_status \<times> yajl_gen" where
  "yajl_gen_map_close = emit MapClose"

definition yajl_gen_array_open :: "yajl_gen \<Rightarrow> yajl_gen_status \<times> yajl_gen" where
  "yajl_gen_array_open = emit ArrayOpen"

definition yajl_gen_array_close :: "yajl_gen \<Rightarrow> yajl_gen_status \<times> yajl_gen" where
  "yajl_gen_array_close = emit ArrayClose"

definition yajl_gen_string :: "string \<Rightarrow> yajl_gen \<Rightarrow> yajl_gen_status \<times> yajl_gen" where
  "yajl_gen_string str = emit (Str str)"

definition yajl_gen_bool :: "bool \<Rightarrow> yajl_gen \<Rightarrow> yajl_gen_status \<times> yajl_gen" where
  "yajl_gen_bool b = emit (Bln b)"

text \<open>\<^verbatim>\<open>yajl_gen_config (g, yajl_gen_beautify, b)\<close>; the code ignores what it returns.\<close>

definition yajl_gen_config_beautify :: "bool \<Rightarrow> yajl_gen \<Rightarrow> yajl_gen" where
  "yajl_gen_config_beautify b g = g\<lparr>calls := calls g @ [Beautify b]\<rparr>"

text \<open>
  Modelled from the spec: the macro \<^verbatim>\<open>GEN_SET_ERROR_AND_RETURN\<close> is not among the
  sources. After every emitter call the generators leave with the status of the call
  unless it is \<^verbatim>\<open>yajl_gen_status_ok\<close> (``any emitter failure is propagated
  immediately''); \<^verbatim>\<open>*err\<close> is set on exactly these exits.
\<close>

definition and_then ::
  "yajl_gen_status \<times> yajl_gen \<Rightarrow> (yajl_gen \<Rightarrow> yajl_gen_status \<times> yajl_gen) \<Rightarrow>
   yajl_gen_status \<times> yajl_gen" where
  "and_then r f =
     (case r of (stat, g) \<Rightarrow> if stat = yajl_gen_status_ok then f g else (stat, g))"

fun emit_all :: "gen_call list \<Rightarrow> yajl_gen \<Rightarrow> yajl_gen_status \<times> yajl_gen" where
  "emit_all [] g = (yajl_gen_status_ok, g)"
| "emit_all (c # cs) g = and_then (emit c g) (emit_all cs)"

text \<open>
  Modelled from the spec: \<^verbatim>\<open>gen_yajl_object_residual\<close> (\<^verbatim>\<open>json_common.c\<close>) is not
  among the sources. The keys and values of the residual object ``are emitted verbatim,
  in their stored order''; a nulled slot has nothing to emit.
\<close>

fun val_calls :: "yajl_val \<Rightarrow> gen_call list" where
  "val_calls (YString s) = [Str s]"
| "val_calls (YNumber n) = [Num n]"
| "val_calls (YObject kvs) =
     MapOpen #
     concat (map (\<lambda>(k, v). case k of
                                None \<Rightarrow> []
                              | Some key \<Rightarrow>
                                  Str key # (case v of None \<Rightarrow> [] | Some x \<Rightarrow> val_calls x))
                 kvs)
     @ [MapClose]"
| "val_calls (YArray vs) =
     ArrayOpen # concat (map (\<lambda>v. case v of None \<Rightarrow> [] | Some x \<Rightarrow> val_calls x) vs)
     @ [ArrayClose]"
| "val_calls YTrue = [Bln True]"
| "val_calls YFalse = [Bln False]"
| "val_calls YNull = [Nul]"

definition slot_calls :: "slot \<Rightarrow> gen_call list" where
  "slot_calls kv =
     (case kv of
        (None, v) \<Rightarrow> []
      | (Some key, v) \<Rightarrow> Str key # (case v of None \<Rightarrow> [] | Some x \<Rightarrow> val_calls x))"

definition gen_yajl_object_residual ::
  "slot list \<Rightarrow> yajl_gen \<Rightarrow> yajl_gen_status \<times> yajl_gen" where
  "gen_yajl_object_residual slots = emit_all (concat (map slot_calls slots))"

text \<open>
  The generators only read the record. What they read through its pointers is fetched
  first: \<open>None\<close> when a pointer that the generator follows holds no block of the kind it
  expects (undefined behaviour), \<open>Some None\<close> for \<^verbatim>\<open>NULL\<close>.
\<close>

definition load_chars :: "state \<Rightarrow> addr option \<Rightarrow> string option option" where
  "load_chars s p =
     (case p of
        None \<Rightarrow> Some None
      | Some a \<Rightarrow> (case heap_load s a of Some (Chars str) \<Rightarrow> Some (Some str) | _ \<Rightarrow> None))"

definition load_residual :: "state \<Rightarrow> addr option \<Rightarrow> slot list option option" where
  "load_residual s p =
     (case p of
        None \<Rightarrow> Some None
      | Some a \<Rightarrow>
          (case heap_load s a of
             Some (Tree (YObject slots)) \<Rightarrow> Some (Some slots)
           | _ \<Rightarrow> None))"

text \<open>\<^verbatim>\<open>ptr != NULL && ptr->f\<close> for a boolean member \<^verbatim>\<open>f\<close>.\<close>

definition member :: "('r \<Rightarrow> bool) \<Rightarrow> 'r option \<Rightarrow> bool" where
  "member f ptr = (case ptr of None \<Rightarrow> False | Some r \<Rightarrow> f r)"

text \<open>The block of one boolean field: \<open>present\<close> and \<open>b\<close> are the two tests on \<^verbatim>\<open>ptr\<close>.\<close>

definition gen_bool_field ::
  "parser_context \<Rightarrow> string \<Rightarrow> bool \<Rightarrow> bool \<Rightarrow> yajl_gen \<Rightarrow> yajl_gen_status \<times> yajl_gen" where
  "gen_bool_field ctx name present b g =
     (if OPT_GEN_KEY_VALUE ctx \<or> present
      then and_then (yajl_gen_string name g) (yajl_gen_bool b)
      else (yajl_gen_status_ok, g))"

text \<open>The block of one string field: \<open>str\<close> is \<open>None\<close> unless the pointer is set.\<close>

definition gen_string_field ::
  "parser_context \<Rightarrow> string \<Rightarrow> string option \<Rightarrow> yajl_gen \<Rightarrow> yajl_gen_status \<times> yajl_gen" where
  "gen_string_field ctx name str g =
     (if OPT_GEN_KEY_VALUE ctx \<or> str \<noteq> None
      then and_then (yajl_gen_string name g)
             (yajl_gen_string (case str of None \<Rightarrow> [] | Some x \<Rightarrow> x))
      else (yajl_gen_status_ok, g))"

definition gen_residual_field ::
  "slot list option \<Rightarrow> yajl_gen \<Rightarrow> yajl_gen_status \<times> yajl_gen" where
  "gen_residual_field resi g =
     (case resi of
        None \<Rightarrow> (yajl_gen_status_ok, g)
      | Some slots \<Rightarrow> gen_yajl_object_residual slots g)"

definition load_cgroup :: "state \<Rightarrow> addr option \<Rightarrow> (cgroup option \<times> slot list option) option" where
  "load_cgroup s ptr =
     (case ptr of
        None \<Rightarrow> Some (None, None)
      | Some p \<Rightarrow>
          (case heap_load s p of
             Some (Cgroup r) \<Rightarrow>
               map_option (Pair (Some r)) (load_residual s (cgroup_residual r))
           | _ \<Rightarrow> None))"

definition gen_runtime_spec_schema_features_linux_cgroup ::
  "yajl_gen \<Rightarrow> addr option \<Rightarrow> parser_context \<Rightarrow> state \<Rightarrow> (yajl_gen_status \<times> yajl_gen) option" where
  "gen_runtime_spec_schema_features_linux_cgroup g ptr ctx s =
     (case load_cgroup s ptr of
        None \<Rightarrow> None
      | Some (r, resi) \<Rightarrow>
          Some
           (and_then (yajl_gen_map_open g) (\<lambda>g.
            and_then (gen_bool_field ctx ''v1'' (member v1_present r) (member v1 r) g) (\<lambda>g.
            and_then (gen_bool_field ctx ''v2'' (member v2_present r) (member v2 r) g) (\<lambda>g.
            and_then (gen_bool_field ctx ''systemd''
                        (member systemd_present r) (member systemd r) g) (\<lambda>g.
            and_then (gen_bool_field ctx ''systemdUser''
                        (member systemd_user_present r) (member systemd_user r) g) (\<lambda>g.
            and_then (gen_bool_field ctx ''rdma'' (member rdma_present r) (member rdma r) g) (\<lambda>g.
            and_then (gen_residual_field resi g)
            yajl_gen_map_close))))))))"

definition load_zos ::
  "state \<Rightarrow> addr option \<Rightarrow> (string option \<times> string option \<times> slot list option) option" where
  "load_zos s ptr =
     (case ptr of
        None \<Rightarrow> Some (None, None, None)
      | Some p \<Rightarrow>
          (case heap_load s p of
             Some (Zos r) \<Rightarrow>
               do {
                 ty \<leftarrow> load_chars s (type r);
                 pa \<leftarrow> load_chars s (path r);
                 resi \<leftarrow> load_residual s (zos_residual r);
                 Some (ty, pa, resi)
               }
           | _ \<Rightarrow> None))"

definition gen_runtime_spec_schema_defs_zos_namespace_reference ::
  "yajl_gen \<Rightarrow> addr option \<Rightarrow> parser_context \<Rightarrow> state \<Rightarrow> (yajl_gen_status \<times> yajl_gen) option" where
  "gen_runtime_spec_schema_defs_zos_namespace_reference g ptr ctx s =
     (case load_zos s ptr of
        None \<Rightarrow> None
      | Some (ty, pa, resi) \<Rightarrow>
          Some
           (and_then (yajl_gen_map_open g) (\<lambda>g.
            and_then (gen_string_field ctx ''type'' ty g) (\<lambda>g.
            and_then (gen_string_field ctx ''path'' pa g) (\<lambda>g.
            and_then (gen_residual_field resi g)
            yajl_gen_map_close)))))"

section \<open>Records with string arrays and nested records\<close>

definition zero_seccomp :: seccomp where
  "zero_seccomp = \<lparr>enabled = False, actions = None, actions_len = 0, operators = None,
     operators_len = 0, archs = None, archs_len = 0, known_flags = None, known_flags_len = 0,
     supported_flags = None, supported_flags_len = 0, seccomp_residual = None,
     enabled_present = False\<rparr>"

text \<open>
  The first \<^verbatim>\<open>len\<close> elements of the array at \<^verbatim>\<open>arr\<close>; reading past the end of the
  block, or through a pointer that holds no array, is undefined behaviour.
\<close>

definition load_elements :: "state \<Rightarrow> addr \<Rightarrow> nat \<Rightarrow> addr option list option" where
  "load_elements s a len =
     (case heap_load s a of
        Some (Ptrs xs) \<Rightarrow> if len \<le> length xs then Some (take len xs) else None
      | _ \<Rightarrow> None)"

text \<open>
  The release of one string array, the same block for each array member of a record:
  every element that is set is released, then the array.
\<close>

fun free_elements :: "addr option list \<Rightarrow> state \<Rightarrow> state option" where
  "free_elements [] s = Some s"
| "free_elements (x # xs) s = do { s1 \<leftarrow> free x s; free_elements xs s1 }"

definition free_string_array :: "addr option \<Rightarrow> nat \<Rightarrow> state \<Rightarrow> state option" where
  "free_string_array arr len s =
     (case arr of
        None \<Rightarrow> Some s
      | Some a \<Rightarrow>
          do {
            xs \<leftarrow> load_elements s a len;
            s1 \<leftarrow> free_elements xs s;
            s2 \<leftarrow> (case heap_load s1 a of
                    Some (Ptrs ys) \<Rightarrow>
                      heap_write a (Ptrs (replicate len None @ drop len ys)) s1
                  | _ \<Rightarrow> None);
            free (Some a) s2
          })"

definition free_runtime_spec_schema_features_linux_seccomp ::
  "addr option \<Rightarrow> state \<Rightarrow> state option" where
  "free_runtime_spec_schema_features_linux_seccomp ptr s =
     (case ptr of
        None \<Rightarrow> Some s
      | Some p \<Rightarrow>
          (case heap_load s p of
             Some (Seccomp r) \<Rightarrow>
               do {
                 s1 \<leftarrow> free_string_array (actions r) (actions_len r) s;
                 s1 \<leftarrow> heap_write p (Seccomp (r\<lparr>actions := None\<rparr>)) s1;
                 s2 \<leftarrow> free_string_array (operators r) (operators_len r) s1;
                 s2 \<leftarrow> heap_write p (Seccomp (r\<lparr>actions := None, operators := None\<rparr>)) s2;
                 s3 \<leftarrow> free_string_array (archs r) (archs_len r) s2;
                 s3 \<leftarrow> heap_write p
                        (Seccomp (r\<lparr>actions := None, operators := None, archs := None\<rparr>)) s3;
                 s4 \<leftarrow> free_string_array (known_flags r) (known_flags_len r) s3;
                 s4 \<leftarrow> heap_write p
                        (Seccomp (r\<lparr>actions := None, operators := None, archs := None,
                                    known_flags := None\<rparr>)) s4;
                 s5 \<leftarrow> free_string_array (supported_flags r) (supported_flags_len r) s4;
                 s5 \<leftarrow> heap_write p
                        (Seccomp (r\<lparr>actions := None, operators := None, archs := None,
                                    known_flags := None, supported_flags := None\<rparr>)) s5;
                 s6 \<leftarrow> yajl_tree_free (seccomp_residual r) s5;
                 s6 \<leftarrow> heap_write p
                        (Seccomp (r\<lparr>actions := None, operators := None, archs := None,
                                    known_flags := None, supported_flags := None,
                                    seccomp_residual := None\<rparr>)) s6;
                 free (Some p) s6
               }
           | _ \<Rightarrow> None))"

text \<open>
  The copy of one string array: the new array has one element more than the length, each
  element that is set is duplicated. The result tells whether the clone may go on, and
  gives the values for the array member and its length member (they stay zero when the
  source has no array).
\<close>

definition set_element :: "addr \<Rightarrow> nat \<Rightarrow> addr \<Rightarrow> state \<Rightarrow> state option" where
  "set_element dst i b s =
     (case heap_load s dst of
        Some (Ptrs ys) \<Rightarrow>
          if i < length ys then Some (heap_store dst (Ptrs (ys[i := Some b])) s) else None
      | _ \<Rightarrow> None)"

fun clone_elements :: "addr \<Rightarrow> nat \<Rightarrow> addr option list \<Rightarrow> state \<Rightarrow> (bool \<times> state) option" where
  "clone_elements dst i [] s = Some (True, s)"
| "clone_elements dst i (x # xs) s =
     (case x of
        None \<Rightarrow> clone_elements dst (Suc i) xs s
      | Some a \<Rightarrow>
          (case heap_load s a of
             Some (Chars str) \<Rightarrow>
               (case alloc (Chars str) s of
                  (None, s1) \<Rightarrow> Some (False, s1)
                | (Some b, s1) \<Rightarrow>
                    do { s2 \<leftarrow> set_element dst i b s1; clone_elements dst (Suc i) xs s2 })
           | _ \<Rightarrow> None))"

definition clone_string_array ::
  "addr option \<Rightarrow> nat \<Rightarrow> state \<Rightarrow> (bool \<times> addr option \<times> nat \<times> state) option" where
  "clone_string_array src len s =
     (case src of
        None \<Rightarrow> Some (True, None, 0, s)
      | Some a \<Rightarrow>
          (case alloc (Ptrs (replicate (Suc len) None)) s of
             (None, s1) \<Rightarrow> Some (False, None, len, s1)
           | (Some d, s1) \<Rightarrow>
               do {
                 xs \<leftarrow> load_elements s1 a len;
                 (ok, s2) \<leftarrow> clone_elements d 0 xs s1;
                 Some (ok, Some d, len, s2)
               }))"

definition seccomp_return_null :: "addr \<Rightarrow> seccomp \<Rightarrow> state \<Rightarrow> (addr option \<times> state) option" where
  "seccomp_return_null q r s =
     map_option (Pair None)
       (free_runtime_spec_schema_features_linux_seccomp (Some q) (heap_store q (Seccomp r) s))"

definition clone_runtime_spec_schema_features_linux_seccomp ::
  "addr option \<Rightarrow> state \<Rightarrow> (addr option \<times> state) option" where
  "clone_runtime_spec_schema_features_linux_seccomp src s =
     (case alloc (Seccomp zero_seccomp) s of
        (None, s0) \<Rightarrow> Some (None, s0)
      | (Some q, s0) \<Rightarrow>
          (case src of
             None \<Rightarrow> None
           | Some p \<Rightarrow>
               (case heap_load s0 p of
                  Some (Seccomp x) \<Rightarrow>
                    let r0 = zero_seccomp\<lparr>enabled := enabled x,
                                          enabled_present := enabled_present x\<rparr> in
                    do {
                      (ok, d, n, s1) \<leftarrow> clone_string_array (actions x) (actions_len x) s0;
                      let r1 = r0\<lparr>actions := d, actions_len := n\<rparr>;
                      if \<not> ok then seccomp_return_null q r1 s1 else
                      do {
                        (ok, d, n, s2) \<leftarrow> clone_string_array (operators x) (operators_len x) s1;
                        let r2 = r1\<lparr>operators := d, operators_len := n\<rparr>;
                        if \<not> ok then seccomp_return_null q r2 s2 else
                        do {
                          (ok, d, n, s3) \<leftarrow> clone_string_array (archs x) (archs_len x) s2;
                          let r3 = r2\<lparr>archs := d, archs_len := n\<rparr>;
                          if \<not> ok then seccomp_return_null q r3 s3 else
                          do {
                            (ok, d, n, s4) \<leftarrow>
                              clone_string_array (known_flags x) (known_flags_len x) s3;
                            let r4 = r3\<lparr>known_flags := d, known_flags_len := n\<rparr>;
                            if \<not> ok then seccomp_return_null q r4 s4 else
                            do {
                              (ok, d, n, s5) \<leftarrow>
                                clone_string_array (supported_flags x) (supported_flags_len x) s4;
                              let r5 = r4\<lparr>supported_flags := d, supported_flags_len := n\<rparr>;
                              if \<not> ok then seccomp_return_null q r5 s5
                              else Some (Some q, heap_store q (Seccomp r5) s5)
                            }
                          }
                        }
                      }
                    }
                | _ \<Rightarrow> None)))"

definition clone_runtime_spec_schema_features_linux_cgroup ::
  "addr option \<Rightarrow> state \<Rightarrow> (addr option \<times> state) option" where
  "clone_runtime_spec_schema_features_linux_cgroup src s =
     (case alloc (Cgroup zero_cgroup) s of
        (None, s0) \<Rightarrow> Some (None, s0)
      | (Some q, s0) \<Rightarrow>
          (case src of
             None \<Rightarrow> None
           | Some p \<Rightarrow>
               (case heap_load s0 p of
                  Some (Cgroup x) \<Rightarrow>
                    Some (Some q,
                          heap_store q
                            (Cgroup (zero_cgroup
                               \<lparr>v1 := v1 x, v1_present := v1_present x,
                                v2 := v2 x, v2_present := v2_present x,
                                systemd := systemd x, systemd_present := systemd_present x,
                                systemd_user := systemd_user x,
                                systemd_user_present := systemd_user_present x,
                                rdma := rdma x, rdma_present := rdma_present x\<rparr>)) s0)
                | _ \<Rightarrow> None)))"

text \<open>The copy of one string member.\<close>

definition clone_string :: "addr option \<Rightarrow> state \<Rightarrow> (bool \<times> addr option \<times> state) option" where
  "clone_string src s =
     (case src of
        None \<Rightarrow> Some (True, None, s)
      | Some a \<Rightarrow>
          (case heap_load s a of
             Some (Chars str) \<Rightarrow>
               (case alloc (Chars str) s of
                  (None, s1) \<Rightarrow> Some (False, None, s1)
                | (Some b, s1) \<Rightarrow> Some (True, Some b, s1))
           | _ \<Rightarrow> None))"

definition zos_clone_null ::
  "addr \<Rightarrow> namespace_reference \<Rightarrow> state \<Rightarrow> (addr option \<times> state) option" where
  "zos_clone_null q r s =
     map_option (Pair None)
       (free_runtime_spec_schema_defs_zos_namespace_reference (Some q) (heap_store q (Zos r) s))"

definition clone_runtime_spec_schema_defs_zos_namespace_reference ::
  "addr option \<Rightarrow> state \<Rightarrow> (addr option \<times> state) option" where
  "clone_runtime_spec_schema_defs_zos_namespace_reference src s =
     (case alloc (Zos zero_namespace_reference) s of
        (None, s0) \<Rightarrow> Some (None, s0)
      | (Some q, s0) \<Rightarrow>
          (case src of
             None \<Rightarrow> None
           | Some p \<Rightarrow>
               (case heap_load s0 p of
                  Some (Zos x) \<Rightarrow>
                    do {
                      (ok, ty, s1) \<leftarrow> clone_string (type x) s0;
                      let r1 = zero_namespace_reference\<lparr>type := ty\<rparr>;
                      if \<not> ok then zos_clone_null q r1 s1 else
                      do {
                        (ok, pa, s2) \<leftarrow> clone_string (path x) s1;
                        let r2 = r1\<lparr>path := pa\<rparr>;
                        if \<not> ok then zos_clone_null q r2 s2
                        else Some (Some q, heap_store q (Zos r2) s2)
                      }
                    }
                | _ \<Rightarrow> None)))"

definition zero_idmap :: idmap where
  "zero_idmap = \<lparr>idmap_enabled = False, idmap_residual = None, idmap_enabled_present = False\<rparr>"

definition zero_mount_extensions :: mount_extensions where
  "zero_mount_extensions = \<lparr>idmap = None, mount_extensions_residual = None\<rparr>"

definition free_runtime_spec_schema_features_linux_mount_extensions_idmap ::
  "addr option \<Rightarrow> state \<Rightarrow> state option" where
  "free_runtime_spec_schema_features_linux_mount_extensions_idmap ptr s =
     (case ptr of
        None \<Rightarrow> Some s
      | Some p \<Rightarrow>
          (case heap_load s p of
             Some (Idmap r) \<Rightarrow>
               do {
                 s1 \<leftarrow> yajl_tree_free (idmap_residual r) s;
                 s2 \<leftarrow> heap_write p (Idmap (r\<lparr>idmap_residual := None\<rparr>)) s1;
                 free (Some p) s2
               }
           | _ \<Rightarrow> None))"

definition free_runtime_spec_schema_features_linux_mount_extensions ::
  "addr option \<Rightarrow> state \<Rightarrow> state option" where
  "free_runtime_spec_schema_features_linux_mount_extensions ptr s =
     (case ptr of
        None \<Rightarrow> Some s
      | Some p \<Rightarrow>
          (case heap_load s p of
             Some (MountExt r) \<Rightarrow>
               do {
                 s1 \<leftarrow> (if idmap r \<noteq> None
                        then do {
                          s' \<leftarrow> free_runtime_spec_schema_features_linux_mount_extensions_idmap
                                  (idmap r) s;
                          heap_write p (MountExt (r\<lparr>idmap := None\<rparr>)) s'
                        }
                        else Some s);
                 s2 \<leftarrow> yajl_tree_free (mount_extensions_residual r) s1;
                 s3 \<leftarrow> heap_write p (MountExt zero_mount_extensions) s2;
                 free (Some p) s3
               }
           | _ \<Rightarrow> None))"

definition clone_runtime_spec_schema_features_linux_mount_extensions_idmap ::
  "addr option \<Rightarrow> state \<Rightarrow> (addr option \<times> state) option" where
  "clone_runtime_spec_schema_features_linux_mount_extensions_idmap src s =
     (case alloc (Idmap zero_idmap) s of
        (None, s0) \<Rightarrow> Some (None, s0)
      | (Some q, s0) \<Rightarrow>
          (case src of
             None \<Rightarrow> None
           | Some p \<Rightarrow>
               (case heap_load s0 p of
                  Some (Idmap x) \<Rightarrow>
                    Some (Some q,
                          heap_store q
                            (Idmap (zero_idmap\<lparr>idmap_enabled := idmap_enabled x,
                               idmap_enabled_present := idmap_enabled_present x\<rparr>)) s0)
                | _ \<Rightarrow> None)))"

definition clone_runtime_spec_schema_features_linux_mount_extensions ::
  "addr option \<Rightarrow> state \<Rightarrow> (addr option \<times> state) option" where
  "clone_runtime_spec_schema_features_linux_mount_extensions src s =
     (case alloc (MountExt zero_mount_extensions) s of
        (None, s0) \<Rightarrow> Some (None, s0)
      | (Some q, s0) \<Rightarrow>
          (case src of
             None \<Rightarrow> None
           | Some p \<Rightarrow>
               (case heap_load s0 p of
                  Some (MountExt x) \<Rightarrow>
                    if idmap x \<noteq> None
                    then do {
                      (i, s1) \<leftarrow> clone_runtime_spec_schema_features_linux_mount_extensions_idmap
                                   (idmap x) s0;
                      if i = None
                      then map_option (Pair None)
                             (free_runtime_spec_schema_features_linux_mount_extensions (Some q) s1)
                      else Some (Some q,
                                 heap_store q (MountExt (zero_mount_extensions\<lparr>idmap := i\<rparr>)) s1)
                    }
                    else Some (Some q, s0)
                | _ \<Rightarrow> None)))"

text \<open>
  The block of one string array in a generator. \<open>arr\<close> is \<open>None\<close> unless the array
  pointer is set, and holds the first \<^verbatim>\<open>len\<close> strings otherwise.
\<close>

definition gen_string_array_field ::
  "parser_context \<Rightarrow> string \<Rightarrow> string list option \<Rightarrow> yajl_gen \<Rightarrow> yajl_gen_status \<times> yajl_gen" where
  "gen_string_array_field ctx name arr g =
     (if OPT_GEN_KEY_VALUE ctx \<or> arr \<noteq> None
      then
        let strs = (case arr of None \<Rightarrow> [] | Some xs \<Rightarrow> xs);
            plain = (strs = [] \<and> \<not> OPT_GEN_SIMPLIFY ctx)
        in and_then (yajl_gen_string name g) (\<lambda>g.
           and_then (yajl_gen_array_open (if plain then yajl_gen_config_beautify False g else g)) (\<lambda>g.
           and_then (emit_all (map Str strs) g) (\<lambda>g.
           and_then (yajl_gen_array_close g) (\<lambda>g.
           (yajl_gen_status_ok, if plain then yajl_gen_config_beautify True g else g)))))
      else (yajl_gen_status_ok, g))"

text \<open>
  The strings a generator reads from an array: \<^verbatim>\<open>strlen\<close> of an element that is not set
  is undefined behaviour.
\<close>

definition load_string :: "state \<Rightarrow> addr option \<Rightarrow> string option" where
  "load_string s p =
     (case p of
        None \<Rightarrow> None
      | Some a \<Rightarrow> (case heap_load s a of Some (Chars str) \<Rightarrow> Some str | _ \<Rightarrow> None))"

definition load_strings :: "state \<Rightarrow> addr option \<Rightarrow> nat \<Rightarrow> string list option option" where
  "load_strings s arr len =
     (case arr of
        None \<Rightarrow> Some None
      | Some a \<Rightarrow>
          do {
            xs \<leftarrow> load_elements s a len;
            strs \<leftarrow> those (map (load_string s) xs);
            Some (Some strs)
          })"

record seccomp_strings =
  actions_strs :: "string list option"
  operators_strs :: "string list option"
  archs_strs :: "string list option"
  known_flags_strs :: "string list option"
  supported_flags_strs :: "string list option"
  residual_slots :: "slot list option"

definition load_seccomp :: "state \<Rightarrow> addr option \<Rightarrow> (seccomp option \<times> seccomp_strings) option" where
  "load_seccomp s ptr =
     (case ptr of
        None \<Rightarrow>
          Some (None, \<lparr>actions_strs = None, operators_strs = None, archs_strs = None,
                        known_flags_strs = None, supported_flags_strs = None,
                        residual_slots = None\<rparr>)
      | Some p \<Rightarrow>
          (case heap_load s p of
             Some (Seccomp r) \<Rightarrow>
               do {
                 a \<leftarrow> load_strings s (actions r) (actions_len r);
                 b \<leftarrow> load_strings s (operators r) (operators_len r);
                 c \<leftarrow> load_strings s (archs r) (archs_len r);
                 d \<leftarrow> load_strings s (known_flags r) (known_flags_len r);
                 e \<leftarrow> load_strings s (supported_flags r) (supported_flags_len r);
                 resi \<leftarrow> load_residual s (seccomp_residual r);
                 Some (Some r, \<lparr>actions_strs = a, operators_strs = b, archs_strs = c,
                                 known_flags_strs = d, supported_flags_strs = e,
                                 residual_slots = resi\<rparr>)
               }
           | _ \<Rightarrow> None))"

definition gen_runtime_spec_schema_features_linux_seccomp ::
  "yajl_gen \<Rightarrow> addr option \<Rightarrow> parser_context \<Rightarrow> state \<Rightarrow> (yajl_gen_status \<times> yajl_gen) option" where
  "gen_runtime_spec_schema_features_linux_seccomp g ptr ctx s =
     (case load_seccomp s ptr of
        None \<Rightarrow> None
      | Some (r, v) \<Rightarrow>
          Some
           (and_then (yajl_gen_map_open g) (\<lambda>g.
            and_then (gen_bool_field ctx ''enabled''
                        (member enabled_present r) (member enabled r) g) (\<lambda>g.
            and_then (gen_string_array_field ctx ''actions'' (actions_strs v) g) (\<lambda>g.
            and_then (gen_string_array_field ctx ''operators'' (operators_strs v) g) (\<lambda>g.
            and_then (gen_string_array_field ctx ''archs'' (archs_strs v) g) (\<lambda>g.
            and_then (gen_string_array_field ctx ''knownFlags'' (known_flags_strs v) g) (\<lambda>g.
            and_then (gen_string_array_field ctx ''supportedFlags''
                        (supported_flags_strs v) g) (\<lambda>g.
            and_then (gen_residual_field (residual_slots v) g)
            yajl_gen_map_close)))))))))"

section \<open>Notions used in the statements\<close>

text \<open>
  The slots of an object whose key is none of the known names, in their order, and the
  object's slots with exactly these entries nulled.
\<close>

definition unknown_slots :: "string list \<Rightarrow> slot list \<Rightarrow> slot list" where
  "unknown_slots known slots = filter (\<lambda>(k, v). k \<notin> Some ` set known) slots"

definition null_unknown :: "string list \<Rightarrow> slot list \<Rightarrow> slot list" where
  "null_unknown known slots =
     map (\<lambda>(k, v). if k \<notin> Some ` set known then (None, None) else (k, v)) slots"

definition has_unknown :: "string list \<Rightarrow> yajl_val \<Rightarrow> bool" where
  "has_unknown known t =
     (case t of YObject slots \<Rightarrow> unknown_slots known slots \<noteq> [] | _ \<Rightarrow> False)"

definition tree_has_unknown :: "string list \<Rightarrow> yajl_val option \<Rightarrow> bool" where
  "tree_has_unknown known tree =
     (case tree of None \<Rightarrow> False | Some t \<Rightarrow> has_unknown known t)"

text \<open>Everything a decoder call produces, except the lines it writes to \<^verbatim>\<open>errfile\<close>.\<close>

definition outcome ::
  "made \<Rightarrow> addr option \<times> addr option \<times> yajl_val option \<times> obj option list \<times> bool list" where
  "outcome m = (ret m, err m, tree_after m, cells (st m), mem (st m))"

text \<open>The effect of the warning on the result of the residual block and of a decoder.\<close>

definition warned :: "bool \<Rightarrow> residual_step \<Rightarrow> residual_step" where
  "warned b r =
     (case r of
        NoMemory s \<Rightarrow> NoMemory s
      | Parsed resi t s \<Rightarrow> Parsed resi t (if b then fprintf unknown_key_warning s else s))"

definition add_warning :: "bool \<Rightarrow> made \<Rightarrow> made" where
  "add_warning b m =
     (if b \<and> ret m \<noteq> None then m\<lparr>st := fprintf unknown_key_warning (st m)\<rparr> else m)"

text \<open>
  The boolean members of the cgroup record: wire name, presence flag and value.
\<close>

definition cgroup_fields :: "(string \<times> (cgroup \<Rightarrow> bool) \<times> (cgroup \<Rightarrow> bool)) list" where
  "cgroup_fields =
     [(''v1'', v1_present, v1), (''v2'', v2_present, v2), (''systemd'', systemd_present, systemd),
      (''systemdUser'', systemd_user_present, systemd_user), (''rdma'', rdma_present, rdma)]"

text \<open>
  The document that decoding the object with the given slots and encoding the record
  again is expected to give: the known names whose first value in the object is a JSON
  boolean, in schema order and with that value, then the unknown entries of the object in
  their order.
\<close>

definition known_bool_slots :: "string list \<Rightarrow> slot list \<Rightarrow> slot list" where
  "known_bool_slots names slots =
     concat (map (\<lambda>name. case map_of slots (Some name) of
                             Some (Some YTrue) \<Rightarrow> [(Some name, Some YTrue)]
                           | Some (Some YFalse) \<Rightarrow> [(Some name, Some YFalse)]
                           | _ \<Rightarrow> []) names)"

definition cgroup_document :: "slot list \<Rightarrow> yajl_val" where
  "cgroup_document slots =
     YObject (known_bool_slots cgroup_keys slots @ unknown_slots cgroup_keys slots)"

text \<open>
  The text that a value stands for as a string field, in the words of the spec: the
  content of a JSON string, and the empty string for a value of every other kind. The
  text of the first value under a key of an object, if the key is there.
\<close>

definition string_content :: "yajl_val \<Rightarrow> string" where
  "string_content v = (case v of YString x \<Rightarrow> x | _ \<Rightarrow> [])"

definition string_value :: "slot list \<Rightarrow> string \<Rightarrow> string option" where
  "string_value slots name =
     (case map_of slots (Some name) of Some (Some v) \<Rightarrow> Some (string_content v) | _ \<Rightarrow> None)"

text \<open>Concrete inputs: an empty heap, a fresh emitter, the option sets, two documents.\<close>

definition empty_state :: state where
  "empty_state = \<lparr>cells = [], mem = [], errlog = []\<rparr>"

definition fresh_gen :: yajl_gen where
  "fresh_gen = \<lparr>calls = [], script = []\<rparr>"

definition ctx_plain :: parser_context where
  "ctx_plain = \<lparr>OPT_PARSE_STRICT = False, OPT_PARSE_FULLKEY = False,
     OPT_GEN_KEY_VALUE = False, OPT_GEN_SIMPLIFY = False, errfile = True\<rparr>"

definition ctx_fullkey :: parser_context where
  "ctx_fullkey = ctx_plain\<lparr>OPT_PARSE_FULLKEY := True\<rparr>"

definition ctx_key_value :: parser_context where
  "ctx_key_value = ctx_plain\<lparr>OPT_GEN_KEY_VALUE := True\<rparr>"

definition v1_and_unknown :: "slot list" where
  "v1_and_unknown = [(Some ''v1'', Some YTrue), (Some ''unknownKey'', Some (YString ''x''))]"

definition type_and_path :: "slot list" where
  "type_and_path = [(Some ''type'', Some (YString ''pid'')), (Some ''path'', Some (YNumber ''7''))]"

definition type_not_string :: "slot list" where
  "type_not_string = [(Some ''type'', Some (YNumber ''7''))]"

definition decode_encode_cgroup ::
  "yajl_val \<Rightarrow> parser_context \<Rightarrow> parser_context \<Rightarrow> state \<Rightarrow> yajl_gen \<Rightarrow>
   (yajl_gen_status \<times> yajl_gen) option" where
  "decode_encode_cgroup t ctx ctx' s g =
     (case make_runtime_spec_schema_features_linux_cgroup (Some t) ctx s of
        None \<Rightarrow> None
      | Some m \<Rightarrow> gen_runtime_spec_schema_features_linux_cgroup g (ret m) ctx' (st m))"

definition v1_not_boolean :: "slot list" where
  "v1_not_boolean = [(Some ''v1'', Some (YString ''on'')), (Some ''unknownKey'', Some (YString ''x''))]"

definition seccomp_arrays :: "(string \<times> (seccomp_strings \<Rightarrow> string list option)) list" where
  "seccomp_arrays =
     [(''actions'', actions_strs), (''operators'', operators_strs), (''archs'', archs_strs),
      (''knownFlags'', known_flags_strs), (''supportedFlags'', supported_flags_strs)]"

definition array_calls :: "parser_context \<Rightarrow> string list \<Rightarrow> gen_call list" where
  "array_calls ctx strs =
     (if strs = [] \<and> \<not> OPT_GEN_SIMPLIFY ctx
      then [Beautify False, ArrayOpen, ArrayClose, Beautify True]
      else ArrayOpen # map Str strs @ [ArrayClose])"

definition residual_calls :: "slot list option \<Rightarrow> gen_call list" where
  "residual_calls resi = (case resi of None \<Rightarrow> [] | Some slots \<Rightarrow> concat (map slot_calls slots))"

definition stale_v1 :: state where
  "stale_v1 = \<lparr>cells = [Some (Cgroup (zero_cgroup\<lparr>v1 := True\<rparr>))], mem = [], errlog = []\<rparr>"

section \<open>Ownership\<close>

text \<open>
  The heap after the blocks at the addresses in \<open>A\<close> have been released, and the
  addresses that are set among the elements of an array.
\<close>

definition release :: "addr set \<Rightarrow> state \<Rightarrow> state" where
  "release A s =
     s\<lparr>cells := map (\<lambda>i. if i \<in> A then None else cells s ! i) [0..<length (cells s)]\<rparr>"

fun somes :: "'a option list \<Rightarrow> 'a list" where
  "somes [] = []"
| "somes (None # xs) = somes xs"
| "somes (Some x # xs) = x # somes xs"

text \<open>
  The blocks of a string array with \<^verbatim>\<open>len\<close> elements (the elements that are set, then the
  array) and of a residual tree, and what makes them well-formed: the array pointer leads
  to an array of at least \<^verbatim>\<open>len\<close> elements whose set elements lead to strings; the
  residual pointer leads to a tree.
\<close>

definition is_chars :: "obj option \<Rightarrow> bool" where
  "is_chars c = (case c of Some (Chars str) \<Rightarrow> True | _ \<Rightarrow> False)"

definition is_tree :: "obj option \<Rightarrow> bool" where
  "is_tree c = (case c of Some (Tree t) \<Rightarrow> True | _ \<Rightarrow> False)"

definition array_blocks :: "state \<Rightarrow> addr option \<Rightarrow> nat \<Rightarrow> addr list" where
  "array_blocks s arr len =
     (case arr of
        None \<Rightarrow> []
      | Some a \<Rightarrow> (case load_elements s a len of None \<Rightarrow> [a] | Some xs \<Rightarrow> somes xs @ [a]))"

definition array_ok :: "state \<Rightarrow> addr option \<Rightarrow> nat \<Rightarrow> bool" where
  "array_ok s arr len =
     (case arr of
        None \<Rightarrow> True
      | Some a \<Rightarrow>
          (case load_elements s a len of
             None \<Rightarrow> False
           | Some xs \<Rightarrow> list_all (\<lambda>b. is_chars (heap_load s b)) (somes xs)))"

definition tree_blocks :: "addr option \<Rightarrow> addr list" where
  "tree_blocks p = (case p of None \<Rightarrow> [] | Some a \<Rightarrow> [a])"

definition tree_ok :: "state \<Rightarrow> addr option \<Rightarrow> bool" where
  "tree_ok s p = (case p of None \<Rightarrow> True | Some a \<Rightarrow> is_tree (heap_load s a))"

text \<open>
  A record owns its blocks when the record, its arrays, strings, nested records and
  residual tree are live blocks of the right kinds and no block is reached twice.
\<close>

definition seccomp_blocks :: "state \<Rightarrow> addr \<Rightarrow> seccomp \<Rightarrow> addr list" where
  "seccomp_blocks s p r =
     array_blocks s (actions r) (actions_len r)
     @ array_blocks s (operators r) (operators_len r)
     @ array_blocks s (archs r) (archs_len r)
     @ array_blocks s (known_flags r) (known_flags_len r)
     @ array_blocks s (supported_flags r) (supported_flags_len r)
     @ tree_blocks (seccomp_residual r) @ [p]"

definition owned_seccomp :: "state \<Rightarrow> addr \<Rightarrow> seccomp \<Rightarrow> bool" where
  "owned_seccomp s p r =
     (heap_load s p = Some (Seccomp r)
      \<and> array_ok s (actions r) (actions_len r)
      \<and> array_ok s (operators r) (operators_len r)
      \<and> array_ok s (archs r) (archs_len r)
      \<and> array_ok s (known_flags r) (known_flags_len r)
      \<and> array_ok s (supported_flags r) (supported_flags_len r)
      \<and> tree_ok s (seccomp_residual r)
      \<and> distinct (seccomp_blocks s p r))"

text \<open>
  Modelled from the spec: the macro \<^verbatim>\<open>move_ptr\<close> is not among the sources. It yields the
  pointer held by a variable and leaves \<^verbatim>\<open>NULL\<close> in the variable (``zeroed/moved-out''),
  so that the cleanup of the variable has nothing to release. The result is the pointer
  handed out and the new content of the variable.
\<close>

definition move_ptr :: "addr option \<Rightarrow> addr option \<times> addr option" where
  "move_ptr p = (p, None)"

definition cgroup_blocks :: "addr \<Rightarrow> cgroup \<Rightarrow> addr list" where
  "cgroup_blocks p r = tree_blocks (cgroup_residual r) @ [p]"

definition owned_cgroup :: "state \<Rightarrow> addr \<Rightarrow> cgroup \<Rightarrow> bool" where
  "owned_cgroup s p r =
     (heap_load s p = Some (Cgroup r) \<and> tree_ok s (cgroup_residual r)
      \<and> distinct (cgroup_blocks p r))"

definition idmap_blocks :: "addr \<Rightarrow> idmap \<Rightarrow> addr list" where
  "idmap_blocks p r = tree_blocks (idmap_residual r) @ [p]"

definition owned_idmap :: "state \<Rightarrow> addr \<Rightarrow> idmap \<Rightarrow> bool" where
  "owned_idmap s p r =
     (heap_load s p = Some (Idmap r) \<and> tree_ok s (idmap_residual r)
      \<and> distinct (idmap_blocks p r))"

definition nested_idmap_blocks :: "state \<Rightarrow> addr option \<Rightarrow> addr list" where
  "nested_idmap_blocks s i =
     (case i of
        None \<Rightarrow> []
      | Some a \<Rightarrow> (case heap_load s a of Some (Idmap x) \<Rightarrow> idmap_blocks a x | _ \<Rightarrow> [a]))"

definition nested_idmap_ok :: "state \<Rightarrow> addr option \<Rightarrow> bool" where
  "nested_idmap_ok s i =
     (case i of
        None \<Rightarrow> True
      | Some a \<Rightarrow> (case heap_load s a of Some (Idmap x) \<Rightarrow> owned_idmap s a x | _ \<Rightarrow> False))"

definition mount_extensions_blocks :: "state \<Rightarrow> addr \<Rightarrow> mount_extensions \<Rightarrow> addr list" where
  "mount_extensions_blocks s p r =
     nested_idmap_blocks s (idmap r) @ tree_blocks (mount_extensions_residual r) @ [p]"

definition owned_mount_extensions :: "state \<Rightarrow> addr \<Rightarrow> mount_extensions \<Rightarrow> bool" where
  "owned_mount_extensions s p r =
     (heap_load s p = Some (MountExt r) \<and> nested_idmap_ok s (idmap r)
      \<and> tree_ok s (mount_extensions_residual r)
      \<and> distinct (mount_extensions_blocks s p r))"

text \<open>Two heaps: a seccomp record with one array and a residual, and a nested record.\<close>

definition seccomp_example :: seccomp where
  "seccomp_example = zero_seccomp\<lparr>actions := Some 1, actions_len := 2, seccomp_residual := Some 4\<rparr>"

definition seccomp_heap :: state where
  "seccomp_heap =
     \<lparr>cells = [Some (Seccomp seccomp_example), Some (Ptrs [Some 2, Some 3, None]),
               Some (Chars ''SCMP_ACT_ALLOW''), Some (Chars ''SCMP_ACT_KILL''),
               Some (Tree (YObject [(Some ''extra'', Some YNull)]))],
      mem = [], errlog = []\<rparr>"

definition mount_example :: mount_extensions where
  "mount_example = \<lparr>idmap = Some 1, mount_extensions_residual = None\<rparr>"

definition mount_heap :: state where
  "mount_heap =
     \<lparr>cells = [Some (MountExt mount_example),
               Some (Idmap \<lparr>idmap_enabled = True, idmap_residual = Some 2,
                            idmap_enabled_present = True\<rparr>),
               Some (Tree (YObject []))],
      mem = [], errlog = []\<rparr>"

subsection \<open>What a clone adds to the heap\<close>

text \<open>
  The copy of the elements of a string array in a heap whose next new block is \<open>n\<close>: the
  pointers stored in the new array (one new block for each element that is set, in the
  order of the elements) and the content of these new blocks.
\<close>

fun copy_ptrs :: "nat \<Rightarrow> addr option list \<Rightarrow> addr option list" where
  "copy_ptrs n [] = []"
| "copy_ptrs n (None # xs) = None # copy_ptrs n xs"
| "copy_ptrs n (Some a # xs) = Some n # copy_ptrs (Suc n) xs"

definition copy_cells :: "state \<Rightarrow> addr option list \<Rightarrow> obj option list" where
  "copy_cells s xs = map (heap_load s) (somes xs)"

text \<open>
  A call leaves the heap untouched when every block that was there before the call holds
  what it held; the call may only have added blocks.
\<close>

definition untouched :: "state \<Rightarrow> state \<Rightarrow> bool" where
  "untouched s s' = (take (length (cells s)) (cells s') = cells s)"

text \<open>
  The content of a string array: the string of each of its first \<^verbatim>\<open>len\<close> elements
  (\<open>None\<close> for an element that is \<^verbatim>\<open>NULL\<close>), and \<open>None\<close> for the array that is \<^verbatim>\<open>NULL\<close>.
\<close>

definition array_texts :: "state \<Rightarrow> addr option \<Rightarrow> nat \<Rightarrow> string option list option" where
  "array_texts s arr len =
     (case arr of
        None \<Rightarrow> None
      | Some a \<Rightarrow> map_option (map (load_string s)) (load_elements s a len))"

text \<open>
  The five string arrays of a seccomp record with their lengths, in the order of the
  members; the copy of a list of arrays one after the other, as
  \<^verbatim>\<open>clone_runtime_spec_schema_features_linux_seccomp\<close> does it when no allocation fails; the
  blocks and the content of a list of arrays.
\<close>

definition seccomp_arrays_of :: "seccomp \<Rightarrow> (addr option \<times> nat) list" where
  "seccomp_arrays_of r =
     [(actions r, actions_len r), (operators r, operators_len r), (archs r, archs_len r),
      (known_flags r, known_flags_len r), (supported_flags r, supported_flags_len r)]"

fun clone_arrays ::
  "(addr option \<times> nat) list \<Rightarrow> state \<Rightarrow> ((addr option \<times> nat) list \<times> state) option" where
  "clone_arrays [] s = Some ([], s)"
| "clone_arrays ((arr, len) # rest) s =
     (case clone_string_array arr len s of
        Some (True, d, n, s1) \<Rightarrow>
          (case clone_arrays rest s1 of
             Some (ds, s2) \<Rightarrow> Some ((d, n) # ds, s2)
           | None \<Rightarrow> None)
      | _ \<Rightarrow> None)"

definition arrays_blocks :: "state \<Rightarrow> (addr option \<times> nat) list \<Rightarrow> addr list" where
  "arrays_blocks s as = concat (map (\<lambda>(arr, len). array_blocks s arr len) as)"

definition texts :: "state \<Rightarrow> (addr option \<times> nat) list \<Rightarrow> string option list option list" where
  "texts s as = map (\<lambda>(arr, len). array_texts s arr len) as"

text \<open>
  A record is kept from a heap \<open>s\<close> to a heap \<open>t\<close> when it is still owned in \<open>t\<close>, with the
  same blocks, and each of these blocks (the record, its arrays and their strings, its
  nested record and the residual trees) holds in \<open>t\<close> what it held in \<open>s\<close>.
\<close>

definition cgroup_kept :: "state \<Rightarrow> addr \<Rightarrow> cgroup \<Rightarrow> state \<Rightarrow> bool" where
  "cgroup_kept s p c t =
     (owned_cgroup t p c
      \<and> map (heap_load t) (cgroup_blocks p c) = map (heap_load s) (cgroup_blocks p c))"

definition seccomp_kept :: "state \<Rightarrow> addr \<Rightarrow> seccomp \<Rightarrow> state \<Rightarrow> bool" where
  "seccomp_kept s p r t =
     (owned_seccomp t p r \<and> seccomp_blocks t p r = seccomp_blocks s p r
      \<and> map (heap_load t) (seccomp_blocks s p r) = map (heap_load s) (seccomp_blocks s p r)
      \<and> texts t (seccomp_arrays_of r) = texts s (seccomp_arrays_of r))"

definition nested_idmap :: "state \<Rightarrow> addr option \<Rightarrow> idmap option" where
  "nested_idmap s i =
     (case i of
        None \<Rightarrow> None
      | Some a \<Rightarrow> (case heap_load s a of Some (Idmap x) \<Rightarrow> Some x | _ \<Rightarrow> None))"

definition mount_extensions_kept ::
  "state \<Rightarrow> addr \<Rightarrow> mount_extensions \<Rightarrow> state \<Rightarrow> bool" where
  "mount_extensions_kept s p m t =
     (owned_mount_extensions t p m
      \<and> mount_extensions_blocks t p m = mount_extensions_blocks s p m
      \<and> map (heap_load t) (mount_extensions_blocks s p m)
        = map (heap_load s) (mount_extensions_blocks s p m)
      \<and> nested_idmap t (idmap m) = nested_idmap s (idmap m))"

text \<open>
  The heap that decoding \<^verbatim>\<open>{"v1": true, "unknownKey": "x"}\<close> with \<^verbatim>\<open>OPT_PARSE_FULLKEY\<close>
  builds, and the heaps of the two example records after their clone.
\<close>

definition cgroup_with_residual :: state where
  "cgroup_with_residual =
     \<lparr>cells = [Some (Cgroup (zero_cgroup\<lparr>v1 := True, v1_present := True,
                                 cgroup_residual := Some 1\<rparr>)),
               Some (Tree (YObject [(Some ''unknownKey'', Some (YString ''x''))]))],
      mem = [], errlog = []\<rparr>"

definition seccomp_cloned :: state where
  "seccomp_cloned =
     \<lparr>cells = [Some (Seccomp seccomp_example), Some (Ptrs [Some 2, Some 3, None]),
               Some (Chars ''SCMP_ACT_ALLOW''), Some (Chars ''SCMP_ACT_KILL''),
               Some (Tree (YObject [(Some ''extra'', Some YNull)])),
               Some (Seccomp (zero_seccomp\<lparr>actions := Some 6, actions_len := 2\<rparr>)),
               Some (Ptrs [Some 7, Some 8, None]),
               Some (Chars ''SCMP_ACT_ALLOW''), Some (Chars ''SCMP_ACT_KILL'')],
      mem = [], errlog = []\<rparr>"

definition mount_cloned :: state where
  "mount_cloned =
     \<lparr>cells = [Some (MountExt mount_example),
               Some (Idmap \<lparr>idmap_enabled = True, idmap_residual = Some 2,
                            idmap_enabled_present = True\<rparr>),
               Some (Tree (YObject [])),
               Some (MountExt \<lparr>idmap = Some 4, mount_extensions_residual = None\<rparr>),
               Some (Idmap \<lparr>idmap_enabled = True, idmap_residual = None,
                            idmap_enabled_present = True\<rparr>)],
      mem = [], errlog = []\<rparr>"

text \<open>
  The record of the zos namespace reference: the block of a string member, what makes it
  well-formed, the blocks of the record, when the record owns them, and when it is kept
  from one heap to another.
\<close>

definition string_blocks :: "addr option \<Rightarrow> addr list" where
  "string_blocks p = (case p of None \<Rightarrow> [] | Some a \<Rightarrow> [a])"

definition string_ok :: "state \<Rightarrow> addr option \<Rightarrow> bool" where
  "string_ok s p = (case p of None \<Rightarrow> True | Some a \<Rightarrow> is_chars (heap_load s a))"

definition zos_blocks :: "addr \<Rightarrow> namespace_reference \<Rightarrow> addr list" where
  "zos_blocks p z =
     string_blocks (type z) @ string_blocks (path z) @ tree_blocks (zos_residual z) @ [p]"

definition owned_zos :: "state \<Rightarrow> addr \<Rightarrow> namespace_reference \<Rightarrow> bool" where
  "owned_zos s p z =
     (heap_load s p = Some (Zos z) \<and> string_ok s (type z) \<and> string_ok s (path z)
      \<and> tree_ok s (zos_residual z) \<and> distinct (zos_blocks p z))"

definition zos_kept :: "state \<Rightarrow> addr \<Rightarrow> namespace_reference \<Rightarrow> state \<Rightarrow> bool" where
  "zos_kept s p z t =
     (owned_zos t p z
      \<and> map (heap_load t) (zos_blocks p z) = map (heap_load s) (zos_blocks p z))"

text \<open>
  What \<^verbatim>\<open>clone_runtime_spec_schema_defs_zos_namespace_reference\<close> builds when no allocation
  fails: the new record, in the block after the last block of the heap, followed by one
  new block for each string member that is set.
\<close>

definition zos_copy :: "state \<Rightarrow> namespace_reference \<Rightarrow> namespace_reference" where
  "zos_copy s z =
     \<lparr>type = map_option (\<lambda>a. Suc (length (cells s))) (type z),
      path = map_option (\<lambda>a. Suc (length (cells s)) + length (string_blocks (type z))) (path z),
      zos_residual = None\<rparr>"

definition zos_cloned :: "state \<Rightarrow> namespace_reference \<Rightarrow> state" where
  "zos_cloned s z =
     s\<lparr>cells := cells s @ Some (Zos (zos_copy s z))
        # map (heap_load s) (string_blocks (type z) @ string_blocks (path z))\<rparr>"

text \<open>A heap with one zos namespace reference, and the same heap after its clone.\<close>

definition zos_heap :: state where
  "zos_heap =
     \<lparr>cells = [Some (Zos \<lparr>type = Some 1, path = Some 2, zos_residual = Some 3\<rparr>),
               Some (Chars ''pid''), Some (Chars ''/proc/1/ns/pid''),
               Some (Tree (YObject [(Some ''extra'', Some YNull)]))],
      mem = [], errlog = []\<rparr>"

definition zos_heap_cloned :: state where
  "zos_heap_cloned =
     \<lparr>cells = [Some (Zos \<lparr>type = Some 1, path = Some 2, zos_residual = Some 3\<rparr>),
               Some (Chars ''pid''), Some (Chars ''/proc/1/ns/pid''),
               Some (Tree (YObject [(Some ''extra'', Some YNull)])),
               Some (Zos \<lparr>type = Some 5, path = Some 6, zos_residual = None\<rparr>),
               Some (Chars ''pid''), Some (Chars ''/proc/1/ns/pid'')],
      mem = [], errlog = []\<rparr>"

section \<open>Auxiliary facts\<close>

lemma alloc_ok:
  "mem s = [] \<Longrightarrow> alloc v s = (Some (length (cells s)), s\<lparr>cells := cells s @ [Some v]\<rparr>)"
  by (simp add: alloc_def)

lemma alloc_inside_ok: "mem s = [] \<Longrightarrow> alloc_inside s = (True, s)"
  by (simp add: alloc_inside_def)

lemma calloc_resi_ok:
  "mem s = [] \<Longrightarrow>
   calloc_resi s = Some (Some (length (cells s)), s\<lparr>cells := cells s @ [Some (Tree (YObject []))]\<rparr>)"
  by (simp add: calloc_resi_def alloc_ok alloc_inside_ok)

lemma detach_lax:
  "detach known False slots = Some (src, resi, j) \<Longrightarrow>
   src = slots \<and> resi = [] \<and> j = length (unknown_slots known slots)"
proof (induction slots arbitrary: src resi j)
  case Nil
  then show ?case by (simp add: unknown_slots_def)
next
  case (Cons kv slots)
  obtain k v where kv: "kv = (k, v)" by (cases kv)
  from Cons.prems kv obtain key where k: "k = Some key" by (cases k) auto
  from Cons.prems kv k obtain src' resi' j' where
    rest: "detach known False slots = Some (src', resi', j')"
    by (cases "detach known False slots") auto
  from Cons.IH [OF rest] have ih: "src' = slots" "resi' = []"
    "j' = length (unknown_slots known slots)" by simp_all
  from Cons.prems kv k rest ih show ?case
    by (auto simp: unknown_slots_def split: if_splits)
qed

lemma detach_full:
  "detach known True slots = Some (src, resi, j) \<Longrightarrow>
   src = null_unknown known slots \<and> resi = unknown_slots known slots
   \<and> j = length (unknown_slots known slots)"
proof (induction slots arbitrary: src resi j)
  case Nil
  then show ?case by (simp add: unknown_slots_def null_unknown_def)
next
  case (Cons kv slots)
  obtain k v where kv: "kv = (k, v)" by (cases kv)
  from Cons.prems kv obtain key where k: "k = Some key" by (cases k) auto
  from Cons.prems kv k obtain src' resi' j' where
    rest: "detach known True slots = Some (src', resi', j')"
    by (cases "detach known True slots") auto
  from Cons.IH [OF rest] have ih: "src' = null_unknown known slots"
    "resi' = unknown_slots known slots"
    "j' = length (unknown_slots known slots)" by simp_all
  from Cons.prems kv k rest ih show ?case
    by (auto simp: unknown_slots_def null_unknown_def split: if_splits)
qed

lemma detach_defined:
  "None \<notin> fst ` set slots \<Longrightarrow> \<exists>r. detach known fullkey slots = Some r"
proof (induction slots)
  case Nil
  then show ?case by simp
next
  case (Cons kv slots)
  obtain k v where kv: "kv = (k, v)" by (cases kv)
  from Cons.prems kv obtain key where k: "k = Some key" by (cases k) auto
  from Cons obtain r where "detach known fullkey slots = Some r" by auto
  with kv k show ?case by (cases r) auto
qed

lemma detach_strict_free:
  "detach known fullkey slots = None \<longleftrightarrow> None \<in> fst ` set slots"
proof (induction slots)
  case Nil
  then show ?case by simp
next
  case (Cons kv slots)
  obtain k v where kv: "kv = (k, v)" by (cases kv)
  show ?case using Cons kv
    by (cases k; cases "detach known fullkey slots") (auto split: if_splits)
qed


lemma detach_count:
  "detach known fullkey slots = Some (src, resi, j) \<Longrightarrow> j = length (unknown_slots known slots)"
  by (cases fullkey) (auto dest: detach_full detach_lax)

lemma heap_store_fprintf: "heap_store a v (fprintf l s) = fprintf l (heap_store a v s)"
  by (simp add: heap_store_def fprintf_def)

lemma parse_residual_strict:
  "parse_residual known t (ctx\<lparr>OPT_PARSE_STRICT := True\<rparr>) s
   = map_option (warned (errfile ctx \<and> has_unknown known t))
       (parse_residual known t (ctx\<lparr>OPT_PARSE_STRICT := False\<rparr>) s)"
proof (cases t)
  case (YObject slots)
  show ?thesis
  proof (cases "if OPT_PARSE_FULLKEY ctx then calloc_resi s else Some (None, s)")
    case None
    then show ?thesis using YObject by (simp add: parse_residual_def)
  next
    case (Some rs)
    obtain resi s1 where rs: "rs = (resi, s1)" by (cases rs)
    show ?thesis
    proof (cases "detach known (OPT_PARSE_FULLKEY ctx) slots")
      case None
      then show ?thesis using YObject Some rs by (simp add: parse_residual_def warned_def)
    next
      case (Some d)
      obtain src moved j where d: "d = (src, moved, j)" by (cases d)
      from Some d have j: "j = length (unknown_slots known slots)"
        by (auto dest: detach_count)
      show ?thesis using YObject \<open>(if OPT_PARSE_FULLKEY ctx then calloc_resi s else Some (None, s)) = Some rs\<close> rs Some d j
        by (simp add: parse_residual_def warned_def has_unknown_def Let_def heap_store_fprintf
            split: option.splits)
    qed
  qed
qed (simp_all add: parse_residual_def warned_def has_unknown_def)


lemma make_cgroup_strict:
  "make_runtime_spec_schema_features_linux_cgroup tree (ctx\<lparr>OPT_PARSE_STRICT := True\<rparr>) s
   = map_option (add_warning (errfile ctx \<and> tree_has_unknown cgroup_keys tree))
       (make_runtime_spec_schema_features_linux_cgroup tree (ctx\<lparr>OPT_PARSE_STRICT := False\<rparr>) s)"
  by (auto simp: make_runtime_spec_schema_features_linux_cgroup_def parse_residual_strict
      warned_def add_warning_def tree_has_unknown_def heap_store_fprintf Let_def
      option.map_comp comp_def
      split: option.splits prod.splits residual_step.splits)

lemma zos_return_null_ret: "zos_return_null p r e t s = Some m \<Longrightarrow> ret m = None"
  by (auto simp: zos_return_null_def)

lemma make_zos_strict:
  "make_runtime_spec_schema_defs_zos_namespace_reference tree (ctx\<lparr>OPT_PARSE_STRICT := True\<rparr>) s
   = map_option (add_warning (errfile ctx \<and> tree_has_unknown zos_keys tree))
       (make_runtime_spec_schema_defs_zos_namespace_reference tree
          (ctx\<lparr>OPT_PARSE_STRICT := False\<rparr>) s)"
  by (auto simp: make_runtime_spec_schema_defs_zos_namespace_reference_def parse_residual_strict
      warned_def add_warning_def tree_has_unknown_def heap_store_fprintf Let_def
      option.map_comp comp_def zos_return_null_def
      split: option.splits prod.splits residual_step.splits bool.splits)

lemma errlog_alloc: "alloc v s = (a, s') \<Longrightarrow> errlog s' = errlog s"
  by (auto simp: alloc_def split: list.splits bool.splits)

lemma errlog_alloc_inside: "alloc_inside s = (b, s') \<Longrightarrow> errlog s' = errlog s"
  by (auto simp: alloc_inside_def split: list.splits bool.splits)

lemma errlog_free: "free p s = Some s' \<Longrightarrow> errlog s' = errlog s"
  by (auto simp: free_def split: option.splits)

lemma errlog_heap_store [simp]: "errlog (heap_store a v s) = errlog s"
  by (simp add: heap_store_def)

lemma errlog_heap_write: "heap_write a v s = Some s' \<Longrightarrow> errlog s' = errlog s"
  by (auto simp: heap_write_def split: if_splits)

lemma errlog_yajl_tree_free: "yajl_tree_free p s = Some s' \<Longrightarrow> errlog s' = errlog s"
  by (auto simp: yajl_tree_free_def dest: errlog_free split: option.splits obj.splits)

lemma errlog_calloc_resi: "calloc_resi s = Some (a, s') \<Longrightarrow> errlog s' = errlog s"
  by (auto simp: calloc_resi_def split: prod.splits option.splits bool.splits
      dest!: errlog_alloc errlog_alloc_inside errlog_yajl_tree_free)

lemma errlog_free_cgroup:
  "free_runtime_spec_schema_features_linux_cgroup p s = Some s' \<Longrightarrow> errlog s' = errlog s"
  by (auto simp: free_runtime_spec_schema_features_linux_cgroup_def bind_eq_Some_conv
      split: option.splits obj.splits
      dest!: errlog_free errlog_heap_write errlog_yajl_tree_free)

lemma errlog_free_zos:
  "free_runtime_spec_schema_defs_zos_namespace_reference p s = Some s' \<Longrightarrow> errlog s' = errlog s"
  by (auto simp: free_runtime_spec_schema_defs_zos_namespace_reference_def bind_eq_Some_conv
      split: option.splits obj.splits
      dest!: errlog_free errlog_heap_write errlog_yajl_tree_free)

lemma errlog_parse_residual_lax:
  "\<not> OPT_PARSE_STRICT ctx \<Longrightarrow> parse_residual known t ctx s = Some r \<Longrightarrow>
   errlog (case r of NoMemory s' \<Rightarrow> s' | Parsed resi t' s' \<Rightarrow> s') = errlog s"
  by (auto simp: parse_residual_def Let_def
      split: yajl_val.splits option.splits prod.splits if_splits
      dest!: errlog_calloc_resi)

lemma errlog_make_cgroup_lax:
  "\<not> OPT_PARSE_STRICT ctx \<Longrightarrow>
   make_runtime_spec_schema_features_linux_cgroup tree ctx s = Some m \<Longrightarrow>
   errlog (st m) = errlog s"
  by (auto simp: make_runtime_spec_schema_features_linux_cgroup_def Let_def
      split: option.splits prod.splits residual_step.splits
      dest!: errlog_alloc errlog_free_cgroup errlog_parse_residual_lax)


lemma errlog_get_string: "get_string t name s = (ok, a, s') \<Longrightarrow> errlog s' = errlog s"
  by (auto simp: get_string_def split: option.splits prod.splits dest!: errlog_alloc)

lemma errlog_required_field_error:
  "required_field_error name s = (e, s') \<Longrightarrow> errlog s' = errlog s"
  by (auto simp: required_field_error_def split: option.splits prod.splits dest!: errlog_alloc)

lemma errlog_zos_return_null:
  "zos_return_null p r e t s = Some m \<Longrightarrow> errlog (st m) = errlog s"
  by (auto simp: zos_return_null_def dest!: errlog_free_zos)

lemma outcome_add_warning: "outcome (add_warning b m) = outcome m"
  by (simp add: outcome_def add_warning_def fprintf_def)

lemma errlog_add_warning:
  "errlog (st (add_warning b m))
   = errlog (st m) @ (if b \<and> ret m \<noteq> None then [unknown_key_warning] else [])"
  by (simp add: add_warning_def fprintf_def)

lemma ret_add_warning: "ret (add_warning b m) = ret m"
  by (simp add: add_warning_def)

lemma parse_residual_lax_tree:
  "\<not> OPT_PARSE_FULLKEY ctx \<Longrightarrow> parse_residual known t ctx s = Some (Parsed resi t' s') \<Longrightarrow>
   t' = t \<and> resi = None \<and> cells s' = cells s"
  by (auto simp: parse_residual_def Let_def fprintf_def
      split: yajl_val.splits option.splits prod.splits if_splits dest: detach_lax)

lemma errlog_make_zos_lax:
  "\<not> OPT_PARSE_STRICT ctx \<Longrightarrow>
   make_runtime_spec_schema_defs_zos_namespace_reference tree ctx s = Some m \<Longrightarrow>
   errlog (st m) = errlog s"
  by (auto simp: make_runtime_spec_schema_defs_zos_namespace_reference_def Let_def
      split: option.splits prod.splits residual_step.splits bool.splits if_splits
      dest!: errlog_alloc errlog_zos_return_null errlog_parse_residual_lax errlog_get_string
        errlog_required_field_error)

lemma tree_after_zos_return_null:
  "zos_return_null p r e t s = Some m \<Longrightarrow> tree_after m = Some t"
  by (auto simp: zos_return_null_def)

lemma make_cgroup_keeps_tree:
  "\<not> OPT_PARSE_FULLKEY ctx \<Longrightarrow>
   make_runtime_spec_schema_features_linux_cgroup tree ctx s = Some m \<Longrightarrow> tree_after m = tree"
  by (auto simp: make_runtime_spec_schema_features_linux_cgroup_def Let_def
      split: option.splits prod.splits residual_step.splits
      dest: parse_residual_lax_tree)

lemma make_zos_keeps_tree:
  "\<not> OPT_PARSE_FULLKEY ctx \<Longrightarrow>
   make_runtime_spec_schema_defs_zos_namespace_reference tree ctx s = Some m \<Longrightarrow>
   tree_after m = tree"
  by (auto simp: make_runtime_spec_schema_defs_zos_namespace_reference_def Let_def
      split: option.splits prod.splits residual_step.splits bool.splits if_splits
      dest: parse_residual_lax_tree tree_after_zos_return_null)

lemma parse_residual_ok:
  assumes "mem s = []" and "None \<notin> fst ` set slots"
  shows "parse_residual known (YObject slots) ctx s
    = Some (warned (OPT_PARSE_STRICT ctx \<and> unknown_slots known slots \<noteq> [] \<and> errfile ctx)
        (if OPT_PARSE_FULLKEY ctx
         then Parsed (Some (length (cells s))) (YObject (null_unknown known slots))
                (s\<lparr>cells := cells s @ [Some (Tree (YObject (unknown_slots known slots)))]\<rparr>)
         else Parsed None (YObject slots) s))"
proof -
  from assms(2) obtain src moved j where d:
    "detach known (OPT_PARSE_FULLKEY ctx) slots = Some (src, moved, j)"
    using detach_defined [of slots known "OPT_PARSE_FULLKEY ctx"] by (metis prod_cases3)
  have j: "j = length (unknown_slots known slots)" using d by (rule detach_count)
  show ?thesis
  proof (cases "OPT_PARSE_FULLKEY ctx")
    case True
    with d have "src = null_unknown known slots" "moved = unknown_slots known slots"
      by (auto dest: detach_full)
    with True d j assms(1) show ?thesis
      by (simp add: parse_residual_def calloc_resi_ok warned_def heap_store_def fprintf_def
          Let_def)
  next
    case False
    with d have "src = slots" by (auto dest: detach_lax)
    with False d j show ?thesis
      by (simp add: parse_residual_def warned_def)
  qed
qed

lemma make_cgroup_ok:
  assumes "mem s = []" and "None \<notin> fst ` set slots"
  shows "make_runtime_spec_schema_features_linux_cgroup (Some (YObject slots)) ctx s
    = Some (add_warning
        (OPT_PARSE_STRICT ctx \<and> unknown_slots cgroup_keys slots \<noteq> [] \<and> errfile ctx)
        (if OPT_PARSE_FULLKEY ctx
         then \<lparr>ret = Some (length (cells s)), err = None,
                tree_after = Some (YObject (null_unknown cgroup_keys slots)),
                st = s\<lparr>cells := cells s @
                  [Some (Cgroup ((read_cgroup (YObject slots))
                           \<lparr>cgroup_residual := Some (Suc (length (cells s)))\<rparr>)),
                   Some (Tree (YObject (unknown_slots cgroup_keys slots)))]\<rparr>\<rparr>
         else \<lparr>ret = Some (length (cells s)), err = None,
                tree_after = Some (YObject slots),
                st = s\<lparr>cells := cells s @ [Some (Cgroup (read_cgroup (YObject slots)))]\<rparr>\<rparr>))"
proof -
  let ?s1 = "s\<lparr>cells := cells s @ [Some (Cgroup (read_cgroup (YObject slots)))]\<rparr>"
  have m: "mem ?s1 = []" using assms(1) by simp
  have r0: "cgroup_residual (read_cgroup (YObject slots)) = None"
    by (simp add: read_cgroup_def zero_cgroup_def)
  show ?thesis
    using assms(1) r0
    by (simp add: make_runtime_spec_schema_features_linux_cgroup_def alloc_ok
        parse_residual_ok [OF m assms(2)] warned_def add_warning_def
        heap_store_def fprintf_def Let_def)
qed

lemma get_bool_object:
  "get_bool (YObject slots) name =
     (case map_of slots (Some name) of
        Some (Some YTrue) \<Rightarrow> (True, True)
      | Some (Some YFalse) \<Rightarrow> (False, True)
      | _ \<Rightarrow> (False, False))"
  by (simp add: get_bool_def get_val_def YAJL_IS_TRUE_def split: option.splits yajl_val.splits)

lemma heap_load_add_warning [simp]: "heap_load (st (add_warning b m)) a = heap_load (st m) a"
  by (simp add: add_warning_def heap_load_def fprintf_def)

lemma cells_add_warning [simp]: "cells (st (add_warning b m)) = cells (st m)"
  by (simp add: add_warning_def fprintf_def)

lemma mem_add_warning [simp]: "mem (st (add_warning b m)) = mem (st m)"
  by (simp add: add_warning_def fprintf_def)

lemma ret_add_warning' [simp]: "ret (add_warning b m) = ret m"
  by (simp add: add_warning_def)

lemma tree_after_add_warning [simp]: "tree_after (add_warning b m) = tree_after m"
  by (simp add: add_warning_def)

lemma clone_cgroup_ok:
  assumes "mem s = []" and "heap_load s p = Some (Cgroup x)"
  shows "clone_runtime_spec_schema_features_linux_cgroup (Some p) s
    = Some (Some (length (cells s)),
            s\<lparr>cells := cells s @ [Some (Cgroup (x\<lparr>cgroup_residual := None\<rparr>))]\<rparr>)"
proof -
  from assms(2) have p: "p < length (cells s)" "cells s ! p = Some (Cgroup x)"
    by (auto simp: heap_load_def split: if_splits)
  then show ?thesis using assms(1)
    by (simp add: clone_runtime_spec_schema_features_linux_cgroup_def alloc_ok heap_load_def
        nth_append heap_store_def zero_cgroup_def)
qed

lemma read_cgroup_fields:
  "(name, present, val) \<in> set cgroup_fields \<Longrightarrow>
   (present (read_cgroup t), val (read_cgroup t)) = (snd (get_bool t name), fst (get_bool t name))"
  by (auto simp: cgroup_fields_def read_cgroup_def zero_cgroup_def)

lemma cgroup_fields_residual:
  "(name, present, val) \<in> set cgroup_fields \<Longrightarrow>
   present (r\<lparr>cgroup_residual := x\<rparr>) = present r \<and> val (r\<lparr>cgroup_residual := x\<rparr>) = val r"
  by (auto simp: cgroup_fields_def)

lemma get_val_empty: "get_val (YObject []) name ty = None"
  by (simp add: get_val_def)

lemma make_absent:
  "make_runtime_spec_schema_features_linux_cgroup None ctx s
     = Some \<lparr>ret = None, err = None, tree_after = None, st = s\<rparr>"
  "make_runtime_spec_schema_defs_zos_namespace_reference None ctx s
     = Some \<lparr>ret = None, err = None, tree_after = None, st = s\<rparr>"
  by (simp_all add: make_runtime_spec_schema_features_linux_cgroup_def
      make_runtime_spec_schema_defs_zos_namespace_reference_def)

lemma required_field_message_type:
  "required_field_message ''type'' = ''Required field 'type' not present''"
  by (simp add: required_field_message_def)

lemmas example_defs =
  empty_state_def fresh_gen_def ctx_plain_def ctx_fullkey_def ctx_key_value_def
  v1_and_unknown_def

lemma make_cgroup_example:
  "make_runtime_spec_schema_features_linux_cgroup (Some (YObject v1_and_unknown)) ctx empty_state
   = Some (add_warning (OPT_PARSE_STRICT ctx \<and> errfile ctx)
       (if OPT_PARSE_FULLKEY ctx
        then \<lparr>ret = Some 0, err = None,
               tree_after = Some (YObject [(Some ''v1'', Some YTrue), (None, None)]),
               st = \<lparr>cells = [Some (Cgroup (zero_cgroup\<lparr>v1 := True, v1_present := True,
                                          cgroup_residual := Some 1\<rparr>)),
                                  Some (Tree (YObject [(Some ''unknownKey'', Some (YString ''x''))]))],
                      mem = [], errlog = []\<rparr>\<rparr>
        else \<lparr>ret = Some 0, err = None, tree_after = Some (YObject v1_and_unknown),
               st = \<lparr>cells = [Some (Cgroup (zero_cgroup\<lparr>v1 := True, v1_present := True\<rparr>))],
                      mem = [], errlog = []\<rparr>\<rparr>))"
proof -
  have k: "None \<notin> fst ` set v1_and_unknown" by (simp add: v1_and_unknown_def)
  have m: "mem empty_state = []" by (simp add: empty_state_def)
  show ?thesis
    unfolding make_cgroup_ok [OF m k]
    by (simp add: example_defs read_cgroup_def get_bool_object zero_cgroup_def
        unknown_slots_def null_unknown_def cgroup_keys_def conj_commute)
qed

lemma get_string_ok:
  "mem s = [] \<Longrightarrow>
   get_string (YObject slots) name s =
     (case string_value slots name of
        Some x \<Rightarrow> (True, Some (length (cells s)), s\<lparr>cells := cells s @ [Some (Chars x)]\<rparr>)
      | None \<Rightarrow> (True, None, s))"
  by (simp add: get_string_def get_val_def string_value_def string_content_def alloc_ok
      YAJL_GET_STRING_def split: option.splits yajl_val.splits)

lemma free_zos_fresh:
  assumes "r = \<lparr>type = None, path = None, zos_residual = None\<rparr>"
  shows "free_runtime_spec_schema_defs_zos_namespace_reference (Some (length xs))
     (s\<lparr>cells := xs @ Some (Zos r) # ys\<rparr>) = Some (s\<lparr>cells := xs @ None # ys\<rparr>)"
  using assms
  by (simp add: free_runtime_spec_schema_defs_zos_namespace_reference_def heap_load_def
      heap_write_def heap_store_def free_def yajl_tree_free_def nth_append
      zero_namespace_reference_def)

lemma make_zos_missing_type:
  assumes "mem s = []" and "string_value slots ''type'' = None"
  shows "make_runtime_spec_schema_defs_zos_namespace_reference (Some (YObject slots)) ctx s
    = Some \<lparr>ret = None,
            err = Some (length (cells s) + (case string_value slots ''path'' of None \<Rightarrow> 1 | Some x \<Rightarrow> 2)),
            tree_after = Some (YObject slots),
            st = s\<lparr>cells := cells s @ None #
                   (case string_value slots ''path'' of None \<Rightarrow> [] | Some x \<Rightarrow> [None])
                   @ [Some (Chars ''Required field 'type' not present'')]\<rparr>\<rparr>"
proof (cases "string_value slots ''path''")
  case None
  with assms show ?thesis
    by (simp add: make_runtime_spec_schema_defs_zos_namespace_reference_def alloc_ok
      get_string_ok required_field_error_def zos_return_null_def
      free_runtime_spec_schema_defs_zos_namespace_reference_def heap_store_def heap_load_def
      heap_write_def free_def yajl_tree_free_def zero_namespace_reference_def nth_append
      list_update_append required_field_message_type)
next
  case (Some x)
  with assms show ?thesis
    by (simp add: make_runtime_spec_schema_defs_zos_namespace_reference_def alloc_ok
      get_string_ok required_field_error_def zos_return_null_def
      free_runtime_spec_schema_defs_zos_namespace_reference_def heap_store_def heap_load_def
      heap_write_def free_def yajl_tree_free_def zero_namespace_reference_def nth_append
      list_update_append required_field_message_type)
qed

lemma parse_residual_ok_cells:
  assumes "mem s = []" and "None \<notin> fst ` set slots"
  shows "parse_residual known (YObject slots) ctx (s\<lparr>cells := c\<rparr>)
    = Some (warned (OPT_PARSE_STRICT ctx \<and> unknown_slots known slots \<noteq> [] \<and> errfile ctx)
        (if OPT_PARSE_FULLKEY ctx
         then Parsed (Some (length c)) (YObject (null_unknown known slots))
                (s\<lparr>cells := c @ [Some (Tree (YObject (unknown_slots known slots)))]\<rparr>)
         else Parsed None (YObject slots) (s\<lparr>cells := c\<rparr>)))"
  using parse_residual_ok [of "s\<lparr>cells := c\<rparr>" slots known ctx] assms by simp

lemma make_zos_ok:
  assumes "mem s = []" and "None \<notin> fst ` set slots"
    and "string_value slots ''type'' = Some ty"
  shows "make_runtime_spec_schema_defs_zos_namespace_reference (Some (YObject slots)) ctx s
    = Some (add_warning
        (OPT_PARSE_STRICT ctx \<and> unknown_slots zos_keys slots \<noteq> [] \<and> errfile ctx)
        \<lparr>ret = Some (length (cells s)), err = None,
          tree_after = Some (YObject (if OPT_PARSE_FULLKEY ctx
                                      then null_unknown zos_keys slots else slots)),
          st = s\<lparr>cells := cells s @
            [Some (Zos \<lparr>type = Some (Suc (length (cells s))),
                        path = (case string_value slots ''path'' of
                                  None \<Rightarrow> None | Some x \<Rightarrow> Some (length (cells s) + 2)),
                        zos_residual =
                          (if OPT_PARSE_FULLKEY ctx
                           then Some (length (cells s) + 2 +
                                  (case string_value slots ''path'' of None \<Rightarrow> 0 | Some x \<Rightarrow> 1))
                           else None)\<rparr>),
             Some (Chars ty)]
            @ (case string_value slots ''path'' of None \<Rightarrow> [] | Some x \<Rightarrow> [Some (Chars x)])
            @ (if OPT_PARSE_FULLKEY ctx
               then [Some (Tree (YObject (unknown_slots zos_keys slots)))] else [])\<rparr>\<rparr>)"
proof (cases "string_value slots ''path''")
  case None
  with assms show ?thesis
    by (simp add: make_runtime_spec_schema_defs_zos_namespace_reference_def alloc_ok
      get_string_ok heap_store_def zero_namespace_reference_def nth_append
      list_update_append parse_residual_ok_cells warned_def add_warning_def fprintf_def
      Let_def)
next
  case (Some x)
  with assms show ?thesis
    by (simp add: make_runtime_spec_schema_defs_zos_namespace_reference_def alloc_ok
      get_string_ok heap_store_def zero_namespace_reference_def nth_append
      list_update_append parse_residual_ok_cells warned_def add_warning_def fprintf_def
      Let_def)
qed

lemma err_add_warning [simp]: "err (add_warning b m) = err m"
  by (simp add: add_warning_def)

lemma emit_ok:
  "script g = [] \<Longrightarrow> emit c g = (yajl_gen_status_ok, g\<lparr>calls := calls g @ [c]\<rparr>)"
  by (simp add: emit_def)

lemma and_then_ok [simp]: "and_then (yajl_gen_status_ok, g) f = f g"
  by (simp add: and_then_def)

lemma emit_all_ok:
  "script g = [] \<Longrightarrow> emit_all cs g = (yajl_gen_status_ok, g\<lparr>calls := calls g @ cs\<rparr>)"
proof (induction cs arbitrary: g)
  case Nil
  then show ?case by simp
next
  case (Cons c cs)
  then show ?case by (simp add: emit_ok)
qed

lemma gen_bool_field_ok:
  "script g = [] \<Longrightarrow>
   gen_bool_field ctx name present b g =
     (yajl_gen_status_ok,
      g\<lparr>calls := calls g @
          (if OPT_GEN_KEY_VALUE ctx \<or> present then [Str name, Bln b] else [])\<rparr>)"
  by (simp add: gen_bool_field_def yajl_gen_string_def yajl_gen_bool_def emit_ok)

lemma gen_string_field_ok:
  "script g = [] \<Longrightarrow>
   gen_string_field ctx name str g =
     (yajl_gen_status_ok,
      g\<lparr>calls := calls g @
          (if OPT_GEN_KEY_VALUE ctx \<or> str \<noteq> None
           then [Str name, Str (case str of None \<Rightarrow> [] | Some x \<Rightarrow> x)] else [])\<rparr>)"
  by (simp add: gen_string_field_def yajl_gen_string_def emit_ok)

lemma gen_residual_field_ok:
  "script g = [] \<Longrightarrow>
   gen_residual_field resi g =
     (yajl_gen_status_ok,
      g\<lparr>calls := calls g @
          (case resi of None \<Rightarrow> [] | Some slots \<Rightarrow> concat (map slot_calls slots))\<rparr>)"
  by (simp add: gen_residual_field_def gen_yajl_object_residual_def emit_all_ok
      split: option.splits)

lemma gen_string_array_field_ok:
  "script g = [] \<Longrightarrow>
   gen_string_array_field ctx name arr g =
     (yajl_gen_status_ok,
      g\<lparr>calls := calls g @
          (if OPT_GEN_KEY_VALUE ctx \<or> arr \<noteq> None
           then Str name #
                (if (case arr of None \<Rightarrow> [] | Some xs \<Rightarrow> xs) = [] \<and> \<not> OPT_GEN_SIMPLIFY ctx
                 then [Beautify False, ArrayOpen, ArrayClose, Beautify True]
                 else ArrayOpen # map Str (case arr of None \<Rightarrow> [] | Some xs \<Rightarrow> xs)
                      @ [ArrayClose])
           else [])\<rparr>)"
  by (simp add: gen_string_array_field_def yajl_gen_string_def yajl_gen_array_open_def
      yajl_gen_array_close_def yajl_gen_config_beautify_def emit_ok emit_all_ok Let_def)

lemma gen_cgroup_ok:
  assumes "script g = []" and "load_cgroup s ptr = Some (r, resi)"
  shows "gen_runtime_spec_schema_features_linux_cgroup g ptr ctx s
    = Some (yajl_gen_status_ok,
        g\<lparr>calls := calls g @ MapOpen #
          concat (map (\<lambda>(name, present, val).
                     if OPT_GEN_KEY_VALUE ctx \<or> member present r
                     then [Str name, Bln (member val r)] else []) cgroup_fields)
          @ (case resi of None \<Rightarrow> [] | Some slots \<Rightarrow> concat (map slot_calls slots))
          @ [MapClose]\<rparr>)"
  using assms
  by (simp add: gen_runtime_spec_schema_features_linux_cgroup_def yajl_gen_map_open_def
      yajl_gen_map_close_def emit_ok gen_bool_field_ok gen_residual_field_ok cgroup_fields_def)

lemma gen_zos_ok:
  assumes "script g = []" and "load_zos s ptr = Some (ty, pa, resi)"
  shows "gen_runtime_spec_schema_defs_zos_namespace_reference g ptr ctx s
    = Some (yajl_gen_status_ok,
        g\<lparr>calls := calls g @ MapOpen #
          (if OPT_GEN_KEY_VALUE ctx \<or> ty \<noteq> None
           then [Str ''type'', Str (case ty of None \<Rightarrow> [] | Some x \<Rightarrow> x)] else [])
          @ (if OPT_GEN_KEY_VALUE ctx \<or> pa \<noteq> None
             then [Str ''path'', Str (case pa of None \<Rightarrow> [] | Some x \<Rightarrow> x)] else [])
          @ (case resi of None \<Rightarrow> [] | Some slots \<Rightarrow> concat (map slot_calls slots))
          @ [MapClose]\<rparr>)"
  using assms
  by (simp add: gen_runtime_spec_schema_defs_zos_namespace_reference_def yajl_gen_map_open_def
      yajl_gen_map_close_def emit_ok gen_string_field_ok gen_residual_field_ok)

lemma val_calls_object:
  "val_calls (YObject kvs) = MapOpen # concat (map slot_calls kvs) @ [MapClose]"
proof -
  have "(\<lambda>(k, v). case k of None \<Rightarrow> []
          | Some key \<Rightarrow> Str key # (case v of None \<Rightarrow> [] | Some x \<Rightarrow> val_calls x)) = slot_calls"
    by (auto simp: slot_calls_def fun_eq_iff split: option.splits)
  then show ?thesis by simp
qed

lemma bool_slot_calls:
  "concat (map slot_calls
     (case map_of slots (Some name) of
        Some (Some YTrue) \<Rightarrow> [(Some name, Some YTrue)]
      | Some (Some YFalse) \<Rightarrow> [(Some name, Some YFalse)]
      | _ \<Rightarrow> []))
   = (if snd (get_bool (YObject slots) name)
      then [Str name, Bln (fst (get_bool (YObject slots) name))] else [])"
  by (simp add: get_bool_object slot_calls_def split: option.splits yajl_val.splits)

lemma known_bool_calls:
  "concat (map slot_calls (known_bool_slots cgroup_keys slots))
   = concat (map (\<lambda>(name, present, val).
                     if member present (Some ((read_cgroup (YObject slots))\<lparr>cgroup_residual := x\<rparr>))
                     then [Str name,
                           Bln (member val (Some ((read_cgroup (YObject slots))\<lparr>cgroup_residual := x\<rparr>)))]
                     else []) cgroup_fields)"
  by (simp add: known_bool_slots_def cgroup_keys_def cgroup_fields_def bool_slot_calls
      member_def read_cgroup_def zero_cgroup_def)

lemma load_residual_fresh:
  "load_residual (s\<lparr>cells := xs @ [Some (Tree (YObject slots))]\<rparr>) (Some (length xs))
   = Some (Some slots)"
  by (simp add: load_residual_def heap_load_def)

lemma gen_seccomp_ok:
  assumes "script g = []" and "load_seccomp s ptr = Some (r, v)"
  shows "gen_runtime_spec_schema_features_linux_seccomp g ptr ctx s
    = Some (yajl_gen_status_ok,
        g\<lparr>calls := calls g @ MapOpen #
          (if OPT_GEN_KEY_VALUE ctx \<or> member enabled_present r
           then [Str ''enabled'', Bln (member enabled r)] else [])
          @ concat (map (\<lambda>(name, arr).
                      if OPT_GEN_KEY_VALUE ctx \<or> arr v \<noteq> None
                      then Str name # array_calls ctx (case arr v of None \<Rightarrow> [] | Some xs \<Rightarrow> xs)
                      else []) seccomp_arrays)
          @ residual_calls (residual_slots v) @ [MapClose]\<rparr>)"
  using assms
  by (simp add: gen_runtime_spec_schema_features_linux_seccomp_def yajl_gen_map_open_def
      yajl_gen_map_close_def emit_ok gen_bool_field_ok gen_residual_field_ok
      gen_string_array_field_ok seccomp_arrays_def array_calls_def residual_calls_def)

lemma get_bool_absent: "\<not> snd (get_bool t name) \<Longrightarrow> \<not> fst (get_bool t name)"
  by (simp add: get_bool_def split: option.splits)

lemma read_cgroup_absent:
  "(name, present, val) \<in> set cgroup_fields \<Longrightarrow>
   \<not> present (read_cgroup t) \<Longrightarrow> \<not> val (read_cgroup t)"
  using get_bool_absent [of t]
  by (auto simp: cgroup_fields_def read_cgroup_def zero_cgroup_def)

lemma read_cgroup_absent_all:
  "\<forall>(name, present, val) \<in> set cgroup_fields.
      \<not> present (read_cgroup t) \<longrightarrow> \<not> val (read_cgroup t)"
  using read_cgroup_absent by blast

lemma length_release [simp]: "length (cells (release A s)) = length (cells s)"
  by (simp add: release_def)

lemma mem_release [simp]: "mem (release A s) = mem s"
  by (simp add: release_def)

lemma errlog_release [simp]: "errlog (release A s) = errlog s"
  by (simp add: release_def)

lemma heap_load_release [simp]:
  "heap_load (release A s) a = (if a \<in> A then None else heap_load s a)"
  by (simp add: release_def heap_load_def)

lemma state_eqI:
  assumes "length (cells s) = length (cells s')"
    and "\<And>a. heap_load s a = heap_load s' a"
    and "mem s = mem s'" and "errlog s = errlog s'"
  shows "s = (s' :: state)"
proof -
  have "cells s = cells s'"
  proof (rule nth_equalityI)
    show "length (cells s) = length (cells s')" by (rule assms(1))
  next
    fix i assume "i < length (cells s)"
    with assms(1) assms(2) [of i] show "cells s ! i = cells s' ! i"
      by (simp add: heap_load_def)
  qed
  with assms(3,4) show ?thesis by simp
qed

lemma heap_load_heap_store [simp]:
  "heap_load (heap_store a v s) b
   = (if b = a \<and> a < length (cells s) then Some v else heap_load s b)"
  by (simp add: heap_store_def heap_load_def)

lemma length_heap_store [simp]: "length (cells (heap_store a v s)) = length (cells s)"
  by (simp add: heap_store_def)

lemma mem_heap_store [simp]: "mem (heap_store a v s) = mem s"
  by (simp add: heap_store_def)

lemma release_empty [simp]: "release {} s = s"
  by (rule state_eqI) simp_all

lemma release_release [simp]: "release A (release B s) = release (A \<union> B) s"
  by (rule state_eqI) simp_all

lemma free_live:
  "heap_load s a \<noteq> None \<Longrightarrow> free (Some a) s = Some (release {a} s)"
proof -
  assume l: "heap_load s a \<noteq> None"
  then have a: "a < length (cells s)" by (auto simp: heap_load_def split: if_splits)
  have "s\<lparr>cells := (cells s)[a := None]\<rparr> = release {a} s"
    by (rule state_eqI) (auto simp: heap_load_def release_def nth_list_update)
  with l show ?thesis by (auto simp: free_def)
qed

lemma free_null [simp]: "free None s = Some s"
  by (simp add: free_def)

lemma free_dead: "heap_load s a = None \<Longrightarrow> free (Some a) s = None"
  by (simp add: free_def)

lemma release_heap_store:
  "release A (heap_store p v s) = (if p \<in> A then release A s else heap_store p v (release A s))"
  by (auto intro!: state_eqI)

lemma heap_store_heap_store [simp]: "heap_store p v (heap_store p w s) = heap_store p v s"
  by (rule state_eqI) auto

lemma heap_store_same: "heap_load s p = Some v \<Longrightarrow> heap_store p v s = s"
  by (rule state_eqI) auto

lemma heap_write_live:
  "heap_load s p \<noteq> None \<Longrightarrow> heap_write p v s = Some (heap_store p v s)"
  by (simp add: heap_write_def)

lemma yajl_tree_free_ok:
  "tree_ok s p \<Longrightarrow> yajl_tree_free p s = Some (release (set (tree_blocks p)) s)"
  by (cases p)
     (auto simp: tree_ok_def tree_blocks_def yajl_tree_free_def is_tree_def free_live
       split: option.splits obj.splits)

lemma set_somes: "set (somes xs) = {b. Some b \<in> set xs}"
  by (induction xs rule: somes.induct) auto

lemma free_elements_ok:
  "distinct (somes xs) \<Longrightarrow> \<forall>b \<in> set (somes xs). heap_load s b \<noteq> None \<Longrightarrow>
   free_elements xs s = Some (release (set (somes xs)) s)"
proof (induction xs arbitrary: s rule: somes.induct)
  case 1
  then show ?case by simp
next
  case (2 xs)
  then show ?case by simp
next
  case (3 x xs)
  from "3.prems" have live: "heap_load s x \<noteq> None" by simp
  have "free_elements xs (release {x} s) = Some (release (set (somes xs)) (release {x} s))"
    using "3.prems" by (intro "3.IH") auto
  with live show ?case by (simp add: free_live Un_commute)
qed

lemma load_elements_Some:
  "load_elements s a len = Some xs \<Longrightarrow> \<exists>ys. heap_load s a = Some (Ptrs ys)"
  by (auto simp: load_elements_def split: option.splits obj.splits if_splits)

lemma free_string_array_ok:
  assumes "array_ok s arr len" and "distinct (array_blocks s arr len)"
  shows "free_string_array arr len s = Some (release (set (array_blocks s arr len)) s)"
proof (cases arr)
  case None
  then show ?thesis by (simp add: free_string_array_def array_blocks_def)
next
  case (Some a)
  with assms(1) obtain xs where xs: "load_elements s a len = Some xs"
    and chars: "list_all (\<lambda>b. is_chars (heap_load s b)) (somes xs)"
    by (auto simp: array_ok_def split: option.splits)
  from xs obtain ys where ys: "heap_load s a = Some (Ptrs ys)"
    by (auto dest: load_elements_Some)
  from assms(2) Some xs have d: "distinct (somes xs)" and a: "a \<notin> set (somes xs)"
    by (simp_all add: array_blocks_def)
  from chars have live: "\<forall>b \<in> set (somes xs). heap_load s b \<noteq> None"
    by (auto simp: list_all_iff is_chars_def split: option.splits)
  have e: "free_elements xs s = Some (release (set (somes xs)) s)"
    using d live by (rule free_elements_ok)
  have "release (insert a (set (somes xs))) s = release (set (somes xs) \<union> {a}) s" by simp
  with Some xs e ys a show ?thesis
    by (simp add: free_string_array_def array_blocks_def heap_write_live free_live
        release_heap_store)
qed

lemma array_frame:
  assumes "array_ok s arr len"
    and "\<forall>a \<in> set (array_blocks s arr len). heap_load s' a = heap_load s a"
  shows "array_ok s' arr len \<and> array_blocks s' arr len = array_blocks s arr len"
proof (cases arr)
  case None
  then show ?thesis by (simp add: array_ok_def array_blocks_def)
next
  case (Some a)
  with assms(1) obtain xs where xs: "load_elements s a len = Some xs"
    and chars: "list_all (\<lambda>b. is_chars (heap_load s b)) (somes xs)"
    by (auto simp: array_ok_def split: option.splits)
  from assms(2) Some xs have same: "heap_load s' a = heap_load s a"
    "\<forall>b \<in> set (somes xs). heap_load s' b = heap_load s b"
    by (simp_all add: array_blocks_def)
  from same(1) xs have xs': "load_elements s' a len = Some xs"
    by (simp add: load_elements_def)
  from chars same(2) have "list_all (\<lambda>b. is_chars (heap_load s' b)) (somes xs)"
    by (simp add: list_all_iff)
  with Some xs xs' show ?thesis by (simp add: array_ok_def array_blocks_def)
qed

lemma free_array_step:
  assumes "array_ok s0 arr len" and "distinct (array_blocks s0 arr len)"
    and "p \<notin> set (array_blocks s0 arr len)" and "set (array_blocks s0 arr len) \<inter> B = {}"
  shows "free_string_array arr len (heap_store p X (release B s0))
    = Some (heap_store p X (release (B \<union> set (array_blocks s0 arr len)) s0))"
proof -
  let ?s = "heap_store p X (release B s0)"
  have "\<forall>a \<in> set (array_blocks s0 arr len). heap_load ?s a = heap_load s0 a"
    using assms(3,4) by auto
  from array_frame [OF assms(1) this]
  have ok: "array_ok ?s arr len" and b: "array_blocks ?s arr len = array_blocks s0 arr len"
    by simp_all
  from assms(2) b have d: "distinct (array_blocks ?s arr len)" by simp
  show ?thesis
    unfolding free_string_array_ok [OF ok d] b
    using assms(3) by (simp add: release_heap_store Un_commute)
qed

lemma live_in_range: "heap_load s a \<noteq> None \<Longrightarrow> a < length (cells s)"
  by (auto simp: heap_load_def split: if_splits)

lemma write_step:
  "heap_load s0 p \<noteq> None \<Longrightarrow> p \<notin> B \<Longrightarrow>
   heap_write p Y (heap_store p X (release B s0)) = Some (heap_store p Y (release B s0))"
  by (frule live_in_range) (simp add: heap_write_def)

lemma tree_step:
  assumes "tree_ok s0 t" and "p \<notin> set (tree_blocks t)" and "set (tree_blocks t) \<inter> B = {}"
  shows "yajl_tree_free t (heap_store p X (release B s0))
    = Some (heap_store p X (release (B \<union> set (tree_blocks t)) s0))"
proof -
  let ?s = "heap_store p X (release B s0)"
  have "tree_ok ?s t" using assms by (cases t) (auto simp: tree_ok_def tree_blocks_def)
  from yajl_tree_free_ok [OF this] assms(2) show ?thesis
    by (simp add: release_heap_store Un_commute)
qed

lemma free_step:
  "heap_load s0 p \<noteq> None \<Longrightarrow> p \<notin> B \<Longrightarrow>
   free (Some p) (heap_store p X (release B s0)) = Some (release (B \<union> {p}) s0)"
proof -
  assume l: "heap_load s0 p \<noteq> None" and b: "p \<notin> B"
  then have "heap_load (heap_store p X (release B s0)) p \<noteq> None"
    by (frule_tac live_in_range) simp
  from free_live [OF this] show ?thesis by (simp add: release_heap_store Un_commute)
qed

lemma free_seccomp_ok:
  assumes "owned_seccomp s p r"
  shows "free_runtime_spec_schema_features_linux_seccomp (Some p) s
    = Some (release (set (seccomp_blocks s p r)) s)"
proof -
  let ?A1 = "array_blocks s (actions r) (actions_len r)"
  let ?A2 = "array_blocks s (operators r) (operators_len r)"
  let ?A3 = "array_blocks s (archs r) (archs_len r)"
  let ?A4 = "array_blocks s (known_flags r) (known_flags_len r)"
  let ?A5 = "array_blocks s (supported_flags r) (supported_flags_len r)"
  let ?T = "tree_blocks (seccomp_residual r)"
  from assms have p: "heap_load s p = Some (Seccomp r)"
    and ok: "array_ok s (actions r) (actions_len r)" "array_ok s (operators r) (operators_len r)"
      "array_ok s (archs r) (archs_len r)" "array_ok s (known_flags r) (known_flags_len r)"
      "array_ok s (supported_flags r) (supported_flags_len r)" "tree_ok s (seccomp_residual r)"
    and d: "distinct (?A1 @ ?A2 @ ?A3 @ ?A4 @ ?A5 @ ?T @ [p])"
    by (simp_all add: owned_seccomp_def seccomp_blocks_def)
  from p have live: "heap_load s p \<noteq> None" by simp
  have s: "s = heap_store p (Seccomp r) (release {} s)"
    using p by (simp add: heap_store_same)
  have dist: "distinct ?A1" "distinct ?A2" "distinct ?A3" "distinct ?A4" "distinct ?A5"
    using d by simp_all
  have notin: "p \<notin> set ?A1" "p \<notin> set ?A2" "p \<notin> set ?A3" "p \<notin> set ?A4" "p \<notin> set ?A5"
    "p \<notin> set ?T"
    using d by simp_all
  have dis: "set ?A1 \<inter> {} = {}" "set ?A2 \<inter> set ?A1 = {}"
    "set ?A3 \<inter> (set ?A1 \<union> set ?A2) = {}"
    "set ?A4 \<inter> (set ?A1 \<union> set ?A2 \<union> set ?A3) = {}"
    "set ?A5 \<inter> (set ?A1 \<union> set ?A2 \<union> set ?A3 \<union> set ?A4) = {}"
    "set ?T \<inter> (set ?A1 \<union> set ?A2 \<union> set ?A3 \<union> set ?A4 \<union> set ?A5) = {}"
    using d by (simp_all add: Int_Un_distrib Int_commute)
  have 1: "free_string_array (actions r) (actions_len r) s
      = Some (heap_store p (Seccomp r) (release (set ?A1) s))"
    using free_array_step [OF ok(1) dist(1) notin(1) dis(1), of "Seccomp r"] s by simp
  note 2 = free_array_step [OF ok(2) dist(2) notin(2) dis(2)]
  note 3 = free_array_step [OF ok(3) dist(3) notin(3) dis(3)]
  note 4 = free_array_step [OF ok(4) dist(4) notin(4) dis(4)]
  note 5 = free_array_step [OF ok(5) dist(5) notin(5) dis(5)]
  note 6 = tree_step [OF ok(6) notin(6) dis(6)]
  have w: "\<And>X Y B. p \<notin> B \<Longrightarrow>
      heap_write p Y (heap_store p X (release B s)) = Some (heap_store p Y (release B s))"
    using write_step [OF live] by simp
  have f: "\<And>X B. p \<notin> B \<Longrightarrow>
      free (Some p) (heap_store p X (release B s)) = Some (release (B \<union> {p}) s)"
    using free_step [OF live] by simp
  have "free_runtime_spec_schema_features_linux_seccomp (Some p) s
    = Some (release (set ?A1 \<union> set ?A2 \<union> set ?A3 \<union> set ?A4 \<union> set ?A5 \<union> set ?T \<union> {p}) s)"
    using notin
    by (simp add: free_runtime_spec_schema_features_linux_seccomp_def p 1 2 3 4 5 6 f w)
  moreover have "set ?A1 \<union> set ?A2 \<union> set ?A3 \<union> set ?A4 \<union> set ?A5 \<union> set ?T \<union> {p}
    = set (seccomp_blocks s p r)"
    by (auto simp: seccomp_blocks_def)
  ultimately show ?thesis by simp
qed

lemma free_cgroup_ok:
  assumes "owned_cgroup s p r"
  shows "free_runtime_spec_schema_features_linux_cgroup (Some p) s
    = Some (release (set (cgroup_blocks p r)) s)"
proof -
  let ?T = "tree_blocks (cgroup_residual r)"
  from assms have p: "heap_load s p = Some (Cgroup r)" and ok: "tree_ok s (cgroup_residual r)"
    and n: "p \<notin> set ?T"
    by (simp_all add: owned_cgroup_def cgroup_blocks_def)
  from p have live: "heap_load s p \<noteq> None" by simp
  have s: "s = heap_store p (Cgroup r) (release {} s)"
    using p by (simp add: heap_store_same)
  have 1: "yajl_tree_free (cgroup_residual r) s
      = Some (heap_store p (Cgroup r) (release (set ?T) s))"
    using tree_step [OF ok n, of "{}" "Cgroup r"] s by simp
  show ?thesis
    using n
    by (simp add: free_runtime_spec_schema_features_linux_cgroup_def p 1
        write_step [OF live] free_step [OF live] cgroup_blocks_def Un_commute)
qed

lemma free_idmap_ok:
  assumes "owned_idmap s p r"
  shows "free_runtime_spec_schema_features_linux_mount_extensions_idmap (Some p) s
    = Some (release (set (idmap_blocks p r)) s)"
proof -
  let ?T = "tree_blocks (idmap_residual r)"
  from assms have p: "heap_load s p = Some (Idmap r)" and ok: "tree_ok s (idmap_residual r)"
    and n: "p \<notin> set ?T"
    by (simp_all add: owned_idmap_def idmap_blocks_def)
  from p have live: "heap_load s p \<noteq> None" by simp
  have s: "s = heap_store p (Idmap r) (release {} s)"
    using p by (simp add: heap_store_same)
  have 1: "yajl_tree_free (idmap_residual r) s
      = Some (heap_store p (Idmap r) (release (set ?T) s))"
    using tree_step [OF ok n, of "{}" "Idmap r"] s by simp
  show ?thesis
    using n
    by (simp add: free_runtime_spec_schema_features_linux_mount_extensions_idmap_def p 1
        write_step [OF live] free_step [OF live] idmap_blocks_def Un_commute)
qed

lemma tree_ok_frame:
  "tree_ok s t \<Longrightarrow> \<forall>a \<in> set (tree_blocks t). heap_load s' a = heap_load s a \<Longrightarrow> tree_ok s' t"
  by (cases t) (simp_all add: tree_ok_def tree_blocks_def)

lemma free_nested_idmap_step:
  assumes "nested_idmap_ok s0 i" and "i \<noteq> None"
    and "p \<notin> set (nested_idmap_blocks s0 i)" and "set (nested_idmap_blocks s0 i) \<inter> B = {}"
  shows "free_runtime_spec_schema_features_linux_mount_extensions_idmap i
           (heap_store p X (release B s0))
    = Some (heap_store p X (release (B \<union> set (nested_idmap_blocks s0 i)) s0))"
proof -
  from assms(2) obtain a where i: "i = Some a" by auto
  with assms(1) obtain x where x: "heap_load s0 a = Some (Idmap x)" and o: "owned_idmap s0 a x"
    by (auto simp: nested_idmap_ok_def split: option.splits obj.splits)
  have b: "nested_idmap_blocks s0 i = idmap_blocks a x"
    using i x by (simp add: nested_idmap_blocks_def)
  let ?s = "heap_store p X (release B s0)"
  have same: "\<forall>c \<in> set (idmap_blocks a x). heap_load ?s c = heap_load s0 c"
    using assms(3,4) b by auto
  have "owned_idmap ?s a x"
    using o same tree_ok_frame [of s0 "idmap_residual x" ?s]
    by (simp add: owned_idmap_def idmap_blocks_def)
  from free_idmap_ok [OF this] assms(3) b i show ?thesis
    by (simp add: release_heap_store Un_commute)
qed

lemma free_mount_extensions_ok:
  assumes "owned_mount_extensions s p r"
  shows "free_runtime_spec_schema_features_linux_mount_extensions (Some p) s
    = Some (release (set (mount_extensions_blocks s p r)) s)"
proof -
  let ?I = "nested_idmap_blocks s (idmap r)"
  let ?T = "tree_blocks (mount_extensions_residual r)"
  from assms have p: "heap_load s p = Some (MountExt r)"
    and ok: "nested_idmap_ok s (idmap r)" "tree_ok s (mount_extensions_residual r)"
    and d: "distinct (?I @ ?T @ [p])"
    by (simp_all add: owned_mount_extensions_def mount_extensions_blocks_def)
  from p have live: "heap_load s p \<noteq> None" by simp
  have s: "s = heap_store p (MountExt r) (release {} s)"
    using p by (simp add: heap_store_same)
  have notin: "p \<notin> set ?I" "p \<notin> set ?T" and dis: "set ?T \<inter> set ?I = {}"
    using d by (auto simp: Int_commute)
  have w: "\<And>X Y B. p \<notin> B \<Longrightarrow>
      heap_write p Y (heap_store p X (release B s)) = Some (heap_store p Y (release B s))"
    using write_step [OF live] by simp
  have f: "\<And>X B. p \<notin> B \<Longrightarrow>
      free (Some p) (heap_store p X (release B s)) = Some (release (B \<union> {p}) s)"
    using free_step [OF live] by simp
  have "free_runtime_spec_schema_features_linux_mount_extensions (Some p) s
    = Some (release (set ?I \<union> set ?T \<union> {p}) s)"
  proof (cases "idmap r")
    case None
    then have e: "?I = []" by (simp add: nested_idmap_blocks_def)
    have "yajl_tree_free (mount_extensions_residual r) s
        = Some (heap_store p (MountExt r) (release (set ?T) s))"
      using tree_step [OF ok(2) notin(2), of "{}" "MountExt r"] s by simp
    with None notin e show ?thesis
      by (simp add: free_runtime_spec_schema_features_linux_mount_extensions_def p w f)
  next
    case (Some a)
    then have ne: "idmap r \<noteq> None" by simp
    have "free_runtime_spec_schema_features_linux_mount_extensions_idmap (idmap r) s
        = Some (heap_store p (MountExt r) (release (set ?I) s))"
      using free_nested_idmap_step [OF ok(1) ne notin(1), of "{}" "MountExt r"] s by simp
    with ne notin show ?thesis
      by (simp add: free_runtime_spec_schema_features_linux_mount_extensions_def p w f
          tree_step [OF ok(2) notin(2) dis])
  qed
  moreover have "set ?I \<union> set ?T \<union> {p} = set (mount_extensions_blocks s p r)"
    by (auto simp: mount_extensions_blocks_def)
  ultimately show ?thesis by simp
qed

lemma free_null_record:
  "free_runtime_spec_schema_features_linux_cgroup None s = Some s"
  "free_runtime_spec_schema_features_linux_seccomp None s = Some s"
  "free_runtime_spec_schema_features_linux_mount_extensions None s = Some s"
  "free_runtime_spec_schema_features_linux_mount_extensions_idmap None s = Some s"
  "free_runtime_spec_schema_defs_zos_namespace_reference None s = Some s"
  by (simp_all add: free_runtime_spec_schema_features_linux_cgroup_def
      free_runtime_spec_schema_features_linux_seccomp_def
      free_runtime_spec_schema_features_linux_mount_extensions_def
      free_runtime_spec_schema_features_linux_mount_extensions_idmap_def
      free_runtime_spec_schema_defs_zos_namespace_reference_def)

lemma owned_zero_seccomp:
  "heap_load s p = Some (Seccomp zero_seccomp) \<Longrightarrow>
   owned_seccomp s p zero_seccomp \<and> seccomp_blocks s p zero_seccomp = [p]"
  by (simp add: owned_seccomp_def seccomp_blocks_def zero_seccomp_def array_ok_def
      array_blocks_def tree_ok_def tree_blocks_def)

lemma release_cells:
  "cells (release A s) = map (\<lambda>i. if i \<in> A then None else cells s ! i) [0..<length (cells s)]"
  by (simp add: release_def)

lemma free_released_record:
  assumes "p \<in> A"
  shows "free_runtime_spec_schema_features_linux_cgroup (Some p) (release A s) = None"
    and "free_runtime_spec_schema_features_linux_seccomp (Some p) (release A s) = None"
    and "free_runtime_spec_schema_features_linux_mount_extensions (Some p) (release A s) = None"
  using assms
  by (simp_all add: free_runtime_spec_schema_features_linux_cgroup_def
      free_runtime_spec_schema_features_linux_seccomp_def
      free_runtime_spec_schema_features_linux_mount_extensions_def)

lemma released_record_is_dead:
  assumes "free_runtime_spec_schema_features_linux_cgroup (Some p) s = Some s'"
  shows "free_runtime_spec_schema_features_linux_cgroup (Some p) s' = None"
proof -
  from assms obtain s2 where "free (Some p) s2 = Some s'"
    by (auto simp: free_runtime_spec_schema_features_linux_cgroup_def bind_eq_Some_conv
        split: option.splits obj.splits)
  then have "heap_load s' p = None"
    by (auto simp: free_def heap_load_def split: option.splits if_splits)
  then show ?thesis
    by (simp add: free_runtime_spec_schema_features_linux_cgroup_def)
qed

lemma length_copy_ptrs [simp]: "length (copy_ptrs n xs) = length xs"
  by (induction n xs rule: copy_ptrs.induct) simp_all

lemma length_copy_cells [simp]: "length (copy_cells s xs) = length (somes xs)"
  by (simp add: copy_cells_def)

lemma heap_load_append_old:
  "a < length (cells s) \<Longrightarrow> heap_load (s\<lparr>cells := cells s @ new\<rparr>) a = heap_load s a"
  by (simp add: heap_load_def nth_append)

lemma clone_elements_ok:
  assumes "mem s = []" and "heap_load s dst = Some (Ptrs ys)" and "i + length xs \<le> length ys"
    and "\<forall>j. i \<le> j \<and> j < length ys \<longrightarrow> ys ! j = None"
    and "list_all (\<lambda>b. is_chars (heap_load s b)) (somes xs)"
  shows "clone_elements dst i xs s
    = Some (True,
        s\<lparr>cells := (cells s)[dst := Some (Ptrs (take i ys @ copy_ptrs (length (cells s)) xs
                                                 @ drop (i + length xs) ys))]
                    @ copy_cells s xs\<rparr>)"
  using assms
proof (induction xs arbitrary: s i ys)
  case Nil
  from Nil.prems(2) have "dst < length (cells s)" "cells s ! dst = Some (Ptrs ys)"
    by (auto simp: heap_load_def split: if_splits)
  then have "(cells s)[dst := Some (Ptrs ys)] = cells s" by (simp add: list_update_same_conv)
  then show ?case by (simp add: copy_cells_def)
next
  case (Cons x xs)
  from Cons.prems(2) have dst: "dst < length (cells s)" "cells s ! dst = Some (Ptrs ys)"
    by (auto simp: heap_load_def split: if_splits)
  from Cons.prems(3) have i: "i < length ys" by simp
  show ?case
  proof (cases x)
    case None
    from Cons.prems(4) i have yi: "ys ! i = None" by simp
    have t: "take (Suc i) ys = take i ys @ [None]"
      using i yi by (simp add: take_Suc_conv_app_nth)
    have "clone_elements dst (Suc i) xs s
      = Some (True,
          s\<lparr>cells := (cells s)[dst := Some (Ptrs (take (Suc i) ys
                                @ copy_ptrs (length (cells s)) xs
                                @ drop (Suc i + length xs) ys))]
                      @ copy_cells s xs\<rparr>)"
      using Cons.prems None by (intro Cons.IH) auto
    with None t show ?thesis by (simp add: copy_cells_def)
  next
    case (Some a)
    with Cons.prems(5) obtain str where a: "heap_load s a = Some (Chars str)"
      by (auto simp: is_chars_def split: option.splits obj.splits)
    let ?n = "length (cells s)"
    let ?ys2 = "ys[i := Some ?n]"
    let ?s1 = "s\<lparr>cells := cells s @ [Some (Chars str)]\<rparr>"
    let ?s2 = "heap_store dst (Ptrs ?ys2) ?s1"
    have al: "alloc (Chars str) s = (Some ?n, ?s1)"
      using Cons.prems(1) by (simp add: alloc_ok)
    have l1: "heap_load ?s1 dst = Some (Ptrs ys)"
      using dst Cons.prems(2) by (simp add: heap_load_append_old)
    have se: "set_element dst i ?n ?s1 = Some ?s2"
      using l1 i by (simp add: set_element_def)
    have m2: "mem ?s2 = []" using Cons.prems(1) by (simp add: heap_store_def)
    have l2: "heap_load ?s2 dst = Some (Ptrs ?ys2)"
      using dst by (simp add: heap_load_def heap_store_def nth_append)
    have c2: "cells ?s2 = (cells s)[dst := Some (Ptrs ?ys2)] @ [Some (Chars str)]"
      using dst by (simp add: heap_store_def list_update_append)
    have same: "\<forall>b \<in> set (somes xs). heap_load ?s2 b = heap_load s b"
    proof
      fix b assume "b \<in> set (somes xs)"
      with Cons.prems(5) Some have c: "is_chars (heap_load s b)" by (simp add: list_all_iff)
      then have "b < length (cells s)" "b \<noteq> dst"
        using Cons.prems(2) by (auto simp: is_chars_def heap_load_def split: if_splits option.splits)
      then show "heap_load ?s2 b = heap_load s b"
        by (simp add: heap_load_def heap_store_def nth_append)
    qed
    then have cc: "copy_cells ?s2 xs = copy_cells s xs" by (simp add: copy_cells_def)
    have ch: "list_all (\<lambda>b. is_chars (heap_load ?s2 b)) (somes xs)"
      using Cons.prems(5) Some same by (simp add: list_all_iff)
    have ih: "clone_elements dst (Suc i) xs ?s2
      = Some (True,
          ?s2\<lparr>cells := (cells ?s2)[dst := Some (Ptrs (take (Suc i) ?ys2
                                @ copy_ptrs (length (cells ?s2)) xs
                                @ drop (Suc i + length xs) ?ys2))]
                      @ copy_cells ?s2 xs\<rparr>)"
      using Cons.prems(3,4) m2 l2 ch by (intro Cons.IH) auto
    have t: "take (Suc i) ?ys2 = take i ys @ [Some ?n]"
      using i by (simp add: take_Suc_conv_app_nth)
    have d: "drop (Suc i + length xs) ?ys2 = drop (Suc i + length xs) ys" by simp
    have len2: "length (cells ?s2) = Suc ?n" by (simp add: heap_store_def)
    have step: "clone_elements dst i (x # xs) s = clone_elements dst (Suc i) xs ?s2"
      unfolding Some by (simp only: clone_elements.simps option.case a obj.case al prod.case
          se bind.bind_lunit)
    have fin: "?s2\<lparr>cells := (cells ?s2)[dst := Some (Ptrs (take (Suc i) ?ys2
                                @ copy_ptrs (length (cells ?s2)) xs
                                @ drop (Suc i + length xs) ?ys2))]
                      @ copy_cells ?s2 xs\<rparr>
      = s\<lparr>cells := (cells s)[dst := Some (Ptrs (take i ys @ copy_ptrs ?n (x # xs)
                                                 @ drop (i + length (x # xs)) ys))]
                    @ copy_cells s (x # xs)\<rparr>"
      unfolding t d cc c2 len2
      using Some a dst by (simp add: copy_cells_def heap_store_def list_update_append)
    show ?thesis unfolding step ih fin ..
  qed
qed

lemma somes_copy_ptrs: "somes (copy_ptrs m xs) = [m ..< m + length (somes xs)]"
proof (induction m xs rule: copy_ptrs.induct)
  case (3 n a xs)
  then show ?case by (simp add: upt_conv_Cons del: upt_Suc)
qed simp_all

lemma load_string_copy:
  "\<forall>k < length (somes xs). heap_load s' (m + k) = heap_load s (somes xs ! k) \<Longrightarrow>
   map (load_string s') (copy_ptrs m xs) = map (load_string s) xs"
proof (induction m xs rule: copy_ptrs.induct)
  case (1 n)
  then show ?case by simp
next
  case (2 n xs)
  then show ?case by (simp add: load_string_def)
next
  case (3 n a xs)
  from "3.prems" have h: "heap_load s' n = heap_load s a" by force
  have "\<forall>k < length (somes xs). heap_load s' (Suc n + k) = heap_load s (somes xs ! k)"
  proof (intro allI impI)
    fix k assume "k < length (somes xs)"
    then have "Suc k < length (somes (Some a # xs))" by simp
    with "3.prems" have "heap_load s' (n + Suc k) = heap_load s (somes (Some a # xs) ! Suc k)"
      by blast
    then show "heap_load s' (Suc n + k) = heap_load s (somes xs ! k)" by simp
  qed
  from "3.IH" [OF this] h show ?case by (simp add: load_string_def)
qed

lemma untouched_length: "untouched s s' \<Longrightarrow> length (cells s) \<le> length (cells s')"
proof -
  assume "untouched s s'"
  then have "length (take (length (cells s)) (cells s')) = length (cells s)"
    by (simp add: untouched_def)
  then show ?thesis by (simp add: min_def split: if_splits)
qed

lemma untouched_load:
  "untouched s s' \<Longrightarrow> a < length (cells s) \<Longrightarrow> heap_load s' a = heap_load s a"
proof -
  assume u: "untouched s s'" and a: "a < length (cells s)"
  from u have l: "length (cells s) \<le> length (cells s')" by (rule untouched_length)
  from u have "take (length (cells s)) (cells s') ! a = cells s ! a"
    by (simp add: untouched_def)
  with a have "cells s' ! a = cells s ! a" by simp
  with a l show ?thesis by (simp add: heap_load_def)
qed

lemma untouched_refl [simp]: "untouched s s"
  by (simp add: untouched_def)

lemma untouched_append [simp]: "untouched s (s\<lparr>cells := cells s @ new\<rparr>)"
  by (simp add: untouched_def)

lemma untouched_trans: "untouched s s' \<Longrightarrow> untouched s' s'' \<Longrightarrow> untouched s s''"
proof -
  assume a: "untouched s s'" and b: "untouched s' s''"
  from a have l: "length (cells s) \<le> length (cells s')" by (rule untouched_length)
  from b have "take (length (cells s)) (take (length (cells s')) (cells s''))
      = take (length (cells s)) (cells s')"
    by (simp add: untouched_def)
  with l a show ?thesis by (simp add: untouched_def min_absorb1)
qed

lemma load_elements_length: "load_elements s a len = Some xs \<Longrightarrow> length xs = len"
  by (auto simp: load_elements_def split: option.splits obj.splits if_splits)

lemma clone_string_array_ok:
  assumes "mem s = []" and "array_ok s (Some a) len" and "load_elements s a len = Some xs"
  shows "clone_string_array (Some a) len s
    = Some (True, Some (length (cells s)), len,
        s\<lparr>cells := cells s @ Some (Ptrs (copy_ptrs (Suc (length (cells s))) xs @ [None]))
                      # copy_cells s xs\<rparr>)"
proof -
  let ?n = "length (cells s)"
  let ?ys = "replicate (Suc len) (None :: addr option)"
  let ?s1 = "s\<lparr>cells := cells s @ [Some (Ptrs ?ys)]\<rparr>"
  from assms(3) obtain zs where a: "heap_load s a = Some (Ptrs zs)"
    by (auto dest: load_elements_Some)
  then have al: "a < ?n" by (auto simp: heap_load_def split: if_splits)
  from assms(3) have len: "length xs = len" by (rule load_elements_length)
  have m1: "mem ?s1 = []" using assms(1) by simp
  have d1: "heap_load ?s1 ?n = Some (Ptrs ?ys)" by (simp add: heap_load_def)
  have le1: "load_elements ?s1 a len = Some xs"
    using assms(3) al by (simp add: load_elements_def heap_load_append_old)
  from assms(2,3) have ch: "list_all (\<lambda>b. is_chars (heap_load s b)) (somes xs)"
    by (simp add: array_ok_def)
  have same: "\<forall>b \<in> set (somes xs). heap_load ?s1 b = heap_load s b"
  proof
    fix b assume "b \<in> set (somes xs)"
    with ch have "is_chars (heap_load s b)" by (simp add: list_all_iff)
    then have "b < ?n" by (auto simp: is_chars_def heap_load_def split: if_splits)
    then show "heap_load ?s1 b = heap_load s b" by (simp add: heap_load_append_old)
  qed
  then have ch1: "list_all (\<lambda>b. is_chars (heap_load ?s1 b)) (somes xs)"
    using ch by (simp add: list_all_iff)
  have cc: "copy_cells ?s1 xs = copy_cells s xs" using same by (simp add: copy_cells_def)
  have ce: "clone_elements ?n 0 xs ?s1
    = Some (True,
        ?s1\<lparr>cells := (cells ?s1)[?n := Some (Ptrs (take 0 ?ys @ copy_ptrs (length (cells ?s1)) xs
                                                 @ drop (0 + length xs) ?ys))]
                    @ copy_cells ?s1 xs\<rparr>)"
  proof (rule clone_elements_ok [OF m1 d1 _ _ ch1])
    show "0 + length xs \<le> length ?ys" using len by simp
    show "\<forall>j. 0 \<le> j \<and> j < length ?ys \<longrightarrow> ?ys ! j = None"
      by (simp del: replicate.simps)
  qed
  have fin: "?s1\<lparr>cells := (cells ?s1)[?n := Some (Ptrs (take 0 ?ys
                                                 @ copy_ptrs (length (cells ?s1)) xs
                                                 @ drop (0 + length xs) ?ys))]
                    @ copy_cells ?s1 xs\<rparr>
    = s\<lparr>cells := cells s @ Some (Ptrs (copy_ptrs (Suc ?n) xs @ [None])) # copy_cells s xs\<rparr>"
  proof -
    have "drop len ?ys = replicate (Suc len - len) None" by (simp only: drop_replicate)
    then have "drop (0 + length xs) ?ys = [None]" using len by simp
    then show ?thesis unfolding cc by (simp del: replicate.simps)
  qed
  have al1: "alloc (Ptrs ?ys) s = (Some ?n, ?s1)" using assms(1) by (simp add: alloc_ok)
  show ?thesis
    unfolding clone_string_array_def
    by (simp only: option.case al1 prod.case le1 bind.bind_lunit ce fin)
qed

lemma clone_string_array_post:
  assumes "mem s = []" and "array_ok s arr len"
  shows "\<exists>d n s'. clone_string_array arr len s = Some (True, d, n, s')
     \<and> mem s' = [] \<and> errlog s' = errlog s \<and> untouched s s'
     \<and> array_ok s' d n \<and> distinct (array_blocks s' d n)
     \<and> (\<forall>b \<in> set (array_blocks s' d n). length (cells s) \<le> b \<and> b < length (cells s'))
     \<and> array_texts s' d n = array_texts s arr len"
proof (cases arr)
  case None
  with assms show ?thesis
    by (simp add: clone_string_array_def array_ok_def array_blocks_def array_texts_def)
next
  case (Some a)
  with assms(2) obtain xs where xs: "load_elements s a len = Some xs"
    and ch: "list_all (\<lambda>b. is_chars (heap_load s b)) (somes xs)"
    by (auto simp: array_ok_def split: option.splits)
  let ?n = "length (cells s)"
  let ?cp = "copy_ptrs (Suc ?n) xs"
  let ?s' = "s\<lparr>cells := cells s @ Some (Ptrs (?cp @ [None])) # copy_cells s xs\<rparr>"
  from xs have len: "length xs = len" by (rule load_elements_length)
  have c: "clone_string_array arr len s = Some (True, Some ?n, len, ?s')"
    using clone_string_array_ok [OF assms(1) _ xs] assms(2) Some by simp
  have arr': "heap_load ?s' ?n = Some (Ptrs (?cp @ [None]))"
    by (simp add: heap_load_def nth_append)
  have le: "load_elements ?s' ?n len = Some ?cp"
    using arr' len by (simp add: load_elements_def)
  have new: "\<forall>k < length (somes xs). heap_load ?s' (Suc ?n + k) = heap_load s (somes xs ! k)"
    by (simp add: heap_load_def nth_append copy_cells_def)
  have sm: "somes ?cp = [Suc ?n ..< Suc ?n + length (somes xs)]" by (rule somes_copy_ptrs)
  have ok: "array_ok ?s' (Some ?n) len"
  proof -
    have "list_all (\<lambda>b. is_chars (heap_load ?s' b)) (somes ?cp)"
      unfolding sm list_all_iff
    proof
      fix b assume "b \<in> set [Suc ?n ..< Suc ?n + length (somes xs)]"
      then have "Suc ?n \<le> b" "b < Suc ?n + length (somes xs)"
        by (simp_all only: set_upt atLeastLessThan_iff)
      then have "b = Suc ?n + (b - Suc ?n)" "b - Suc ?n < length (somes xs)" by arith+
      then obtain k where k: "b = Suc ?n + k" "k < length (somes xs)" by blast
      with new have "heap_load ?s' b = heap_load s (somes xs ! k)" by blast
      moreover from ch k have "is_chars (heap_load s (somes xs ! k))"
        by (simp add: list_all_length)
      ultimately show "is_chars (heap_load ?s' b)" by simp
    qed
    with le show ?thesis by (simp add: array_ok_def)
  qed
  have bl: "array_blocks ?s' (Some ?n) len = [Suc ?n ..< Suc ?n + length (somes xs)] @ [?n]"
    using le sm by (simp add: array_blocks_def del: upt_Suc)
  have tx: "array_texts ?s' (Some ?n) len = array_texts s arr len"
    using le xs Some load_string_copy [OF new] by (simp add: array_texts_def)
  have m: "mem ?s' = []" using assms(1) by simp
  have e: "errlog ?s' = errlog s" by simp
  have u: "untouched s ?s'" by simp
  have d: "distinct (array_blocks ?s' (Some ?n) len)" unfolding bl by (simp del: upt_Suc)
  have r: "\<forall>b \<in> set (array_blocks ?s' (Some ?n) len). ?n \<le> b \<and> b < length (cells ?s')"
    unfolding bl by (auto simp del: upt_Suc)
  show ?thesis
    by (rule exI [of _ "Some ?n"], rule exI [of _ len], rule exI [of _ ?s'])
       (intro conjI c m e u ok d r tx)
qed

lemma array_blocks_live:
  "array_ok s arr len \<Longrightarrow> b \<in> set (array_blocks s arr len) \<Longrightarrow> b < length (cells s)"
proof (cases arr)
  case None
  assume "b \<in> set (array_blocks s arr len)"
  with None show ?thesis by (simp add: array_blocks_def)
next
  case (Some a)
  assume ok: "array_ok s arr len" and b: "b \<in> set (array_blocks s arr len)"
  from ok Some obtain xs where xs: "load_elements s a len = Some xs"
    and ch: "list_all (\<lambda>b. is_chars (heap_load s b)) (somes xs)"
    by (auto simp: array_ok_def split: option.splits)
  from xs obtain ys where "heap_load s a = Some (Ptrs ys)" by (auto dest: load_elements_Some)
  then have a: "a < length (cells s)" by (auto simp: heap_load_def split: if_splits)
  from b Some xs have "b = a \<or> b \<in> set (somes xs)" by (auto simp: array_blocks_def)
  then show ?thesis
  proof
    assume "b = a" with a show ?thesis by simp
  next
    assume "b \<in> set (somes xs)"
    with ch have "is_chars (heap_load s b)" by (simp add: list_all_iff)
    then show ?thesis by (auto simp: is_chars_def heap_load_def split: if_splits)
  qed
qed

lemma array_texts_frame:
  assumes "array_ok s arr len"
    and "\<forall>a \<in> set (array_blocks s arr len). heap_load s' a = heap_load s a"
  shows "array_texts s' arr len = array_texts s arr len"
proof (cases arr)
  case None
  then show ?thesis by (simp add: array_texts_def)
next
  case (Some a)
  with assms(1) obtain xs where xs: "load_elements s a len = Some xs"
    by (auto simp: array_ok_def split: option.splits)
  from assms(2) Some xs have same: "heap_load s' a = heap_load s a"
    "\<forall>b \<in> set (somes xs). heap_load s' b = heap_load s b"
    by (simp_all add: array_blocks_def)
  from same(1) xs have xs': "load_elements s' a len = Some xs"
    by (simp add: load_elements_def)
  have "map (load_string s') xs = map (load_string s) xs"
  proof (rule map_cong [OF refl])
    fix x
    assume x: "x \<in> set xs"
    show "load_string s' x = load_string s x"
    proof (cases x)
      assume "x = None"
      then show ?thesis by (simp add: load_string_def)
    next
      fix b assume b: "x = Some b"
      with x have "b \<in> set (somes xs)" by (simp add: set_somes)
      with same(2) have "heap_load s' b = heap_load s b" by blast
      with b show ?thesis by (simp add: load_string_def)
    qed
  qed
  with Some xs xs' show ?thesis by (simp add: array_texts_def)
qed

lemma array_untouched:
  assumes "array_ok s arr len" and "untouched s s'"
  shows "array_ok s' arr len" and "array_blocks s' arr len = array_blocks s arr len"
    and "array_texts s' arr len = array_texts s arr len"
proof -
  have same: "\<forall>a \<in> set (array_blocks s arr len). heap_load s' a = heap_load s a"
    using array_blocks_live [OF assms(1)] untouched_load [OF assms(2)] by blast
  from array_frame [OF assms(1) same] show "array_ok s' arr len"
    and "array_blocks s' arr len = array_blocks s arr len" by simp_all
  from array_texts_frame [OF assms(1) same]
  show "array_texts s' arr len = array_texts s arr len" .
qed

lemma clone_arrays_post:
  assumes "mem s = []" and "list_all (\<lambda>(arr, len). array_ok s arr len) as"
  shows "\<exists>ds s'. clone_arrays as s = Some (ds, s')
     \<and> mem s' = [] \<and> errlog s' = errlog s \<and> untouched s s'
     \<and> list_all (\<lambda>(d, n). array_ok s' d n) ds
     \<and> distinct (arrays_blocks s' ds)
     \<and> (\<forall>b \<in> set (arrays_blocks s' ds). length (cells s) \<le> b \<and> b < length (cells s'))
     \<and> map (\<lambda>(d, n). array_texts s' d n) ds = map (\<lambda>(arr, len). array_texts s arr len) as"
  using assms
proof (induction as arbitrary: s)
  case Nil
  then show ?case by (simp add: arrays_blocks_def)
next
  case (Cons al as)
  obtain arr len where al: "al = (arr, len)" by (cases al)
  from Cons.prems al have ok: "array_ok s arr len"
    and oks: "list_all (\<lambda>(arr, len). array_ok s arr len) as" by simp_all
  from clone_string_array_post [OF Cons.prems(1) ok] obtain d n s1 where
    c: "clone_string_array arr len s = Some (True, d, n, s1)"
    and m1: "mem s1 = []" and e1: "errlog s1 = errlog s" and u1: "untouched s s1"
    and ok1: "array_ok s1 d n" and d1: "distinct (array_blocks s1 d n)"
    and r1: "\<forall>b \<in> set (array_blocks s1 d n). length (cells s) \<le> b \<and> b < length (cells s1)"
    and t1: "array_texts s1 d n = array_texts s arr len"
    by blast
  have oks1: "list_all (\<lambda>(arr, len). array_ok s1 arr len) as"
    using oks array_untouched(1) [OF _ u1] by (auto simp: list_all_iff)
  from Cons.IH [OF m1 oks1] obtain ds s2 where
    cs: "clone_arrays as s1 = Some (ds, s2)"
    and m2: "mem s2 = []" and e2: "errlog s2 = errlog s1" and u2: "untouched s1 s2"
    and ok2: "list_all (\<lambda>(d, n). array_ok s2 d n) ds"
    and d2: "distinct (arrays_blocks s2 ds)"
    and r2: "\<forall>b \<in> set (arrays_blocks s2 ds). length (cells s1) \<le> b \<and> b < length (cells s2)"
    and t2: "map (\<lambda>(d, n). array_texts s2 d n) ds = map (\<lambda>(arr, len). array_texts s1 arr len) as"
    by blast
  note f = array_untouched [OF ok1 u2]
  have l01: "length (cells s) \<le> length (cells s1)" using u1 by (rule untouched_length)
  have l12: "length (cells s1) \<le> length (cells s2)" using u2 by (rule untouched_length)
  have ts: "map (\<lambda>(arr, len). array_texts s1 arr len) as
      = map (\<lambda>(arr, len). array_texts s arr len) as"
    using oks array_untouched(3) [OF _ u1] by (auto simp: list_all_iff)
  have res: "clone_arrays (al # as) s = Some ((d, n) # ds, s2)"
    using al c cs by simp
  have bl: "arrays_blocks s2 ((d, n) # ds) = array_blocks s1 d n @ arrays_blocks s2 ds"
    using f(2) by (simp add: arrays_blocks_def)
  have dist: "distinct (arrays_blocks s2 ((d, n) # ds))"
  proof -
    have "set (array_blocks s1 d n) \<inter> set (arrays_blocks s2 ds) = {}"
    proof (rule ccontr)
      assume "set (array_blocks s1 d n) \<inter> set (arrays_blocks s2 ds) \<noteq> {}"
      then obtain x where x1: "x \<in> set (array_blocks s1 d n)"
        and x2: "x \<in> set (arrays_blocks s2 ds)" by blast
      from r1 x1 have "x < length (cells s1)" by blast
      moreover from r2 x2 have "length (cells s1) \<le> x" by blast
      ultimately show False by simp
    qed
    with d1 d2 show ?thesis unfolding bl by simp
  qed
  have range: "\<forall>b \<in> set (arrays_blocks s2 ((d, n) # ds)).
      length (cells s) \<le> b \<and> b < length (cells s2)"
    unfolding bl using r1 r2 l01 l12 by auto
  have oks2: "list_all (\<lambda>(d, n). array_ok s2 d n) ((d, n) # ds)"
    using f(1) ok2 by simp
  have texts: "map (\<lambda>(d, n). array_texts s2 d n) ((d, n) # ds)
      = map (\<lambda>(arr, len). array_texts s arr len) (al # as)"
    using f(3) t1 t2 ts al by simp
  have m: "mem s2 = []" by (rule m2)
  have e: "errlog s2 = errlog s" using e1 e2 by simp
  have u: "untouched s s2" using u1 u2 by (rule untouched_trans)
  show ?case
    by (rule exI [of _ "(d, n) # ds"], rule exI [of _ s2])
       (intro conjI res m e u oks2 dist range texts)
qed

lemma seccomp_blocks_arrays:
  "seccomp_blocks s p r
   = arrays_blocks s (seccomp_arrays_of r) @ tree_blocks (seccomp_residual r) @ [p]"
  by (simp add: seccomp_blocks_def arrays_blocks_def seccomp_arrays_of_def)

lemma owned_seccomp_arrays:
  "owned_seccomp s p r =
     (heap_load s p = Some (Seccomp r)
      \<and> list_all (\<lambda>(arr, len). array_ok s arr len) (seccomp_arrays_of r)
      \<and> tree_ok s (seccomp_residual r)
      \<and> distinct (arrays_blocks s (seccomp_arrays_of r) @ tree_blocks (seccomp_residual r) @ [p]))"
  unfolding owned_seccomp_def seccomp_blocks_arrays
  by (simp add: seccomp_arrays_of_def)

lemma arrays_frame:
  assumes "list_all (\<lambda>(arr, len). array_ok s arr len) as"
    and "\<forall>a \<in> set (arrays_blocks s as). heap_load s' a = heap_load s a"
  shows "list_all (\<lambda>(arr, len). array_ok s' arr len) as
     \<and> arrays_blocks s' as = arrays_blocks s as \<and> texts s' as = texts s as"
  using assms
proof (induction as)
  case Nil
  then show ?case by (simp add: arrays_blocks_def texts_def)
next
  case (Cons al as)
  obtain arr len where al: "al = (arr, len)" by (cases al)
  from Cons.prems al have ok: "array_ok s arr len"
    and oks: "list_all (\<lambda>(arr, len). array_ok s arr len) as"
    and same: "\<forall>a \<in> set (array_blocks s arr len). heap_load s' a = heap_load s a"
    and sames: "\<forall>a \<in> set (arrays_blocks s as). heap_load s' a = heap_load s a"
    by (simp_all add: arrays_blocks_def)
  from array_frame [OF ok same] array_texts_frame [OF ok same] Cons.IH [OF oks sames] al
  show ?case by (simp add: arrays_blocks_def texts_def)
qed

lemma owned_seccomp_frame:
  assumes "owned_seccomp s p r"
    and "\<forall>a \<in> set (seccomp_blocks s p r). heap_load s' a = heap_load s a"
  shows "owned_seccomp s' p r" and "seccomp_blocks s' p r = seccomp_blocks s p r"
    and "texts s' (seccomp_arrays_of r) = texts s (seccomp_arrays_of r)"
proof -
  from assms(1) have p: "heap_load s p = Some (Seccomp r)"
    and oks: "list_all (\<lambda>(arr, len). array_ok s arr len) (seccomp_arrays_of r)"
    and t: "tree_ok s (seccomp_residual r)"
    and d: "distinct (arrays_blocks s (seccomp_arrays_of r) @ tree_blocks (seccomp_residual r) @ [p])"
    by (simp_all add: owned_seccomp_arrays)
  from assms(2) have sa: "\<forall>a \<in> set (arrays_blocks s (seccomp_arrays_of r)). heap_load s' a = heap_load s a"
    and st: "\<forall>a \<in> set (tree_blocks (seccomp_residual r)). heap_load s' a = heap_load s a"
    and sp: "heap_load s' p = heap_load s p"
    by (simp_all add: seccomp_blocks_arrays)
  note f = arrays_frame [OF oks sa]
  from f show "texts s' (seccomp_arrays_of r) = texts s (seccomp_arrays_of r)" by simp
  from f show "seccomp_blocks s' p r = seccomp_blocks s p r" by (simp add: seccomp_blocks_arrays)
  from f p sp tree_ok_frame [OF t st] d show "owned_seccomp s' p r"
    by (simp add: owned_seccomp_arrays)
qed

lemma seccomp_blocks_live:
  assumes "owned_seccomp s p r" and "b \<in> set (seccomp_blocks s p r)"
  shows "b < length (cells s)"
proof -
  from assms(1) have p: "heap_load s p = Some (Seccomp r)"
    and ok: "array_ok s (actions r) (actions_len r)" "array_ok s (operators r) (operators_len r)"
      "array_ok s (archs r) (archs_len r)" "array_ok s (known_flags r) (known_flags_len r)"
      "array_ok s (supported_flags r) (supported_flags_len r)"
    and t: "tree_ok s (seccomp_residual r)"
    by (simp_all add: owned_seccomp_def)
  from p have lp: "p < length (cells s)" by (auto simp: heap_load_def split: if_splits)
  have lt: "b \<in> set (tree_blocks (seccomp_residual r)) \<Longrightarrow> b < length (cells s)"
    using t by (cases "seccomp_residual r")
      (auto simp: tree_blocks_def tree_ok_def is_tree_def heap_load_def split: if_splits)
  from assms(2) show ?thesis
    unfolding seccomp_blocks_def
    using array_blocks_live [OF ok(1)] array_blocks_live [OF ok(2)] array_blocks_live [OF ok(3)]
      array_blocks_live [OF ok(4)] array_blocks_live [OF ok(5)] lt lp
    by auto
qed

lemma clone_arrays_length:
  "clone_arrays as s = Some (ds, s') \<Longrightarrow> length ds = length as"
proof (induction as arbitrary: s ds)
  case Nil
  then show ?case by simp
next
  case (Cons al as)
  obtain arr len where al: "al = (arr, len)" by (cases al)
  from Cons.prems al show ?case
    by (auto split: option.splits bool.splits prod.splits dest: Cons.IH)
qed

lemma clone_seccomp_arrays:
  assumes "mem s = []" and "heap_load s p = Some (Seccomp x)"
    and "clone_arrays (seccomp_arrays_of x) (s\<lparr>cells := cells s @ [Some (Seccomp zero_seccomp)]\<rparr>)
         = Some ([(d1, n1), (d2, n2), (d3, n3), (d4, n4), (d5, n5)], s5)"
  shows "clone_runtime_spec_schema_features_linux_seccomp (Some p) s
    = Some (Some (length (cells s)),
            heap_store (length (cells s))
              (Seccomp (zero_seccomp\<lparr>enabled := enabled x, enabled_present := enabled_present x,
                  actions := d1, actions_len := n1, operators := d2, operators_len := n2,
                  archs := d3, archs_len := n3, known_flags := d4, known_flags_len := n4,
                  supported_flags := d5, supported_flags_len := n5\<rparr>)) s5)"
proof -
  let ?s0 = "s\<lparr>cells := cells s @ [Some (Seccomp zero_seccomp)]\<rparr>"
  have a: "alloc (Seccomp zero_seccomp) s = (Some (length (cells s)), ?s0)"
    using assms(1) by (rule alloc_ok)
  have l: "heap_load ?s0 p = Some (Seccomp x)"
    using assms(2) by (auto simp: heap_load_def nth_append split: if_splits)
  from assms(3) obtain s1 s2 s3 s4 where
    c1: "clone_string_array (actions x) (actions_len x) ?s0 = Some (True, d1, n1, s1)"
    and c2: "clone_string_array (operators x) (operators_len x) s1 = Some (True, d2, n2, s2)"
    and c3: "clone_string_array (archs x) (archs_len x) s2 = Some (True, d3, n3, s3)"
    and c4: "clone_string_array (known_flags x) (known_flags_len x) s3 = Some (True, d4, n4, s4)"
    and c5: "clone_string_array (supported_flags x) (supported_flags_len x) s4
             = Some (True, d5, n5, s5)"
    by (auto simp: seccomp_arrays_of_def split: option.splits bool.splits prod.splits)
  show ?thesis
    unfolding clone_runtime_spec_schema_features_linux_seccomp_def a
    by (simp add: l c1 c2 c3 c4 c5)
qed

lemma untouched_heap_store:
  "untouched s s' \<Longrightarrow> length (cells s) \<le> a \<Longrightarrow> untouched s (heap_store a v s')"
  by (simp add: untouched_def heap_store_def)

lemma list_of_five:
  "length ds = 5 \<Longrightarrow> \<exists>a b c d e. ds = [a, b, c, d, e]"
  by (cases ds; simp; rename_tac x1 l1; case_tac l1; simp; rename_tac x2 l2; case_tac l2; simp;
      rename_tac x3 l3; case_tac l3; simp; rename_tac x4 l4; case_tac l4; simp)

lemma clone_seccomp_post:
  assumes "mem s = []" and "owned_seccomp s p r"
  shows "\<exists>s' r'. clone_runtime_spec_schema_features_linux_seccomp (Some p) s
        = Some (Some (length (cells s)), s')
     \<and> mem s' = [] \<and> errlog s' = errlog s \<and> untouched s s'
     \<and> owned_seccomp s' (length (cells s)) r'
     \<and> (\<forall>b \<in> set (seccomp_blocks s' (length (cells s)) r'). length (cells s) \<le> b)
     \<and> enabled r' = enabled r \<and> enabled_present r' = enabled_present r
     \<and> seccomp_residual r' = None
     \<and> texts s' (seccomp_arrays_of r') = texts s (seccomp_arrays_of r)"
proof -
  let ?n = "length (cells s)"
  let ?s0 = "s\<lparr>cells := cells s @ [Some (Seccomp zero_seccomp)]\<rparr>"
  from assms(2) have p: "heap_load s p = Some (Seccomp r)"
    and oks: "list_all (\<lambda>(arr, len). array_ok s arr len) (seccomp_arrays_of r)"
    by (simp_all add: owned_seccomp_arrays)
  have u0: "untouched s ?s0" by simp
  have m0: "mem ?s0 = []" using assms(1) by simp
  have same0: "\<forall>a \<in> set (arrays_blocks s (seccomp_arrays_of r)). heap_load ?s0 a = heap_load s a"
  proof
    fix a assume "a \<in> set (arrays_blocks s (seccomp_arrays_of r))"
    then have "a \<in> set (seccomp_blocks s p r)" by (simp add: seccomp_blocks_arrays)
    then have "a < length (cells s)" by (rule seccomp_blocks_live [OF assms(2)])
    then show "heap_load ?s0 a = heap_load s a" by (rule untouched_load [OF u0])
  qed
  note f0 = arrays_frame [OF oks same0]
  from f0 have oks0: "list_all (\<lambda>(arr, len). array_ok ?s0 arr len) (seccomp_arrays_of r)"
    and t0: "texts ?s0 (seccomp_arrays_of r) = texts s (seccomp_arrays_of r)" by simp_all
  from clone_arrays_post [OF m0 oks0] obtain ds s5 where
    c: "clone_arrays (seccomp_arrays_of r) ?s0 = Some (ds, s5)"
    and m5: "mem s5 = []" and e5: "errlog s5 = errlog ?s0" and u5: "untouched ?s0 s5"
    and ok5: "list_all (\<lambda>(d, n). array_ok s5 d n) ds"
    and d5: "distinct (arrays_blocks s5 ds)"
    and r5: "\<forall>b \<in> set (arrays_blocks s5 ds). length (cells ?s0) \<le> b \<and> b < length (cells s5)"
    and t5: "texts s5 ds = texts ?s0 (seccomp_arrays_of r)"
    unfolding texts_def by blast
  from clone_arrays_length [OF c] have "length ds = 5" by (simp add: seccomp_arrays_of_def)
  then have "\<exists>a b c d e. ds = [a, b, c, d, e]" by (rule list_of_five)
  then obtain d1 n1 d2 n2 d3 n3 d4 n4 d5 n5 where
    ds: "ds = [(d1, n1), (d2, n2), (d3, n3), (d4, n4), (d5, n5)]" by fastforce
  define r' where "r' = zero_seccomp\<lparr>enabled := enabled r, enabled_present := enabled_present r,
      actions := d1, actions_len := n1, operators := d2, operators_len := n2,
      archs := d3, archs_len := n3, known_flags := d4, known_flags_len := n4,
      supported_flags := d5, supported_flags_len := n5\<rparr>"
  define s' where "s' = heap_store ?n (Seccomp r') s5"
  have ar: "seccomp_arrays_of r' = ds" by (simp add: r'_def ds seccomp_arrays_of_def)
  have res: "seccomp_residual r' = None" by (simp add: r'_def zero_seccomp_def)
  have en: "enabled r' = enabled r" "enabled_present r' = enabled_present r"
    by (simp_all add: r'_def)
  have call: "clone_runtime_spec_schema_features_linux_seccomp (Some p) s = Some (Some ?n, s')"
    unfolding s'_def r'_def by (rule clone_seccomp_arrays [OF assms(1) p c [unfolded ds]])
  from u5 have l5: "Suc ?n \<le> length (cells s5)" by (auto dest: untouched_length)
  have lo: "\<forall>b \<in> set (arrays_blocks s5 ds). Suc ?n \<le> b" using r5 by simp
  have same5: "\<forall>a \<in> set (arrays_blocks s5 ds). heap_load s' a = heap_load s5 a"
    using lo by (auto simp: s'_def)
  note f5 = arrays_frame [OF ok5 same5]
  have q: "heap_load s' ?n = Some (Seccomp r')" using l5 by (simp add: s'_def)
  have bl: "seccomp_blocks s' ?n r' = arrays_blocks s5 ds @ [?n]"
    using f5 by (simp add: seccomp_blocks_arrays ar res tree_blocks_def)
  have dist: "distinct (arrays_blocks s5 ds @ [?n])"
    using d5 lo by auto
  have own: "owned_seccomp s' ?n r'"
    unfolding owned_seccomp_def bl using q f5 dist
    by (simp add: res tree_ok_def ar [symmetric] seccomp_arrays_of_def)
  have fresh: "\<forall>b \<in> set (seccomp_blocks s' ?n r'). ?n \<le> b"
    unfolding bl using lo by auto
  have tx: "texts s' (seccomp_arrays_of r') = texts s (seccomp_arrays_of r)"
    using f5 t5 t0 by (simp add: ar)
  have m: "mem s' = []" using m5 by (simp add: s'_def)
  have e: "errlog s' = errlog s" using e5 by (simp add: s'_def)
  have u: "untouched s s'"
    unfolding s'_def by (rule untouched_heap_store [OF untouched_trans [OF u0 u5]]) simp
  show ?thesis
    by (rule exI [of _ s'], rule exI [of _ r'])
       (intro conjI call m e u own fresh en res tx)
qed

lemma seccomp_kept_frame:
  assumes "owned_seccomp s p r"
    and "\<forall>a \<in> set (seccomp_blocks s p r). heap_load t a = heap_load s a"
  shows "seccomp_kept s p r t"
  unfolding seccomp_kept_def using owned_seccomp_frame [OF assms] assms(2) by simp

lemma seccomp_kept_trans:
  "seccomp_kept s p r s' \<Longrightarrow> seccomp_kept s' p r t \<Longrightarrow> seccomp_kept s p r t"
  by (simp add: seccomp_kept_def)

lemma seccomp_release_other:
  assumes "owned_seccomp s p r" and "owned_seccomp s q x"
    and "set (seccomp_blocks s p r) \<inter> set (seccomp_blocks s q x) = {}"
  shows "\<exists>t. free_runtime_spec_schema_features_linux_seccomp (Some q) s = Some t
     \<and> seccomp_kept s p r t"
proof -
  let ?t = "release (set (seccomp_blocks s q x)) s"
  have "\<forall>a \<in> set (seccomp_blocks s p r). heap_load ?t a = heap_load s a"
    using assms(3) by auto
  then have "seccomp_kept s p r ?t" by (rule seccomp_kept_frame [OF assms(1)])
  with free_seccomp_ok [OF assms(2)] show ?thesis by simp
qed

lemma seccomp_store_other:
  assumes "owned_seccomp s p r" and "b \<notin> set (seccomp_blocks s p r)"
  shows "seccomp_kept s p r (heap_store b v s)"
proof -
  have "\<forall>a \<in> set (seccomp_blocks s p r). heap_load (heap_store b v s) a = heap_load s a"
    using assms(2) by auto
  then show ?thesis by (rule seccomp_kept_frame [OF assms(1)])
qed

lemma clone_seccomp_independent:
  assumes "mem s = []" and "owned_seccomp s p r"
  shows "\<exists>s' r'. clone_runtime_spec_schema_features_linux_seccomp (Some p) s
        = Some (Some (length (cells s)), s')
     \<and> untouched s s' \<and> errlog s' = errlog s
     \<and> owned_seccomp s' (length (cells s)) r'
     \<and> (\<forall>b \<in> set (seccomp_blocks s' (length (cells s)) r'). length (cells s) \<le> b)
     \<and> enabled r' = enabled r \<and> enabled_present r' = enabled_present r
     \<and> texts s' (seccomp_arrays_of r') = texts s (seccomp_arrays_of r)
     \<and> seccomp_residual r' = None
     \<and> seccomp_kept s p r s'
     \<and> (\<exists>t. free_runtime_spec_schema_features_linux_seccomp (Some (length (cells s))) s' = Some t
            \<and> seccomp_kept s p r t)
     \<and> (\<forall>b \<in> set (seccomp_blocks s' (length (cells s)) r'). \<forall>v.
            seccomp_kept s p r (heap_store b v s'))
     \<and> (\<exists>t. free_runtime_spec_schema_features_linux_seccomp (Some p) s' = Some t
            \<and> seccomp_kept s' (length (cells s)) r' t)"
proof -
  let ?n = "length (cells s)"
  from clone_seccomp_post [OF assms] obtain s' r' where
    call: "clone_runtime_spec_schema_features_linux_seccomp (Some p) s = Some (Some ?n, s')"
    and e: "errlog s' = errlog s" and u: "untouched s s'"
    and own: "owned_seccomp s' ?n r'"
    and fresh: "\<forall>b \<in> set (seccomp_blocks s' ?n r'). ?n \<le> b"
    and en: "enabled r' = enabled r" "enabled_present r' = enabled_present r"
    and res: "seccomp_residual r' = None"
    and tx: "texts s' (seccomp_arrays_of r') = texts s (seccomp_arrays_of r)"
    by blast
  have old: "\<forall>a \<in> set (seccomp_blocks s p r). a < ?n"
    using seccomp_blocks_live [OF assms(2)] by blast
  have "\<forall>a \<in> set (seccomp_blocks s p r). heap_load s' a = heap_load s a"
    using old untouched_load [OF u] by blast
  then have k: "seccomp_kept s p r s'" by (rule seccomp_kept_frame [OF assms(2)])
  then have src: "owned_seccomp s' p r" and bl: "seccomp_blocks s' p r = seccomp_blocks s p r"
    by (simp_all add: seccomp_kept_def)
  have dis: "set (seccomp_blocks s' p r) \<inter> set (seccomp_blocks s' ?n r') = {}"
  proof (rule ccontr)
    assume "set (seccomp_blocks s' p r) \<inter> set (seccomp_blocks s' ?n r') \<noteq> {}"
    then obtain a where a1: "a \<in> set (seccomp_blocks s' p r)"
      and a2: "a \<in> set (seccomp_blocks s' ?n r')" by blast
    from a1 bl old have "a < ?n" by simp
    moreover from a2 fresh have "?n \<le> a" by blast
    ultimately show False by simp
  qed
  from seccomp_release_other [OF src own dis] obtain t where
    t: "free_runtime_spec_schema_features_linux_seccomp (Some ?n) s' = Some t"
    and kt: "seccomp_kept s' p r t" by blast
  have rel: "\<exists>t. free_runtime_spec_schema_features_linux_seccomp (Some ?n) s' = Some t
      \<and> seccomp_kept s p r t"
    using t seccomp_kept_trans [OF k kt] by blast
  have mut: "\<forall>b \<in> set (seccomp_blocks s' ?n r'). \<forall>v. seccomp_kept s p r (heap_store b v s')"
  proof (intro ballI allI)
    fix b v assume "b \<in> set (seccomp_blocks s' ?n r')"
    with dis have "b \<notin> set (seccomp_blocks s' p r)" by blast
    from seccomp_kept_trans [OF k seccomp_store_other [OF src this]]
    show "seccomp_kept s p r (heap_store b v s')" .
  qed
  have dis': "set (seccomp_blocks s' ?n r') \<inter> set (seccomp_blocks s' p r) = {}"
    using dis by blast
  note other = seccomp_release_other [OF own src dis']
  show ?thesis
    by (rule exI [of _ s'], rule exI [of _ r'])
       (intro conjI call u e own fresh en tx res k rel mut other)
qed

lemma cgroup_blocks_live:
  assumes "owned_cgroup s p c" and "b \<in> set (cgroup_blocks p c)"
  shows "b < length (cells s)"
  using assms
  by (cases "cgroup_residual c")
     (auto simp: owned_cgroup_def cgroup_blocks_def tree_blocks_def tree_ok_def is_tree_def
       heap_load_def split: if_splits)

lemma owned_cgroup_frame:
  assumes "owned_cgroup s p c"
    and "\<forall>a \<in> set (cgroup_blocks p c). heap_load t a = heap_load s a"
  shows "owned_cgroup t p c"
  using assms
  by (cases "cgroup_residual c")
     (auto simp: owned_cgroup_def cgroup_blocks_def tree_blocks_def tree_ok_def)

lemma cgroup_kept_frame:
  assumes "owned_cgroup s p c"
    and "\<forall>a \<in> set (cgroup_blocks p c). heap_load t a = heap_load s a"
  shows "cgroup_kept s p c t"
  unfolding cgroup_kept_def using owned_cgroup_frame [OF assms] assms(2) by simp

lemma cgroup_kept_trans:
  "cgroup_kept s p c s' \<Longrightarrow> cgroup_kept s' p c t \<Longrightarrow> cgroup_kept s p c t"
  by (simp add: cgroup_kept_def)

lemma mount_extensions_blocks_live:
  assumes "owned_mount_extensions s p m" and "b \<in> set (mount_extensions_blocks s p m)"
  shows "b < length (cells s)"
proof -
  from assms(1) have p: "heap_load s p = Some (MountExt m)"
    and n: "nested_idmap_ok s (idmap m)" and t: "tree_ok s (mount_extensions_residual m)"
    by (simp_all add: owned_mount_extensions_def)
  from p have lp: "p < length (cells s)" by (auto simp: heap_load_def split: if_splits)
  have lt: "b \<in> set (tree_blocks (mount_extensions_residual m)) \<Longrightarrow> b < length (cells s)"
    using t by (cases "mount_extensions_residual m")
      (auto simp: tree_blocks_def tree_ok_def is_tree_def heap_load_def split: if_splits)
  have li: "b \<in> set (nested_idmap_blocks s (idmap m)) \<Longrightarrow> b < length (cells s)"
  proof (cases "idmap m")
    case None
    assume "b \<in> set (nested_idmap_blocks s (idmap m))"
    with None show ?thesis by (simp add: nested_idmap_blocks_def)
  next
    case (Some a)
    assume b: "b \<in> set (nested_idmap_blocks s (idmap m))"
    from n Some obtain x where x: "heap_load s a = Some (Idmap x)" and o: "owned_idmap s a x"
      by (auto simp: nested_idmap_ok_def split: option.splits obj.splits)
    from x have la: "a < length (cells s)" by (auto simp: heap_load_def split: if_splits)
    from o have "tree_ok s (idmap_residual x)" by (simp add: owned_idmap_def)
    then have "\<forall>c \<in> set (tree_blocks (idmap_residual x)). c < length (cells s)"
      by (cases "idmap_residual x")
         (auto simp: tree_blocks_def tree_ok_def is_tree_def heap_load_def split: if_splits)
    with b Some x la show ?thesis
      by (auto simp: nested_idmap_blocks_def idmap_blocks_def)
  qed
  from assms(2) lp lt li show ?thesis by (auto simp: mount_extensions_blocks_def)
qed

lemma mount_extensions_kept_frame:
  assumes "owned_mount_extensions s p m"
    and "\<forall>a \<in> set (mount_extensions_blocks s p m). heap_load t a = heap_load s a"
  shows "mount_extensions_kept s p m t"
proof -
  from assms(1) have p: "heap_load s p = Some (MountExt m)"
    and n: "nested_idmap_ok s (idmap m)" and tr: "tree_ok s (mount_extensions_residual m)"
    and d: "distinct (mount_extensions_blocks s p m)"
    by (simp_all add: owned_mount_extensions_def)
  from assms(2) have si: "\<forall>a \<in> set (nested_idmap_blocks s (idmap m)). heap_load t a = heap_load s a"
    and st: "\<forall>a \<in> set (tree_blocks (mount_extensions_residual m)). heap_load t a = heap_load s a"
    and sp: "heap_load t p = heap_load s p"
    by (simp_all add: mount_extensions_blocks_def)
  have i: "nested_idmap_ok t (idmap m)
      \<and> nested_idmap_blocks t (idmap m) = nested_idmap_blocks s (idmap m)
      \<and> nested_idmap t (idmap m) = nested_idmap s (idmap m)"
  proof (cases "idmap m")
    case None
    then show ?thesis
      by (simp add: nested_idmap_ok_def nested_idmap_blocks_def nested_idmap_def)
  next
    case (Some a)
    from n Some obtain x where x: "heap_load s a = Some (Idmap x)" and o: "owned_idmap s a x"
      by (auto simp: nested_idmap_ok_def split: option.splits obj.splits)
    from si Some x have sa: "heap_load t a = heap_load s a"
      and sx: "\<forall>c \<in> set (tree_blocks (idmap_residual x)). heap_load t c = heap_load s c"
      by (simp_all add: nested_idmap_blocks_def idmap_blocks_def)
    from o have "tree_ok s (idmap_residual x)" and dx: "distinct (idmap_blocks a x)"
      by (simp_all add: owned_idmap_def)
    from tree_ok_frame [OF this(1) sx] x sa dx have "owned_idmap t a x"
      by (simp add: owned_idmap_def)
    with Some x sa show ?thesis
      by (simp add: nested_idmap_ok_def nested_idmap_blocks_def nested_idmap_def)
  qed
  from i p sp tree_ok_frame [OF tr st] d assms(2) show ?thesis
    by (simp add: mount_extensions_kept_def owned_mount_extensions_def
        mount_extensions_blocks_def)
qed

lemma mount_extensions_kept_trans:
  "mount_extensions_kept s p m s' \<Longrightarrow> mount_extensions_kept s' p m t
   \<Longrightarrow> mount_extensions_kept s p m t"
  by (simp add: mount_extensions_kept_def)

lemma mount_extensions_release_other:
  assumes "owned_mount_extensions s p m" and "owned_mount_extensions s q x"
    and "set (mount_extensions_blocks s p m) \<inter> set (mount_extensions_blocks s q x) = {}"
  shows "\<exists>t. free_runtime_spec_schema_features_linux_mount_extensions (Some q) s = Some t
     \<and> mount_extensions_kept s p m t"
proof -
  let ?t = "release (set (mount_extensions_blocks s q x)) s"
  have "\<forall>a \<in> set (mount_extensions_blocks s p m). heap_load ?t a = heap_load s a"
    using assms(3) by auto
  then have "mount_extensions_kept s p m ?t" by (rule mount_extensions_kept_frame [OF assms(1)])
  with free_mount_extensions_ok [OF assms(2)] show ?thesis by simp
qed

lemma mount_extensions_store_other:
  assumes "owned_mount_extensions s p m" and "b \<notin> set (mount_extensions_blocks s p m)"
  shows "mount_extensions_kept s p m (heap_store b v s)"
proof -
  have "\<forall>a \<in> set (mount_extensions_blocks s p m).
      heap_load (heap_store b v s) a = heap_load s a"
    using assms(2) by auto
  then show ?thesis by (rule mount_extensions_kept_frame [OF assms(1)])
qed

lemma clone_mount_extensions_post:
  assumes "mem s = []" and "owned_mount_extensions s p m"
  shows "\<exists>s' m'. clone_runtime_spec_schema_features_linux_mount_extensions (Some p) s
        = Some (Some (length (cells s)), s')
     \<and> untouched s s' \<and> errlog s' = errlog s
     \<and> owned_mount_extensions s' (length (cells s)) m'
     \<and> (\<forall>b \<in> set (mount_extensions_blocks s' (length (cells s)) m'). length (cells s) \<le> b)
     \<and> nested_idmap s' (idmap m')
       = map_option (\<lambda>x. x\<lparr>idmap_residual := None\<rparr>) (nested_idmap s (idmap m))
     \<and> mount_extensions_residual m' = None"
proof -
  let ?n = "length (cells s)"
  from assms(2) have p: "heap_load s p = Some (MountExt m)"
    and n: "nested_idmap_ok s (idmap m)"
    by (simp_all add: owned_mount_extensions_def)
  from p have lp: "p < ?n" "cells s ! p = Some (MountExt m)"
    by (auto simp: heap_load_def split: if_splits)
  show ?thesis
  proof (cases "idmap m")
    case None
    let ?s' = "s\<lparr>cells := cells s @ [Some (MountExt zero_mount_extensions)]\<rparr>"
    have call: "clone_runtime_spec_schema_features_linux_mount_extensions (Some p) s
        = Some (Some ?n, ?s')"
      using assms(1) lp None
      by (simp add: clone_runtime_spec_schema_features_linux_mount_extensions_def alloc_ok
          heap_load_def nth_append)
    have bl: "mount_extensions_blocks ?s' ?n zero_mount_extensions = [?n]"
      by (simp add: mount_extensions_blocks_def zero_mount_extensions_def
          nested_idmap_blocks_def tree_blocks_def)
    have own: "owned_mount_extensions ?s' ?n zero_mount_extensions"
      unfolding owned_mount_extensions_def bl
      by (simp add: heap_load_def zero_mount_extensions_def nested_idmap_ok_def tree_ok_def)
    have fresh: "\<forall>b \<in> set (mount_extensions_blocks ?s' ?n zero_mount_extensions). ?n \<le> b"
      unfolding bl by simp
    have ni: "nested_idmap ?s' (idmap zero_mount_extensions)
        = map_option (\<lambda>x. x\<lparr>idmap_residual := None\<rparr>) (nested_idmap s (idmap m))"
      using None by (simp add: nested_idmap_def zero_mount_extensions_def)
    have res: "mount_extensions_residual zero_mount_extensions = None"
      by (simp add: zero_mount_extensions_def)
    have u: "untouched s ?s'" by simp
    have e: "errlog ?s' = errlog s" by simp
    show ?thesis
      by (rule exI [of _ ?s'], rule exI [of _ zero_mount_extensions])
         (intro conjI call u e own fresh ni res)
  next
    case (Some a)
    from n Some obtain x where x: "heap_load s a = Some (Idmap x)"
      by (auto simp: nested_idmap_ok_def split: option.splits obj.splits)
    then have la: "a < ?n" "cells s ! a = Some (Idmap x)"
      by (auto simp: heap_load_def split: if_splits)
    define m' where "m' = \<lparr>idmap = Some (Suc ?n), mount_extensions_residual = None\<rparr>"
    define s' where "s' = s\<lparr>cells := cells s @ [Some (MountExt m'),
        Some (Idmap (x\<lparr>idmap_residual := None\<rparr>))]\<rparr>"
    have call: "clone_runtime_spec_schema_features_linux_mount_extensions (Some p) s
        = Some (Some ?n, s')"
      using assms(1) lp la Some
      by (simp add: clone_runtime_spec_schema_features_linux_mount_extensions_def
          clone_runtime_spec_schema_features_linux_mount_extensions_idmap_def alloc_ok
          heap_load_def nth_append heap_store_def s'_def m'_def zero_mount_extensions_def
          zero_idmap_def list_update_append)
    have bl: "mount_extensions_blocks s' ?n m' = [Suc ?n, ?n]"
      by (simp add: mount_extensions_blocks_def s'_def m'_def nested_idmap_blocks_def
          idmap_blocks_def tree_blocks_def heap_load_def nth_append)
    have own: "owned_mount_extensions s' ?n m'"
      unfolding owned_mount_extensions_def bl
      by (simp add: heap_load_def s'_def m'_def nested_idmap_ok_def owned_idmap_def
          idmap_blocks_def tree_ok_def tree_blocks_def nth_append)
    have fresh: "\<forall>b \<in> set (mount_extensions_blocks s' ?n m'). ?n \<le> b"
      unfolding bl by simp
    have ni: "nested_idmap s' (idmap m')
        = map_option (\<lambda>x. x\<lparr>idmap_residual := None\<rparr>) (nested_idmap s (idmap m))"
      using Some x by (simp add: nested_idmap_def s'_def m'_def heap_load_def nth_append)
    have res: "mount_extensions_residual m' = None" by (simp add: m'_def)
    have u: "untouched s s'" by (simp add: s'_def)
    have e: "errlog s' = errlog s" by (simp add: s'_def)
    show ?thesis
      by (rule exI [of _ s'], rule exI [of _ m'])
         (intro conjI call u e own fresh ni res)
  qed
qed

lemma clone_mount_extensions_independent:
  assumes "mem s = []" and "owned_mount_extensions s p m"
  shows "\<exists>s' m'. clone_runtime_spec_schema_features_linux_mount_extensions (Some p) s
        = Some (Some (length (cells s)), s')
     \<and> untouched s s' \<and> errlog s' = errlog s
     \<and> owned_mount_extensions s' (length (cells s)) m'
     \<and> (\<forall>b \<in> set (mount_extensions_blocks s' (length (cells s)) m'). length (cells s) \<le> b)
     \<and> nested_idmap s' (idmap m')
       = map_option (\<lambda>x. x\<lparr>idmap_residual := None\<rparr>) (nested_idmap s (idmap m))
     \<and> mount_extensions_residual m' = None
     \<and> mount_extensions_kept s p m s'
     \<and> (\<exists>t. free_runtime_spec_schema_features_linux_mount_extensions (Some (length (cells s))) s'
              = Some t
            \<and> mount_extensions_kept s p m t)
     \<and> (\<forall>b \<in> set (mount_extensions_blocks s' (length (cells s)) m'). \<forall>v.
            mount_extensions_kept s p m (heap_store b v s'))
     \<and> (\<exists>t. free_runtime_spec_schema_features_linux_mount_extensions (Some p) s' = Some t
            \<and> mount_extensions_kept s' (length (cells s)) m' t)"
proof -
  let ?n = "length (cells s)"
  from clone_mount_extensions_post [OF assms] obtain s' m' where
    call: "clone_runtime_spec_schema_features_linux_mount_extensions (Some p) s
        = Some (Some ?n, s')"
    and e: "errlog s' = errlog s" and u: "untouched s s'"
    and own: "owned_mount_extensions s' ?n m'"
    and fresh: "\<forall>b \<in> set (mount_extensions_blocks s' ?n m'). ?n \<le> b"
    and ni: "nested_idmap s' (idmap m')
       = map_option (\<lambda>x. x\<lparr>idmap_residual := None\<rparr>) (nested_idmap s (idmap m))"
    and res: "mount_extensions_residual m' = None"
    by blast
  have old: "\<forall>a \<in> set (mount_extensions_blocks s p m). a < ?n"
    using mount_extensions_blocks_live [OF assms(2)] by blast
  have "\<forall>a \<in> set (mount_extensions_blocks s p m). heap_load s' a = heap_load s a"
    using old untouched_load [OF u] by blast
  then have k: "mount_extensions_kept s p m s'"
    by (rule mount_extensions_kept_frame [OF assms(2)])
  then have src: "owned_mount_extensions s' p m"
    and bl: "mount_extensions_blocks s' p m = mount_extensions_blocks s p m"
    by (simp_all add: mount_extensions_kept_def)
  have dis: "set (mount_extensions_blocks s' p m) \<inter> set (mount_extensions_blocks s' ?n m') = {}"
  proof (rule ccontr)
    assume "set (mount_extensions_blocks s' p m) \<inter> set (mount_extensions_blocks s' ?n m') \<noteq> {}"
    then obtain a where a1: "a \<in> set (mount_extensions_blocks s' p m)"
      and a2: "a \<in> set (mount_extensions_blocks s' ?n m')" by blast
    from a1 bl old have "a < ?n" by simp
    moreover from a2 fresh have "?n \<le> a" by blast
    ultimately show False by simp
  qed
  from mount_extensions_release_other [OF src own dis] obtain t where
    t: "free_runtime_spec_schema_features_linux_mount_extensions (Some ?n) s' = Some t"
    and kt: "mount_extensions_kept s' p m t" by blast
  have rel: "\<exists>t. free_runtime_spec_schema_features_linux_mount_extensions (Some ?n) s' = Some t
      \<and> mount_extensions_kept s p m t"
    using t mount_extensions_kept_trans [OF k kt] by blast
  have mut: "\<forall>b \<in> set (mount_extensions_blocks s' ?n m'). \<forall>v.
      mount_extensions_kept s p m (heap_store b v s')"
  proof (intro ballI allI)
    fix b v assume "b \<in> set (mount_extensions_blocks s' ?n m')"
    with dis have "b \<notin> set (mount_extensions_blocks s' p m)" by blast
    from mount_extensions_kept_trans [OF k mount_extensions_store_other [OF src this]]
    show "mount_extensions_kept s p m (heap_store b v s')" .
  qed
  have dis': "set (mount_extensions_blocks s' ?n m') \<inter> set (mount_extensions_blocks s' p m) = {}"
    using dis by blast
  note other = mount_extensions_release_other [OF own src dis']
  show ?thesis
    by (rule exI [of _ s'], rule exI [of _ m'])
       (intro conjI call u e own fresh ni res k rel mut other)
qed

lemma clone_cgroup_independent:
  assumes "mem s = []" and "owned_cgroup s p c"
  shows "\<exists>s'. clone_runtime_spec_schema_features_linux_cgroup (Some p) s
        = Some (Some (length (cells s)), s')
     \<and> untouched s s' \<and> errlog s' = errlog s
     \<and> owned_cgroup s' (length (cells s)) (c\<lparr>cgroup_residual := None\<rparr>)
     \<and> cgroup_kept s p c s'
     \<and> (\<exists>t. free_runtime_spec_schema_features_linux_cgroup (Some (length (cells s))) s' = Some t
            \<and> cgroup_kept s p c t)
     \<and> (\<forall>v. cgroup_kept s p c (heap_store (length (cells s)) v s'))
     \<and> (\<exists>t. free_runtime_spec_schema_features_linux_cgroup (Some p) s' = Some t
            \<and> cgroup_kept s' (length (cells s)) (c\<lparr>cgroup_residual := None\<rparr>) t)"
proof -
  let ?n = "length (cells s)"
  let ?c = "c\<lparr>cgroup_residual := None\<rparr>"
  let ?s' = "s\<lparr>cells := cells s @ [Some (Cgroup ?c)]\<rparr>"
  from assms(2) have p: "heap_load s p = Some (Cgroup c)" by (simp add: owned_cgroup_def)
  have call: "clone_runtime_spec_schema_features_linux_cgroup (Some p) s = Some (Some ?n, ?s')"
    by (rule clone_cgroup_ok [OF assms(1) p])
  have u: "untouched s ?s'" by simp
  have e: "errlog ?s' = errlog s" by simp
  have bl: "cgroup_blocks ?n ?c = [?n]" by (simp add: cgroup_blocks_def tree_blocks_def)
  have own: "owned_cgroup ?s' ?n ?c"
    unfolding owned_cgroup_def bl by (simp add: heap_load_def tree_ok_def)
  have old: "\<forall>a \<in> set (cgroup_blocks p c). a < ?n"
    using cgroup_blocks_live [OF assms(2)] by blast
  have "\<forall>a \<in> set (cgroup_blocks p c). heap_load ?s' a = heap_load s a"
    using old untouched_load [OF u] by blast
  then have k: "cgroup_kept s p c ?s'" by (rule cgroup_kept_frame [OF assms(2)])
  then have src: "owned_cgroup ?s' p c" by (simp add: cgroup_kept_def)
  have notin: "?n \<notin> set (cgroup_blocks p c)" using old by auto
  have "\<forall>a \<in> set (cgroup_blocks p c). heap_load (release (set (cgroup_blocks ?n ?c)) ?s') a
      = heap_load ?s' a"
    unfolding bl using notin by auto
  then have "cgroup_kept ?s' p c (release (set (cgroup_blocks ?n ?c)) ?s')"
    by (rule cgroup_kept_frame [OF src])
  from cgroup_kept_trans [OF k this] free_cgroup_ok [OF own]
  have rel: "\<exists>t. free_runtime_spec_schema_features_linux_cgroup (Some ?n) ?s' = Some t
      \<and> cgroup_kept s p c t" by simp
  have mut: "\<forall>v. cgroup_kept s p c (heap_store ?n v ?s')"
  proof
    fix v
    have "\<forall>a \<in> set (cgroup_blocks p c). heap_load (heap_store ?n v ?s') a = heap_load ?s' a"
      using notin by auto
    then have "cgroup_kept ?s' p c (heap_store ?n v ?s')" by (rule cgroup_kept_frame [OF src])
    with k show "cgroup_kept s p c (heap_store ?n v ?s')" by (rule cgroup_kept_trans)
  qed
  have "\<forall>a \<in> set (cgroup_blocks ?n ?c). heap_load (release (set (cgroup_blocks p c)) ?s') a
      = heap_load ?s' a"
    unfolding bl using notin by simp
  then have "cgroup_kept ?s' ?n ?c (release (set (cgroup_blocks p c)) ?s')"
    by (rule cgroup_kept_frame [OF own])
  with free_cgroup_ok [OF src]
  have other: "\<exists>t. free_runtime_spec_schema_features_linux_cgroup (Some p) ?s' = Some t
      \<and> cgroup_kept ?s' ?n ?c t" by simp
  show ?thesis
    by (rule exI [of _ ?s']) (intro conjI call u e own k rel mut other)
qed

lemma clone_seccomp_example:
  "clone_runtime_spec_schema_features_linux_seccomp (Some 0) seccomp_heap
   = Some (Some 5, seccomp_cloned)"
  by (simp add: seccomp_cloned_def clone_runtime_spec_schema_features_linux_seccomp_def alloc_def seccomp_heap_def
      seccomp_example_def zero_seccomp_def clone_string_array_def load_elements_def
      heap_load_def heap_store_def set_element_def eval_nat_numeral)

lemma clone_mount_extensions_example:
  "clone_runtime_spec_schema_features_linux_mount_extensions (Some 0) mount_heap
   = Some (Some 3, mount_cloned)"
  by (simp add: mount_cloned_def clone_runtime_spec_schema_features_linux_mount_extensions_def
      clone_runtime_spec_schema_features_linux_mount_extensions_idmap_def alloc_def
      mount_heap_def mount_example_def zero_mount_extensions_def zero_idmap_def
      heap_load_def heap_store_def)

lemma string_step:
  assumes "string_ok s0 x" and "p \<notin> set (string_blocks x)" and "set (string_blocks x) \<inter> B = {}"
  shows "free x (heap_store p X (release B s0))
    = Some (heap_store p X (release (B \<union> set (string_blocks x)) s0))"
proof (cases x)
  case None
  then show ?thesis by (simp add: string_blocks_def)
next
  case (Some a)
  let ?s = "heap_store p X (release B s0)"
  from assms Some have a: "a \<noteq> p" "a \<notin> B" and c: "is_chars (heap_load s0 a)"
    by (auto simp: string_blocks_def string_ok_def)
  from c have "heap_load s0 a \<noteq> None" by (auto simp: is_chars_def split: option.splits)
  with a have "heap_load ?s a \<noteq> None" by simp
  from free_live [OF this] a Some show ?thesis
    by (simp add: release_heap_store string_blocks_def Un_commute)
qed

lemma free_zos_ok:
  assumes "owned_zos s p z"
  shows "free_runtime_spec_schema_defs_zos_namespace_reference (Some p) s
    = Some (release (set (zos_blocks p z)) s)"
proof -
  let ?S1 = "string_blocks (type z)"
  let ?S2 = "string_blocks (path z)"
  let ?T = "tree_blocks (zos_residual z)"
  from assms have p: "heap_load s p = Some (Zos z)"
    and ok: "string_ok s (type z)" "string_ok s (path z)" "tree_ok s (zos_residual z)"
    and d: "distinct (?S1 @ ?S2 @ ?T @ [p])"
    by (simp_all add: owned_zos_def zos_blocks_def)
  from d have n: "p \<notin> set ?S1" "p \<notin> set ?S2" "p \<notin> set ?T"
    and dis: "set ?S2 \<inter> set ?S1 = {}" "set ?T \<inter> (set ?S1 \<union> set ?S2) = {}"
    by auto
  from p have live: "heap_load s p \<noteq> None" by simp
  have s: "s = heap_store p (Zos z) (release {} s)"
    using p by (simp add: heap_store_same)
  have 1: "free (type z) s = Some (heap_store p (Zos z) (release (set ?S1) s))"
    using string_step [OF ok(1) n(1), of "{}" "Zos z"] s by simp
  have 2: "heap_write p Y (heap_store p X (release (set ?S1) s))
      = Some (heap_store p Y (release (set ?S1) s))" for X Y
    by (rule write_step [OF live n(1)])
  have 3: "free (path z) (heap_store p X (release (set ?S1) s))
      = Some (heap_store p X (release (set ?S1 \<union> set ?S2) s))" for X
    by (rule string_step [OF ok(2) n(2) dis(1)])
  have n12: "p \<notin> set ?S1 \<union> set ?S2" using n by simp
  have 4: "heap_write p Y (heap_store p X (release (set ?S1 \<union> set ?S2) s))
      = Some (heap_store p Y (release (set ?S1 \<union> set ?S2) s))" for X Y
    by (rule write_step [OF live n12])
  have 5: "yajl_tree_free (zos_residual z) (heap_store p X (release (set ?S1 \<union> set ?S2) s))
      = Some (heap_store p X (release (set ?S1 \<union> set ?S2 \<union> set ?T) s))" for X
    by (rule tree_step [OF ok(3) n(3) dis(2)])
  have n123: "p \<notin> set ?S1 \<union> set ?S2 \<union> set ?T" using n by simp
  have 6: "heap_write p Y (heap_store p X (release (set ?S1 \<union> set ?S2 \<union> set ?T) s))
      = Some (heap_store p Y (release (set ?S1 \<union> set ?S2 \<union> set ?T) s))" for X Y
    by (rule write_step [OF live n123])
  have 7: "free (Some p) (heap_store p X (release (set ?S1 \<union> set ?S2 \<union> set ?T) s))
      = Some (release (set ?S1 \<union> set ?S2 \<union> set ?T \<union> {p}) s)" for X
    by (rule free_step [OF live n123])
  have e: "insert p (set ?S1 \<union> set ?S2 \<union> set ?T) = set (zos_blocks p z)"
    by (auto simp: zos_blocks_def)
  show ?thesis
    unfolding free_runtime_spec_schema_defs_zos_namespace_reference_def
    by (simp add: p 1 2 3 4 5 6 7 e)
qed

lemma zos_blocks_live:
  assumes "owned_zos s p z" and "b \<in> set (zos_blocks p z)"
  shows "b < length (cells s)"
proof -
  have st: "string_ok s x \<Longrightarrow> b \<in> set (string_blocks x) \<Longrightarrow> b < length (cells s)" for x
    by (cases x)
       (auto simp: string_ok_def string_blocks_def is_chars_def heap_load_def
         split: if_splits option.splits)
  have tr: "tree_ok s x \<Longrightarrow> b \<in> set (tree_blocks x) \<Longrightarrow> b < length (cells s)" for x
    by (cases x)
       (auto simp: tree_ok_def tree_blocks_def is_tree_def heap_load_def
         split: if_splits option.splits)
  from assms(1) have "heap_load s p = Some (Zos z)" by (simp add: owned_zos_def)
  then have "p < length (cells s)" by (auto simp: heap_load_def split: if_splits)
  with assms st tr show ?thesis by (auto simp: owned_zos_def zos_blocks_def)
qed

lemma owned_zos_frame:
  assumes "owned_zos s p z"
    and "\<forall>a \<in> set (zos_blocks p z). heap_load t a = heap_load s a"
  shows "owned_zos t p z"
proof -
  have st: "string_ok s x \<Longrightarrow> \<forall>a \<in> set (string_blocks x). heap_load t a = heap_load s a
      \<Longrightarrow> string_ok t x" for x
    by (cases x) (simp_all add: string_ok_def string_blocks_def)
  from assms st [of "type z"] st [of "path z"]
    tree_ok_frame [of s "zos_residual z" t]
  show ?thesis by (simp add: owned_zos_def zos_blocks_def)
qed

lemma zos_kept_frame:
  assumes "owned_zos s p z"
    and "\<forall>a \<in> set (zos_blocks p z). heap_load t a = heap_load s a"
  shows "zos_kept s p z t"
  unfolding zos_kept_def using owned_zos_frame [OF assms] assms(2) by simp

lemma zos_kept_trans:
  "zos_kept s p z s' \<Longrightarrow> zos_kept s' p z t \<Longrightarrow> zos_kept s p z t"
  by (simp add: zos_kept_def)

lemma zos_release_other:
  assumes "owned_zos s p z" and "owned_zos s q x"
    and "set (zos_blocks p z) \<inter> set (zos_blocks q x) = {}"
  shows "\<exists>t. free_runtime_spec_schema_defs_zos_namespace_reference (Some q) s = Some t
     \<and> zos_kept s p z t"
proof -
  let ?t = "release (set (zos_blocks q x)) s"
  have "\<forall>a \<in> set (zos_blocks p z). heap_load ?t a = heap_load s a"
    using assms(3) by auto
  then have "zos_kept s p z ?t" by (rule zos_kept_frame [OF assms(1)])
  with free_zos_ok [OF assms(2)] show ?thesis by simp
qed

lemma zos_store_other:
  assumes "owned_zos s p z" and "b \<notin> set (zos_blocks p z)"
  shows "zos_kept s p z (heap_store b v s)"
proof -
  have "\<forall>a \<in> set (zos_blocks p z). heap_load (heap_store b v s) a = heap_load s a"
    using assms(2) by auto
  then show ?thesis by (rule zos_kept_frame [OF assms(1)])
qed

lemma string_ok_cases:
  assumes "string_ok s x"
  obtains "x = None" | a str where "x = Some a" "a < length (cells s)" "cells s ! a = Some (Chars str)"
  using assms
  by (cases x)
     (auto simp: string_ok_def is_chars_def heap_load_def split: option.splits obj.splits if_splits)

lemma clone_zos_ok:
  assumes "mem s = []" and "owned_zos s p z"
  shows "clone_runtime_spec_schema_defs_zos_namespace_reference (Some p) s
    = Some (Some (length (cells s)), zos_cloned s z)"
proof -
  from assms(2) have p: "heap_load s p = Some (Zos z)"
    and ty: "string_ok s (type z)" and pa: "string_ok s (path z)"
    by (simp_all add: owned_zos_def)
  from p have lp: "p < length (cells s)" "cells s ! p = Some (Zos z)"
    by (auto simp: heap_load_def split: if_splits)
  note defs = clone_runtime_spec_schema_defs_zos_namespace_reference_def clone_string_def
    alloc_ok heap_load_def nth_append heap_store_def list_update_append zos_cloned_def
    zos_copy_def string_blocks_def zero_namespace_reference_def
  from ty show ?thesis
  proof (cases rule: string_ok_cases)
    case 1
    from pa show ?thesis
    proof (cases rule: string_ok_cases)
      case 1
      with \<open>type z = None\<close> assms(1) lp show ?thesis by (simp add: defs)
    next
      case (2 b str)
      with \<open>type z = None\<close> assms(1) lp show ?thesis by (simp add: defs)
    qed
  next
    case (2 a str)
    note t = this
    from pa show ?thesis
    proof (cases rule: string_ok_cases)
      case 1
      with t assms(1) lp show ?thesis by (simp add: defs)
    next
      case (2 b str')
      with t assms(1) lp show ?thesis by (simp add: defs)
    qed
  qed
qed

lemma zos_cloned_post:
  assumes "owned_zos s p z"
  shows "untouched s (zos_cloned s z)" and "errlog (zos_cloned s z) = errlog s"
    and "owned_zos (zos_cloned s z) (length (cells s)) (zos_copy s z)"
    and "\<forall>b \<in> set (zos_blocks (length (cells s)) (zos_copy s z)). length (cells s) \<le> b"
    and "load_string (zos_cloned s z) (type (zos_copy s z)) = load_string s (type z)"
    and "load_string (zos_cloned s z) (path (zos_copy s z)) = load_string s (path z)"
    and "zos_residual (zos_copy s z) = None"
proof -
  from assms have ty: "string_ok s (type z)" and pa: "string_ok s (path z)"
    by (simp_all add: owned_zos_def)
  show "untouched s (zos_cloned s z)" by (simp add: zos_cloned_def)
  show "errlog (zos_cloned s z) = errlog s" by (simp add: zos_cloned_def)
  show "zos_residual (zos_copy s z) = None" by (simp add: zos_copy_def)
  show "\<forall>b \<in> set (zos_blocks (length (cells s)) (zos_copy s z)). length (cells s) \<le> b"
    by (cases "type z"; cases "path z")
       (simp_all add: zos_blocks_def zos_copy_def string_blocks_def tree_blocks_def)
  note defs = zos_cloned_def zos_copy_def string_blocks_def load_string_def heap_load_def
    nth_append owned_zos_def zos_blocks_def string_ok_def tree_ok_def tree_blocks_def
    is_chars_def
  have T: "type z = None
      \<or> (\<exists>a str. type z = Some a \<and> a < length (cells s) \<and> cells s ! a = Some (Chars str))"
    using ty by (cases rule: string_ok_cases) auto
  have P: "path z = None
      \<or> (\<exists>a str. path z = Some a \<and> a < length (cells s) \<and> cells s ! a = Some (Chars str))"
    using pa by (cases rule: string_ok_cases) auto
  from T P show "owned_zos (zos_cloned s z) (length (cells s)) (zos_copy s z)"
    by (elim disjE exE conjE) (simp_all add: defs)
  from T P show "load_string (zos_cloned s z) (type (zos_copy s z)) = load_string s (type z)"
    by (elim disjE exE conjE) (simp_all add: defs)
  from T P show "load_string (zos_cloned s z) (path (zos_copy s z)) = load_string s (path z)"
    by (elim disjE exE conjE) (simp_all add: defs)
qed

lemma clone_zos_independent:
  assumes "mem s = []" and "owned_zos s p z"
  shows "\<exists>s' z'. clone_runtime_spec_schema_defs_zos_namespace_reference (Some p) s
        = Some (Some (length (cells s)), s')
     \<and> untouched s s' \<and> errlog s' = errlog s
     \<and> owned_zos s' (length (cells s)) z'
     \<and> (\<forall>b \<in> set (zos_blocks (length (cells s)) z'). length (cells s) \<le> b)
     \<and> load_string s' (type z') = load_string s (type z)
     \<and> load_string s' (path z') = load_string s (path z)
     \<and> zos_residual z' = None
     \<and> zos_kept s p z s'
     \<and> (\<exists>t. free_runtime_spec_schema_defs_zos_namespace_reference (Some (length (cells s))) s'
              = Some t
            \<and> zos_kept s p z t)
     \<and> (\<forall>b \<in> set (zos_blocks (length (cells s)) z'). \<forall>v. zos_kept s p z (heap_store b v s'))
     \<and> (\<exists>t. free_runtime_spec_schema_defs_zos_namespace_reference (Some p) s' = Some t
            \<and> zos_kept s' (length (cells s)) z' t)"
proof -
  let ?n = "length (cells s)"
  let ?s' = "zos_cloned s z"
  let ?z' = "zos_copy s z"
  note call = clone_zos_ok [OF assms]
  note post = zos_cloned_post [OF assms(2)]
  note u = post(1) and e = post(2) and own = post(3) and fresh = post(4)
    and ty = post(5) and pa = post(6) and res = post(7)
  have old: "\<forall>a \<in> set (zos_blocks p z). a < ?n"
    using zos_blocks_live [OF assms(2)] by blast
  have "\<forall>a \<in> set (zos_blocks p z). heap_load ?s' a = heap_load s a"
    using old untouched_load [OF u] by blast
  then have k: "zos_kept s p z ?s'" by (rule zos_kept_frame [OF assms(2)])
  then have src: "owned_zos ?s' p z" by (simp add: zos_kept_def)
  have dis: "set (zos_blocks p z) \<inter> set (zos_blocks ?n ?z') = {}"
  proof (rule ccontr)
    assume "set (zos_blocks p z) \<inter> set (zos_blocks ?n ?z') \<noteq> {}"
    then obtain a where a1: "a \<in> set (zos_blocks p z)"
      and a2: "a \<in> set (zos_blocks ?n ?z')" by blast
    from a1 old have "a < ?n" by simp
    moreover from a2 fresh have "?n \<le> a" by blast
    ultimately show False by simp
  qed
  from zos_release_other [OF src own dis] obtain t where
    t: "free_runtime_spec_schema_defs_zos_namespace_reference (Some ?n) ?s' = Some t"
    and kt: "zos_kept ?s' p z t" by blast
  have rel: "\<exists>t. free_runtime_spec_schema_defs_zos_namespace_reference (Some ?n) ?s' = Some t
      \<and> zos_kept s p z t"
    using t zos_kept_trans [OF k kt] by blast
  have mut: "\<forall>b \<in> set (zos_blocks ?n ?z'). \<forall>v. zos_kept s p z (heap_store b v ?s')"
  proof (intro ballI allI)
    fix b v assume "b \<in> set (zos_blocks ?n ?z')"
    with dis have "b \<notin> set (zos_blocks p z)" by blast
    from zos_kept_trans [OF k zos_store_other [OF src this]]
    show "zos_kept s p z (heap_store b v ?s')" .
  qed
  have dis': "set (zos_blocks ?n ?z') \<inter> set (zos_blocks p z) = {}"
    using dis by blast
  note other = zos_release_other [OF own src dis']
  show ?thesis
    by (rule exI [of _ ?s'], rule exI [of _ ?z'])
       (intro conjI call u e own fresh ty pa res k rel mut other)
qed

lemma clone_zos_example:
  "clone_runtime_spec_schema_defs_zos_namespace_reference (Some 0) zos_heap
   = Some (Some 4, zos_heap_cloned)"
  by (simp add: clone_runtime_spec_schema_defs_zos_namespace_reference_def clone_string_def
      alloc_def zos_heap_def zos_heap_cloned_def heap_load_def heap_store_def
      zero_namespace_reference_def)

section \<open>Decoding an absent tree\<close>

text \<open>
  Claim C3, as the code has it. Every decoder starts with \<^verbatim>\<open>*err = NULL\<close> and
  \<^verbatim>\<open>if (tree == NULL) return NULL\<close>: for an absent tree it returns no record and sets no
  error, whether the type has a required field (the zos namespace reference) or not (the
  cgroup record), and it touches neither the heap nor the error file.
\<close>

theorem decode_absent_tree:
  "make_runtime_spec_schema_features_linux_cgroup None ctx s
     = Some \<lparr>ret = None, err = None, tree_after = None, st = s\<rparr>
   \<and> make_runtime_spec_schema_defs_zos_namespace_reference None ctx s
     = Some \<lparr>ret = None, err = None, tree_after = None, st = s\<rparr>"
  by (simp add: make_absent)

text \<open>
  Claim C3 as stated fails: for the absent tree the cgroup decoder returns \<^verbatim>\<open>NULL\<close>, not
  a record of absent fields, and the zos decoder leaves \<^verbatim>\<open>*err\<close> at \<^verbatim>\<open>NULL\<close>, naming no
  missing field.
\<close>

theorem decode_absent_tree_counterexample:
  "map_option ret (make_runtime_spec_schema_features_linux_cgroup None ctx_plain empty_state)
     = Some None
   \<and> map_option err
       (make_runtime_spec_schema_defs_zos_namespace_reference None ctx_plain empty_state)
     = Some None"
  by (simp add: make_absent)

section \<open>The required field\<close>

text \<open>
  Claim C6. Decoding the empty object against the zos namespace reference, whose field
  \<open>type\<close> is required, returns no record and sets \<^verbatim>\<open>*err\<close> to a message that names the
  field; the record under construction is released again. (The allocations of the call
  succeed: the message itself is allocated.)
\<close>

theorem decode_empty_object_zos:
  "mem s = [] \<Longrightarrow>
   make_runtime_spec_schema_defs_zos_namespace_reference (Some (YObject [])) ctx s
     = Some \<lparr>ret = None, err = Some (Suc (length (cells s))), tree_after = Some (YObject []),
             st = s\<lparr>cells := cells s @ [None, Some (Chars ''Required field 'type' not present'')]\<rparr>\<rparr>"
  by (simp add: make_runtime_spec_schema_defs_zos_namespace_reference_def alloc_ok
      get_string_def get_val_empty required_field_error_def zos_return_null_def
      free_runtime_spec_schema_defs_zos_namespace_reference_def heap_store_def heap_load_def
      heap_write_def free_def yajl_tree_free_def zero_namespace_reference_def nth_append
      required_field_message_type)

theorem decode_empty_object_zos_witness:
  "mem empty_state = []
   \<and> make_runtime_spec_schema_defs_zos_namespace_reference (Some (YObject [])) ctx_plain empty_state
     = Some \<lparr>ret = None, err = Some 1, tree_after = Some (YObject []),
             st = \<lparr>cells = [None, Some (Chars ''Required field 'type' not present'')],
                    mem = [], errlog = []\<rparr>\<rparr>"
  using decode_empty_object_zos [of empty_state ctx_plain]
  by (simp add: empty_state_def)

section \<open>The tri-state booleans\<close>

text \<open>
  Claim C4. For each boolean field of the cgroup record: when the object has no such
  key the field is absent, when the value of the key is JSON false the field is present
  and false, when it is JSON true the field is present and true; the clone of the decoded
  record has the same presence flag and value. (The object is one the parser built, with
  no nulled key, and the allocations succeed.)
\<close>

theorem tri_state_booleans:
  assumes "mem s = []" and "None \<notin> fst ` set slots"
  shows "\<exists>m r c s' r'.
     make_runtime_spec_schema_features_linux_cgroup (Some (YObject slots)) ctx s = Some m
   \<and> ret m = Some (length (cells s))
   \<and> heap_load (st m) (length (cells s)) = Some (Cgroup r)
   \<and> clone_runtime_spec_schema_features_linux_cgroup (ret m) (st m) = Some (Some c, s')
   \<and> heap_load s' c = Some (Cgroup r')
   \<and> (\<forall>(name, present, val) \<in> set cgroup_fields.
        (map_of slots (Some name) = None \<longrightarrow> \<not> present r \<and> \<not> present r')
      \<and> (map_of slots (Some name) = Some (Some YFalse) \<longrightarrow>
            present r \<and> \<not> val r \<and> present r' \<and> \<not> val r')
      \<and> (map_of slots (Some name) = Some (Some YTrue) \<longrightarrow>
            present r \<and> val r \<and> present r' \<and> val r'))"
proof -
  let ?t = "YObject slots"
  let ?n = "length (cells s)"
  obtain m where m: "make_runtime_spec_schema_features_linux_cgroup (Some ?t) ctx s = Some m"
    using make_cgroup_ok [OF assms] by blast
  define r where "r = (read_cgroup ?t)\<lparr>cgroup_residual :=
      if OPT_PARSE_FULLKEY ctx then Some (Suc ?n) else None\<rparr>"
  have ret: "ret m = Some ?n"
    using m make_cgroup_ok [OF assms, of ctx] by (auto split: if_splits)
  have load: "heap_load (st m) ?n = Some (Cgroup r)"
    using m make_cgroup_ok [OF assms, of ctx]
    by (auto simp: r_def heap_load_def read_cgroup_def zero_cgroup_def split: if_splits)
  have mem: "mem (st m) = []"
    using m make_cgroup_ok [OF assms, of ctx] assms(1) by (auto split: if_splits)
  let ?s' = "(st m)\<lparr>cells := cells (st m) @ [Some (Cgroup (r\<lparr>cgroup_residual := None\<rparr>))]\<rparr>"
  have clone: "clone_runtime_spec_schema_features_linux_cgroup (ret m) (st m)
      = Some (Some (length (cells (st m))), ?s')"
    using clone_cgroup_ok [OF mem load] ret by simp
  have load': "heap_load ?s' (length (cells (st m))) = Some (Cgroup (r\<lparr>cgroup_residual := None\<rparr>))"
    by (simp add: heap_load_def)
  have fields: "\<forall>(name, present, val) \<in> set cgroup_fields.
        (map_of slots (Some name) = None \<longrightarrow>
           \<not> present r \<and> \<not> present (r\<lparr>cgroup_residual := None\<rparr>))
      \<and> (map_of slots (Some name) = Some (Some YFalse) \<longrightarrow>
            present r \<and> \<not> val r \<and> present (r\<lparr>cgroup_residual := None\<rparr>)
            \<and> \<not> val (r\<lparr>cgroup_residual := None\<rparr>))
      \<and> (map_of slots (Some name) = Some (Some YTrue) \<longrightarrow>
            present r \<and> val r \<and> present (r\<lparr>cgroup_residual := None\<rparr>)
            \<and> val (r\<lparr>cgroup_residual := None\<rparr>))"
  proof (clarify)
    fix name present val
    assume f: "(name, present, val) \<in> set cgroup_fields"
    from read_cgroup_fields [OF f, of ?t] cgroup_fields_residual [OF f]
    have "present r = snd (get_bool ?t name)" "val r = fst (get_bool ?t name)"
      "present (r\<lparr>cgroup_residual := None\<rparr>) = snd (get_bool ?t name)"
      "val (r\<lparr>cgroup_residual := None\<rparr>) = fst (get_bool ?t name)"
      by (simp_all add: r_def)
    then show "(map_of slots (Some name) = None \<longrightarrow>
           \<not> present r \<and> \<not> present (r\<lparr>cgroup_residual := None\<rparr>))
      \<and> (map_of slots (Some name) = Some (Some YFalse) \<longrightarrow>
            present r \<and> \<not> val r \<and> present (r\<lparr>cgroup_residual := None\<rparr>)
            \<and> \<not> val (r\<lparr>cgroup_residual := None\<rparr>))
      \<and> (map_of slots (Some name) = Some (Some YTrue) \<longrightarrow>
            present r \<and> val r \<and> present (r\<lparr>cgroup_residual := None\<rparr>)
            \<and> val (r\<lparr>cgroup_residual := None\<rparr>))"
      by (simp add: get_bool_object)
  qed
  from m ret load clone load' fields show ?thesis by blast
qed

theorem tri_state_booleans_witness:
  "mem empty_state = [] \<and> None \<notin> fst ` set v1_and_unknown
   \<and> (\<exists>m r c s' r'.
     make_runtime_spec_schema_features_linux_cgroup (Some (YObject v1_and_unknown)) ctx_fullkey
       empty_state = Some m
   \<and> heap_load (st m) 0 = Some (Cgroup r)
   \<and> clone_runtime_spec_schema_features_linux_cgroup (ret m) (st m) = Some (Some c, s')
   \<and> heap_load s' c = Some (Cgroup r')
   \<and> v1_present r \<and> v1 r \<and> v1_present r' \<and> v1 r'
   \<and> \<not> v2_present r \<and> \<not> v2_present r')"
proof -
  have m: "mem empty_state = []" by (simp add: empty_state_def)
  have k: "None \<notin> fst ` set v1_and_unknown" by (simp add: v1_and_unknown_def)
  from tri_state_booleans [OF m k, of ctx_fullkey] obtain m r c s' r' where
    a: "make_runtime_spec_schema_features_linux_cgroup (Some (YObject v1_and_unknown)) ctx_fullkey
       empty_state = Some m"
    "heap_load (st m) (length (cells empty_state)) = Some (Cgroup r)"
    "clone_runtime_spec_schema_features_linux_cgroup (ret m) (st m) = Some (Some c, s')"
    "heap_load s' c = Some (Cgroup r')"
    and f: "\<forall>(name, present, val) \<in> set cgroup_fields.
        (map_of v1_and_unknown (Some name) = None \<longrightarrow> \<not> present r \<and> \<not> present r')
      \<and> (map_of v1_and_unknown (Some name) = Some (Some YFalse) \<longrightarrow>
            present r \<and> \<not> val r \<and> present r' \<and> \<not> val r')
      \<and> (map_of v1_and_unknown (Some name) = Some (Some YTrue) \<longrightarrow>
            present r \<and> val r \<and> present r' \<and> val r')"
    by blast
  from f have "v1_present r \<and> v1 r \<and> v1_present r' \<and> v1 r'
      \<and> \<not> v2_present r \<and> \<not> v2_present r'"
    by (simp add: cgroup_fields_def v1_and_unknown_def)
  with a m k show ?thesis by (auto simp: empty_state_def)
qed

section \<open>Strict mode only warns\<close>

text \<open>
  Claim C8. For every tree, context and state, the decoders give the same outcome
  (returned record, error, source tree, heap, remaining allocator script) with
  \<^verbatim>\<open>OPT_PARSE_STRICT\<close> set as with it clear. Without the option nothing is written to the
  error file; with it, one warning line is written exactly when the decoder returns a
  record, \<^verbatim>\<open>ctx->errfile\<close> is set and the object has an unknown key.
\<close>

theorem strict_only_warns:
  "map_option outcome
     (make_runtime_spec_schema_features_linux_cgroup tree (ctx\<lparr>OPT_PARSE_STRICT := True\<rparr>) s)
   = map_option outcome
       (make_runtime_spec_schema_features_linux_cgroup tree (ctx\<lparr>OPT_PARSE_STRICT := False\<rparr>) s)
   \<and> (\<forall>m. make_runtime_spec_schema_features_linux_cgroup tree
              (ctx\<lparr>OPT_PARSE_STRICT := False\<rparr>) s = Some m \<longrightarrow> errlog (st m) = errlog s)
   \<and> (\<forall>m. make_runtime_spec_schema_features_linux_cgroup tree
              (ctx\<lparr>OPT_PARSE_STRICT := True\<rparr>) s = Some m \<longrightarrow>
            errlog (st m) = errlog s @
              (if ret m \<noteq> None \<and> errfile ctx \<and> tree_has_unknown cgroup_keys tree
               then [unknown_key_warning] else []))
   \<and> map_option outcome
       (make_runtime_spec_schema_defs_zos_namespace_reference tree
          (ctx\<lparr>OPT_PARSE_STRICT := True\<rparr>) s)
     = map_option outcome
         (make_runtime_spec_schema_defs_zos_namespace_reference tree
            (ctx\<lparr>OPT_PARSE_STRICT := False\<rparr>) s)
   \<and> (\<forall>m. make_runtime_spec_schema_defs_zos_namespace_reference tree
              (ctx\<lparr>OPT_PARSE_STRICT := False\<rparr>) s = Some m \<longrightarrow> errlog (st m) = errlog s)
   \<and> (\<forall>m. make_runtime_spec_schema_defs_zos_namespace_reference tree
              (ctx\<lparr>OPT_PARSE_STRICT := True\<rparr>) s = Some m \<longrightarrow>
            errlog (st m) = errlog s @
              (if ret m \<noteq> None \<and> errfile ctx \<and> tree_has_unknown zos_keys tree
               then [unknown_key_warning] else []))"
proof -
  let ?lax = "ctx\<lparr>OPT_PARSE_STRICT := False\<rparr>"
  have lax: "\<not> OPT_PARSE_STRICT ?lax" by simp
  have c1: "map_option outcome
     (make_runtime_spec_schema_features_linux_cgroup tree (ctx\<lparr>OPT_PARSE_STRICT := True\<rparr>) s)
   = map_option outcome (make_runtime_spec_schema_features_linux_cgroup tree ?lax s)"
    by (simp add: make_cgroup_strict option.map_comp comp_def outcome_add_warning)
  have c2: "\<forall>m. make_runtime_spec_schema_features_linux_cgroup tree ?lax s = Some m
      \<longrightarrow> errlog (st m) = errlog s"
    using errlog_make_cgroup_lax [OF lax] by blast
  have c3: "\<forall>m. make_runtime_spec_schema_features_linux_cgroup tree
              (ctx\<lparr>OPT_PARSE_STRICT := True\<rparr>) s = Some m \<longrightarrow>
            errlog (st m) = errlog s @
              (if ret m \<noteq> None \<and> errfile ctx \<and> tree_has_unknown cgroup_keys tree
               then [unknown_key_warning] else [])"
    using errlog_make_cgroup_lax [OF lax, of tree s]
    by (auto simp: make_cgroup_strict errlog_add_warning ret_add_warning)
  have z1: "map_option outcome
     (make_runtime_spec_schema_defs_zos_namespace_reference tree (ctx\<lparr>OPT_PARSE_STRICT := True\<rparr>) s)
   = map_option outcome (make_runtime_spec_schema_defs_zos_namespace_reference tree ?lax s)"
    by (simp add: make_zos_strict option.map_comp comp_def outcome_add_warning)
  have z2: "\<forall>m. make_runtime_spec_schema_defs_zos_namespace_reference tree ?lax s = Some m
      \<longrightarrow> errlog (st m) = errlog s"
    using errlog_make_zos_lax [OF lax] by blast
  have z3: "\<forall>m. make_runtime_spec_schema_defs_zos_namespace_reference tree
              (ctx\<lparr>OPT_PARSE_STRICT := True\<rparr>) s = Some m \<longrightarrow>
            errlog (st m) = errlog s @
              (if ret m \<noteq> None \<and> errfile ctx \<and> tree_has_unknown zos_keys tree
               then [unknown_key_warning] else [])"
    using errlog_make_zos_lax [OF lax, of tree s]
    by (auto simp: make_zos_strict errlog_add_warning ret_add_warning)
  from c1 c2 c3 z1 z2 z3 show ?thesis by blast
qed

theorem strict_only_warns_witness:
  "map_option (errlog \<circ> st)
     (make_runtime_spec_schema_features_linux_cgroup (Some (YObject v1_and_unknown))
        (ctx_fullkey\<lparr>OPT_PARSE_STRICT := True\<rparr>) empty_state) = Some [unknown_key_warning]
   \<and> map_option (errlog \<circ> st)
     (make_runtime_spec_schema_features_linux_cgroup (Some (YObject v1_and_unknown))
        (ctx_fullkey\<lparr>OPT_PARSE_STRICT := False\<rparr>) empty_state) = Some []"
proof -
  let ?t = "Some (YObject v1_and_unknown)"
  have u: "tree_has_unknown cgroup_keys ?t"
    by (simp add: tree_has_unknown_def has_unknown_def unknown_slots_def v1_and_unknown_def
        cgroup_keys_def)
  have e: "errfile ctx_fullkey" by (simp add: example_defs)
  have "\<exists>m. make_runtime_spec_schema_features_linux_cgroup ?t
        (ctx_fullkey\<lparr>OPT_PARSE_STRICT := True\<rparr>) empty_state = Some m \<and> ret m \<noteq> None"
    unfolding make_cgroup_example
    by (simp add: ctx_fullkey_def ctx_plain_def add_warning_def)
  then obtain m where m: "make_runtime_spec_schema_features_linux_cgroup ?t
        (ctx_fullkey\<lparr>OPT_PARSE_STRICT := True\<rparr>) empty_state = Some m" "ret m \<noteq> None"
    by blast
  obtain m' where m': "make_runtime_spec_schema_features_linux_cgroup ?t
        (ctx_fullkey\<lparr>OPT_PARSE_STRICT := False\<rparr>) empty_state = Some m'"
    by (simp add: make_cgroup_example)
  from strict_only_warns [of ?t ctx_fullkey empty_state] m m' u e
  have "errlog (st m) = [unknown_key_warning]" "errlog (st m') = []"
    by (simp_all add: empty_state_def)
  with m m' show ?thesis by simp
qed

section \<open>Decoding without capture leaves the tree alone\<close>

text \<open>
  Claim C10. With \<^verbatim>\<open>OPT_PARSE_FULLKEY\<close> clear, whatever the other options, the source tree
  is after the call what it was before: no slot of the object is nulled.
\<close>

theorem decode_keeps_tree:
  "\<not> OPT_PARSE_FULLKEY ctx \<Longrightarrow>
   (\<forall>m. make_runtime_spec_schema_features_linux_cgroup tree ctx s = Some m
        \<longrightarrow> tree_after m = tree)
   \<and> (\<forall>m. make_runtime_spec_schema_defs_zos_namespace_reference tree ctx s = Some m
        \<longrightarrow> tree_after m = tree)"
  using make_cgroup_keeps_tree make_zos_keeps_tree by blast

theorem decode_keeps_tree_witness:
  "\<not> OPT_PARSE_FULLKEY ctx_plain
   \<and> map_option tree_after
       (make_runtime_spec_schema_features_linux_cgroup (Some (YObject v1_and_unknown)) ctx_plain
          empty_state) = Some (Some (YObject v1_and_unknown))"
proof -
  have f: "\<not> OPT_PARSE_FULLKEY ctx_plain" by (simp add: ctx_plain_def)
  obtain m where m: "make_runtime_spec_schema_features_linux_cgroup (Some (YObject v1_and_unknown))
      ctx_plain empty_state = Some m"
    by (simp add: make_cgroup_example)
  from decode_keeps_tree [OF f, of "Some (YObject v1_and_unknown)" empty_state] m
  have "tree_after m = Some (YObject v1_and_unknown)" by blast
  with f m show ?thesis by simp
qed

section \<open>String fields\<close>

text \<open>
  Claim C5. A string field is read with \<^verbatim>\<open>get_val\<close> asking for a string, and the
  decoder stores \<^verbatim>\<open>strdup (str ? str : "")\<close> for the text \<^verbatim>\<open>str\<close> of the value found. When
  the key \<open>type\<close> is present the decoder returns a record whose field \<open>type\<close> is a new
  block holding the content of the value when it is a JSON string, and the empty string
  when it is of another kind; the field \<open>path\<close> holds the same for the key \<open>path\<close> and is
  \<^verbatim>\<open>NULL\<close> when that key is missing. Only a missing key \<open>type\<close> makes the decoder fail, with
  the message of the missing required field. (The object has no nulled key and the
  allocations succeed.)
\<close>

theorem string_fields:
  assumes "mem s = []" and "None \<notin> fst ` set slots"
  shows "(\<forall>v. map_of slots (Some ''type'') = Some (Some v) \<longrightarrow>
            (\<exists>m r. make_runtime_spec_schema_defs_zos_namespace_reference
                      (Some (YObject slots)) ctx s = Some m
                 \<and> ret m = Some (length (cells s)) \<and> err m = None
                 \<and> heap_load (st m) (length (cells s)) = Some (Zos r)
                 \<and> type r = Some (Suc (length (cells s)))
                 \<and> load_chars (st m) (type r) = Some (Some (string_content v))
                 \<and> load_chars (st m) (path r)
                   = Some (case map_of slots (Some ''path'') of
                             Some (Some w) \<Rightarrow> Some (string_content w) | _ \<Rightarrow> None)))
       \<and> (\<forall>x. string_content (YString x) = x)
       \<and> (\<forall>v. type_of v \<noteq> yajl_t_string \<longrightarrow> string_content v = [])
       \<and> (string_value slots ''type'' = None \<longrightarrow>
            (\<exists>m e. make_runtime_spec_schema_defs_zos_namespace_reference
                      (Some (YObject slots)) ctx s = Some m
                 \<and> ret m = None \<and> err m = Some e
                 \<and> heap_load (st m) e = Some (Chars ''Required field 'type' not present'')))"
proof (intro conjI allI impI)
  fix v
  assume "map_of slots (Some ''type'') = Some (Some v)"
  then have ty: "string_value slots ''type'' = Some (string_content v)"
    by (simp add: string_value_def)
  have pa: "(case map_of slots (Some ''path'') of
               Some (Some w) \<Rightarrow> Some (string_content w) | _ \<Rightarrow> None)
      = string_value slots ''path''"
    by (simp add: string_value_def)
  show "\<exists>m r. make_runtime_spec_schema_defs_zos_namespace_reference
                      (Some (YObject slots)) ctx s = Some m
                 \<and> ret m = Some (length (cells s)) \<and> err m = None
                 \<and> heap_load (st m) (length (cells s)) = Some (Zos r)
                 \<and> type r = Some (Suc (length (cells s)))
                 \<and> load_chars (st m) (type r) = Some (Some (string_content v))
                 \<and> load_chars (st m) (path r)
                   = Some (case map_of slots (Some ''path'') of
                             Some (Some w) \<Rightarrow> Some (string_content w) | _ \<Rightarrow> None)"
    unfolding make_zos_ok [OF assms ty] pa
    by (cases "string_value slots ''path''")
       (simp_all add: heap_load_def load_chars_def nth_append)
next
  fix x
  show "string_content (YString x) = x" by (simp add: string_content_def)
next
  fix v
  assume "type_of v \<noteq> yajl_t_string"
  then show "string_content v = []" by (cases v) (simp_all add: string_content_def)
next
  assume ty: "string_value slots ''type'' = None"
  show "\<exists>m e. make_runtime_spec_schema_defs_zos_namespace_reference
                      (Some (YObject slots)) ctx s = Some m
                 \<and> ret m = None \<and> err m = Some e
                 \<and> heap_load (st m) e = Some (Chars ''Required field 'type' not present'')"
    unfolding make_zos_missing_type [OF assms(1) ty]
    by (cases "string_value slots ''path''") (simp_all add: heap_load_def nth_append)
qed

theorem string_fields_witness:
  "mem empty_state = [] \<and> None \<notin> fst ` set type_and_path
   \<and> map_of type_and_path (Some ''type'') = Some (Some (YString ''pid''))
   \<and> map_of type_and_path (Some ''path'') = Some (Some (YNumber ''7''))
   \<and> make_runtime_spec_schema_defs_zos_namespace_reference (Some (YObject type_and_path))
       ctx_plain empty_state
     = Some \<lparr>ret = Some 0, err = None, tree_after = Some (YObject type_and_path),
             st = \<lparr>cells = [Some (Zos \<lparr>type = Some 1, path = Some 2, zos_residual = None\<rparr>),
                             Some (Chars ''pid''), Some (Chars [])],
                    mem = [], errlog = []\<rparr>\<rparr>
   \<and> None \<notin> fst ` set type_not_string
   \<and> map_of type_not_string (Some ''type'') = Some (Some (YNumber ''7''))
   \<and> type_of (YNumber ''7'') \<noteq> yajl_t_string
   \<and> (\<exists>m r. make_runtime_spec_schema_defs_zos_namespace_reference
                (Some (YObject type_not_string)) ctx_plain empty_state = Some m
          \<and> ret m = Some 0 \<and> err m = None
          \<and> heap_load (st m) 0 = Some (Zos r)
          \<and> load_chars (st m) (type r) = Some (Some [])
          \<and> load_chars (st m) (path r) = Some None)"
proof -
  have m: "mem empty_state = []" by (simp add: empty_state_def)
  have k: "None \<notin> fst ` set type_and_path" by (simp add: type_and_path_def)
  have t: "map_of type_and_path (Some ''type'') = Some (Some (YString ''pid''))"
    and p: "map_of type_and_path (Some ''path'') = Some (Some (YNumber ''7''))"
    by (simp_all add: type_and_path_def)
  have k': "None \<notin> fst ` set type_not_string" by (simp add: type_not_string_def)
  have t': "map_of type_not_string (Some ''type'') = Some (Some (YNumber ''7''))"
    and p': "map_of type_not_string (Some ''path'') = None"
    by (simp_all add: type_not_string_def)
  have n: "type_of (YNumber ''7'') \<noteq> yajl_t_string" by simp
  have sv: "string_value type_and_path ''type'' = Some ''pid''"
    and u: "unknown_slots zos_keys type_and_path = []"
    and sp: "string_value type_and_path ''path'' = Some []"
    by (simp_all add: string_value_def string_content_def type_and_path_def
        unknown_slots_def zos_keys_def)
  have a: "make_runtime_spec_schema_defs_zos_namespace_reference (Some (YObject type_and_path))
       ctx_plain empty_state
     = Some \<lparr>ret = Some 0, err = None, tree_after = Some (YObject type_and_path),
             st = \<lparr>cells = [Some (Zos \<lparr>type = Some 1, path = Some 2, zos_residual = None\<rparr>),
                             Some (Chars ''pid''), Some (Chars [])],
                    mem = [], errlog = []\<rparr>\<rparr>"
    unfolding make_zos_ok [OF m k sv]
    by (simp add: sp u add_warning_def ctx_plain_def empty_state_def)
  have e: "string_content (YNumber ''7'') = []"
    using string_fields [OF m k', of ctx_plain] n by blast
  from string_fields [OF m k', of ctx_plain] t'
  have b: "\<exists>m r. make_runtime_spec_schema_defs_zos_namespace_reference
                (Some (YObject type_not_string)) ctx_plain empty_state = Some m
          \<and> ret m = Some 0 \<and> err m = None
          \<and> heap_load (st m) 0 = Some (Zos r)
          \<and> load_chars (st m) (type r) = Some (Some [])
          \<and> load_chars (st m) (path r) = Some None"
    by (auto simp: e p' empty_state_def)
  from m k t p a k' t' n b show ?thesis by (intro conjI)
qed

section \<open>Decoding and encoding again\<close>

text \<open>
  Claim C1, as the code has it. Decoding an object with \<^verbatim>\<open>OPT_PARSE_FULLKEY\<close> moves the
  unknown entries, in their order, into the residual object of the record and nulls them
  in the source. Encoding the record without \<^verbatim>\<open>OPT_GEN_KEY_VALUE\<close> then emits the
  document \<open>cgroup_document\<close>: the known names whose value in the source is a JSON
  boolean, in schema order and with that value, followed by the unknown entries. A known
  name whose value is not a boolean is in neither part. (The object has no nulled key,
  the allocations succeed and the emitter accepts every call.)
\<close>

theorem round_trip:
  assumes "mem s = []" and "None \<notin> fst ` set slots"
    and "OPT_PARSE_FULLKEY ctx" and "\<not> OPT_GEN_KEY_VALUE ctx'" and "script g = []"
  shows "\<exists>m r.
     make_runtime_spec_schema_features_linux_cgroup (Some (YObject slots)) ctx s = Some m
   \<and> ret m = Some (length (cells s))
   \<and> tree_after m = Some (YObject (null_unknown cgroup_keys slots))
   \<and> heap_load (st m) (length (cells s)) = Some (Cgroup r)
   \<and> load_residual (st m) (cgroup_residual r) = Some (Some (unknown_slots cgroup_keys slots))
   \<and> decode_encode_cgroup (YObject slots) ctx ctx' s g
       = Some (yajl_gen_status_ok, g\<lparr>calls := calls g @ val_calls (cgroup_document slots)\<rparr>)"
proof -
  let ?n = "length (cells s)"
  let ?r = "(read_cgroup (YObject slots))\<lparr>cgroup_residual := Some (Suc ?n)\<rparr>"
  let ?u = "unknown_slots cgroup_keys slots"
  let ?s' = "s\<lparr>cells := cells s @ [Some (Cgroup ?r), Some (Tree (YObject ?u))]\<rparr>"
  let ?m = "add_warning (OPT_PARSE_STRICT ctx \<and> ?u \<noteq> [] \<and> errfile ctx)
      \<lparr>ret = Some ?n, err = None, tree_after = Some (YObject (null_unknown cgroup_keys slots)),
        st = ?s'\<rparr>"
  have m: "make_runtime_spec_schema_features_linux_cgroup (Some (YObject slots)) ctx s = Some ?m"
    using make_cgroup_ok [OF assms(1,2), of ctx] assms(3) by simp
  have cells: "cells (st ?m) = cells s @ [Some (Cgroup ?r), Some (Tree (YObject ?u))]"
    by simp
  have load: "heap_load (st ?m) ?n = Some (Cgroup ?r)"
    by (simp add: heap_load_def del: heap_load_add_warning cells_add_warning)
       (simp add: cells)
  have resi: "load_residual (st ?m) (cgroup_residual ?r) = Some (Some ?u)"
    by (simp add: load_residual_def heap_load_def cells nth_append)
  have lc: "load_cgroup (st ?m) (ret ?m) = Some (Some ?r, Some ?u)"
    using load resi by (simp add: load_cgroup_def)
  have gen: "gen_runtime_spec_schema_features_linux_cgroup g (ret ?m) ctx' (st ?m)
      = Some (yajl_gen_status_ok, g\<lparr>calls := calls g @ val_calls (cgroup_document slots)\<rparr>)"
    unfolding gen_cgroup_ok [OF assms(5) lc]
    using assms(4)
    by (simp add: cgroup_document_def val_calls_object
        known_bool_calls [of slots "Some (Suc ?n)"] del: val_calls.simps)
  from m load resi gen show ?thesis
    by (intro exI [of _ ?m] exI [of _ ?r]) (simp add: decode_encode_cgroup_def)
qed

text \<open>
  The scenario of the claim: \<^verbatim>\<open>{"v1": true, "unknownKey": "x"}\<close> gives a record with
  \<open>v1\<close> present and true and every other field absent, the residual
  \<^verbatim>\<open>{"unknownKey": "x"}\<close>, and is encoded as the same document.
\<close>

theorem round_trip_witness:
  "mem empty_state = [] \<and> None \<notin> fst ` set v1_and_unknown \<and> OPT_PARSE_FULLKEY ctx_fullkey
   \<and> \<not> OPT_GEN_KEY_VALUE ctx_plain \<and> script fresh_gen = []
   \<and> (\<exists>m. make_runtime_spec_schema_features_linux_cgroup (Some (YObject v1_and_unknown))
              ctx_fullkey empty_state = Some m
        \<and> heap_load (st m) 0
            = Some (Cgroup (zero_cgroup\<lparr>v1 := True, v1_present := True, cgroup_residual := Some 1\<rparr>))
        \<and> heap_load (st m) 1 = Some (Tree (YObject [(Some ''unknownKey'', Some (YString ''x''))]))
        \<and> tree_after m = Some (YObject [(Some ''v1'', Some YTrue), (None, None)]))
   \<and> decode_encode_cgroup (YObject v1_and_unknown) ctx_fullkey ctx_plain empty_state fresh_gen
       = Some (yajl_gen_status_ok,
               \<lparr>calls = [MapOpen, Str ''v1'', Bln True, Str ''unknownKey'', Str ''x'', MapClose],
                 script = []\<rparr>)
   \<and> val_calls (YObject v1_and_unknown)
       = [MapOpen, Str ''v1'', Bln True, Str ''unknownKey'', Str ''x'', MapClose]"
proof -
  have a: "mem empty_state = []" "None \<notin> fst ` set v1_and_unknown"
    "OPT_PARSE_FULLKEY ctx_fullkey" "\<not> OPT_GEN_KEY_VALUE ctx_plain" "script fresh_gen = []"
    by (simp_all add: example_defs)
  have d: "cgroup_document v1_and_unknown = YObject v1_and_unknown"
    by (simp add: cgroup_document_def known_bool_slots_def unknown_slots_def cgroup_keys_def
        v1_and_unknown_def)
  have v: "val_calls (YObject v1_and_unknown)
       = [MapOpen, Str ''v1'', Bln True, Str ''unknownKey'', Str ''x'', MapClose]"
    by (simp add: v1_and_unknown_def)
  from round_trip [OF a]
  have "decode_encode_cgroup (YObject v1_and_unknown) ctx_fullkey ctx_plain empty_state fresh_gen
       = Some (yajl_gen_status_ok,
               fresh_gen\<lparr>calls := calls fresh_gen @ val_calls (cgroup_document v1_and_unknown)\<rparr>)"
    by blast
  then have g:
    "decode_encode_cgroup (YObject v1_and_unknown) ctx_fullkey ctx_plain empty_state fresh_gen
       = Some (yajl_gen_status_ok,
               \<lparr>calls = [MapOpen, Str ''v1'', Bln True, Str ''unknownKey'', Str ''x'', MapClose],
                 script = []\<rparr>)"
    by (simp add: d v fresh_gen_def del: val_calls.simps)
  have m: "\<exists>m. make_runtime_spec_schema_features_linux_cgroup (Some (YObject v1_and_unknown))
              ctx_fullkey empty_state = Some m
        \<and> heap_load (st m) 0
            = Some (Cgroup (zero_cgroup\<lparr>v1 := True, v1_present := True, cgroup_residual := Some 1\<rparr>))
        \<and> heap_load (st m) 1 = Some (Tree (YObject [(Some ''unknownKey'', Some (YString ''x''))]))
        \<and> tree_after m = Some (YObject [(Some ''v1'', Some YTrue), (None, None)])"
    unfolding make_cgroup_example
    by (simp add: ctx_fullkey_def ctx_plain_def heap_load_def zero_cgroup_def)
  from a g m v show ?thesis by blast
qed

text \<open>
  Claim C1 as stated fails: the known key \<open>v1\<close> of \<^verbatim>\<open>{"v1": "on", "unknownKey": "x"}\<close>
  is not in the document that comes back.
\<close>

theorem round_trip_counterexample:
  "decode_encode_cgroup (YObject v1_not_boolean) ctx_fullkey ctx_plain empty_state fresh_gen
   = Some (yajl_gen_status_ok,
           \<lparr>calls = [MapOpen, Str ''unknownKey'', Str ''x'', MapClose], script = []\<rparr>)"
proof -
  have a: "mem empty_state = []" "None \<notin> fst ` set v1_not_boolean"
    by (simp_all add: example_defs v1_not_boolean_def)
  show ?thesis
    unfolding decode_encode_cgroup_def make_cgroup_ok [OF a]
    by (simp add: ctx_fullkey_def ctx_plain_def add_warning_def empty_state_def
        read_cgroup_def get_bool_object v1_not_boolean_def unknown_slots_def cgroup_keys_def
        null_unknown_def zero_cgroup_def fresh_gen_def
        gen_runtime_spec_schema_features_linux_cgroup_def load_cgroup_def load_residual_def
        heap_load_def gen_bool_field_def gen_residual_field_def gen_yajl_object_residual_def
        emit_def yajl_gen_map_open_def yajl_gen_map_close_def member_def slot_calls_def
        and_then_def)
qed

section \<open>Emitting every known key\<close>

text \<open>
  Claim C7, as the code has it. With \<^verbatim>\<open>OPT_GEN_KEY_VALUE\<close> set the generators of the
  cgroup, zos namespace reference and seccomp records emit every known field, in schema
  order, also for the \<^verbatim>\<open>NULL\<close> record; with the option clear they emit a field only when
  it is present (presence flag set, pointer not \<^verbatim>\<open>NULL\<close>). An absent string is emitted as
  the empty string and an absent array as an empty array. A boolean is emitted with the
  content of its value member, whatever the presence flag says: that is false for an
  absent field of every record the decoder builds, where the value member is only ever
  set together with the flag. (The record and what it points to are live blocks of the
  right kind, and the emitter accepts every call.)
\<close>

theorem always_emit_known_keys:
  assumes "script g = []"
  shows "(\<forall>r resi. load_cgroup s ptr = Some (r, resi) \<longrightarrow>
           gen_runtime_spec_schema_features_linux_cgroup g ptr ctx s
           = Some (yajl_gen_status_ok,
               g\<lparr>calls := calls g @ MapOpen #
                 concat (map (\<lambda>(name, present, val).
                            if OPT_GEN_KEY_VALUE ctx \<or> member present r
                            then [Str name, Bln (member val r)] else []) cgroup_fields)
                 @ residual_calls resi @ [MapClose]\<rparr>))
       \<and> (\<forall>(name, present, val) \<in> set cgroup_fields.
            \<not> present (read_cgroup t) \<longrightarrow> \<not> val (read_cgroup t))
       \<and> (\<forall>ty pa resi. load_zos s ptr = Some (ty, pa, resi) \<longrightarrow>
           gen_runtime_spec_schema_defs_zos_namespace_reference g ptr ctx s
           = Some (yajl_gen_status_ok,
               g\<lparr>calls := calls g @ MapOpen #
                 (if OPT_GEN_KEY_VALUE ctx \<or> ty \<noteq> None
                  then [Str ''type'', Str (case ty of None \<Rightarrow> [] | Some x \<Rightarrow> x)] else [])
                 @ (if OPT_GEN_KEY_VALUE ctx \<or> pa \<noteq> None
                    then [Str ''path'', Str (case pa of None \<Rightarrow> [] | Some x \<Rightarrow> x)] else [])
                 @ residual_calls resi @ [MapClose]\<rparr>))
       \<and> (\<forall>r v. load_seccomp s ptr = Some (r, v) \<longrightarrow>
           gen_runtime_spec_schema_features_linux_seccomp g ptr ctx s
           = Some (yajl_gen_status_ok,
               g\<lparr>calls := calls g @ MapOpen #
                 (if OPT_GEN_KEY_VALUE ctx \<or> member enabled_present r
                  then [Str ''enabled'', Bln (member enabled r)] else [])
                 @ concat (map (\<lambda>(name, arr).
                      if OPT_GEN_KEY_VALUE ctx \<or> arr v \<noteq> None
                      then Str name # array_calls ctx (case arr v of None \<Rightarrow> [] | Some xs \<Rightarrow> xs)
                      else []) seccomp_arrays)
                 @ residual_calls (residual_slots v) @ [MapClose]\<rparr>))"
proof -
  have c: "\<forall>r resi. load_cgroup s ptr = Some (r, resi) \<longrightarrow>
           gen_runtime_spec_schema_features_linux_cgroup g ptr ctx s
           = Some (yajl_gen_status_ok,
               g\<lparr>calls := calls g @ MapOpen #
                 concat (map (\<lambda>(name, present, val).
                            if OPT_GEN_KEY_VALUE ctx \<or> member present r
                            then [Str name, Bln (member val r)] else []) cgroup_fields)
                 @ residual_calls resi @ [MapClose]\<rparr>)"
    using gen_cgroup_ok [OF assms] by (simp add: residual_calls_def)
  have z: "\<forall>ty pa resi. load_zos s ptr = Some (ty, pa, resi) \<longrightarrow>
           gen_runtime_spec_schema_defs_zos_namespace_reference g ptr ctx s
           = Some (yajl_gen_status_ok,
               g\<lparr>calls := calls g @ MapOpen #
                 (if OPT_GEN_KEY_VALUE ctx \<or> ty \<noteq> None
                  then [Str ''type'', Str (case ty of None \<Rightarrow> [] | Some x \<Rightarrow> x)] else [])
                 @ (if OPT_GEN_KEY_VALUE ctx \<or> pa \<noteq> None
                    then [Str ''path'', Str (case pa of None \<Rightarrow> [] | Some x \<Rightarrow> x)] else [])
                 @ residual_calls resi @ [MapClose]\<rparr>)"
    using gen_zos_ok [OF assms] by (simp add: residual_calls_def)
  have x: "\<forall>r v. load_seccomp s ptr = Some (r, v) \<longrightarrow>
           gen_runtime_spec_schema_features_linux_seccomp g ptr ctx s
           = Some (yajl_gen_status_ok,
               g\<lparr>calls := calls g @ MapOpen #
                 (if OPT_GEN_KEY_VALUE ctx \<or> member enabled_present r
                  then [Str ''enabled'', Bln (member enabled r)] else [])
                 @ concat (map (\<lambda>(name, arr).
                      if OPT_GEN_KEY_VALUE ctx \<or> arr v \<noteq> None
                      then Str name # array_calls ctx (case arr v of None \<Rightarrow> [] | Some xs \<Rightarrow> xs)
                      else []) seccomp_arrays)
                 @ residual_calls (residual_slots v) @ [MapClose]\<rparr>)"
    using gen_seccomp_ok [OF assms] by simp
  show ?thesis
    by (rule conjI [OF c conjI [OF read_cgroup_absent_all conjI [OF z x]]])
qed

theorem always_emit_known_keys_witness:
  "script fresh_gen = []
   \<and> gen_runtime_spec_schema_features_linux_cgroup fresh_gen None ctx_key_value empty_state
     = Some (yajl_gen_status_ok,
         \<lparr>calls = [MapOpen, Str ''v1'', Bln False, Str ''v2'', Bln False, Str ''systemd'', Bln False,
                   Str ''systemdUser'', Bln False, Str ''rdma'', Bln False, MapClose],
           script = []\<rparr>)
   \<and> gen_runtime_spec_schema_features_linux_cgroup fresh_gen None ctx_plain empty_state
     = Some (yajl_gen_status_ok, \<lparr>calls = [MapOpen, MapClose], script = []\<rparr>)
   \<and> gen_runtime_spec_schema_defs_zos_namespace_reference fresh_gen None ctx_key_value empty_state
     = Some (yajl_gen_status_ok,
         \<lparr>calls = [MapOpen, Str ''type'', Str [], Str ''path'', Str [], MapClose], script = []\<rparr>)
   \<and> gen_runtime_spec_schema_features_linux_seccomp fresh_gen None ctx_key_value empty_state
     = Some (yajl_gen_status_ok,
         \<lparr>calls = [MapOpen, Str ''enabled'', Bln False,
                   Str ''actions'', Beautify False, ArrayOpen, ArrayClose, Beautify True,
                   Str ''operators'', Beautify False, ArrayOpen, ArrayClose, Beautify True,
                   Str ''archs'', Beautify False, ArrayOpen, ArrayClose, Beautify True,
                   Str ''knownFlags'', Beautify False, ArrayOpen, ArrayClose, Beautify True,
                   Str ''supportedFlags'', Beautify False, ArrayOpen, ArrayClose, Beautify True,
                   MapClose],
           script = []\<rparr>)"
proof -
  have g: "script fresh_gen = []" by (simp add: fresh_gen_def)
  have c: "load_cgroup empty_state None = Some (None, None)"
    by (simp add: load_cgroup_def)
  have z: "load_zos empty_state None = Some (None, None, None)"
    by (simp add: load_zos_def)
  have s: "load_seccomp empty_state None
    = Some (None, \<lparr>actions_strs = None, operators_strs = None, archs_strs = None,
                        known_flags_strs = None, supported_flags_strs = None,
                        residual_slots = None\<rparr>)"
    by (simp add: load_seccomp_def)
  note t = always_emit_known_keys [OF g, of empty_state None]
  from t [of ctx_key_value] c have 1:
    "gen_runtime_spec_schema_features_linux_cgroup fresh_gen None ctx_key_value empty_state
     = Some (yajl_gen_status_ok,
         \<lparr>calls = [MapOpen, Str ''v1'', Bln False, Str ''v2'', Bln False, Str ''systemd'', Bln False,
                   Str ''systemdUser'', Bln False, Str ''rdma'', Bln False, MapClose],
           script = []\<rparr>)"
    by (simp add: cgroup_fields_def member_def residual_calls_def ctx_key_value_def
        ctx_plain_def fresh_gen_def)
  from t [of ctx_plain] c have 2:
    "gen_runtime_spec_schema_features_linux_cgroup fresh_gen None ctx_plain empty_state
     = Some (yajl_gen_status_ok, \<lparr>calls = [MapOpen, MapClose], script = []\<rparr>)"
    by (simp add: cgroup_fields_def member_def residual_calls_def ctx_plain_def fresh_gen_def)
  from t [of ctx_key_value] z have 3:
    "gen_runtime_spec_schema_defs_zos_namespace_reference fresh_gen None ctx_key_value empty_state
     = Some (yajl_gen_status_ok,
         \<lparr>calls = [MapOpen, Str ''type'', Str [], Str ''path'', Str [], MapClose], script = []\<rparr>)"
    by (simp add: residual_calls_def ctx_key_value_def ctx_plain_def fresh_gen_def)
  from t [of ctx_key_value] s have 4:
    "gen_runtime_spec_schema_features_linux_seccomp fresh_gen None ctx_key_value empty_state
     = Some (yajl_gen_status_ok,
         \<lparr>calls = [MapOpen, Str ''enabled'', Bln False,
                   Str ''actions'', Beautify False, ArrayOpen, ArrayClose, Beautify True,
                   Str ''operators'', Beautify False, ArrayOpen, ArrayClose, Beautify True,
                   Str ''archs'', Beautify False, ArrayOpen, ArrayClose, Beautify True,
                   Str ''knownFlags'', Beautify False, ArrayOpen, ArrayClose, Beautify True,
                   Str ''supportedFlags'', Beautify False, ArrayOpen, ArrayClose, Beautify True,
                   MapClose],
           script = []\<rparr>)"
    by (simp add: residual_calls_def ctx_key_value_def ctx_plain_def fresh_gen_def
        seccomp_arrays_def array_calls_def member_def)
  from g 1 2 3 4 show ?thesis by blast
qed

text \<open>
  Claim C7 as stated fails: a record whose \<open>v1_present\<close> is clear and whose \<open>v1\<close> is set
  is emitted with \<^verbatim>\<open>"v1": true\<close>.
\<close>

theorem always_emit_known_keys_counterexample:
  "heap_load stale_v1 0 = Some (Cgroup (zero_cgroup\<lparr>v1 := True\<rparr>))
   \<and> v1_present (zero_cgroup\<lparr>v1 := True\<rparr>) = False
   \<and> gen_runtime_spec_schema_features_linux_cgroup fresh_gen (Some 0) ctx_key_value stale_v1
     = Some (yajl_gen_status_ok,
         \<lparr>calls = [MapOpen, Str ''v1'', Bln True, Str ''v2'', Bln False, Str ''systemd'', Bln False,
                   Str ''systemdUser'', Bln False, Str ''rdma'', Bln False, MapClose],
           script = []\<rparr>)"
  by (simp add: stale_v1_def ctx_key_value_def ctx_plain_def zero_cgroup_def fresh_gen_def
        gen_runtime_spec_schema_features_linux_cgroup_def load_cgroup_def load_residual_def
        heap_load_def gen_bool_field_def gen_residual_field_def yajl_gen_string_def
        yajl_gen_bool_def emit_def yajl_gen_map_open_def yajl_gen_map_close_def member_def
        and_then_def)

section \<open>Releasing a record\<close>

text \<open>
  Claim C9, as the code has it. Releasing the \<^verbatim>\<open>NULL\<close> record is a no-op that cannot fail,
  and so is the release of a handle that \<^verbatim>\<open>move_ptr\<close> has emptied, however often it is
  repeated. A record as \<^verbatim>\<open>calloc\<close> leaves it is released by freeing its block alone. The
  release of a record that owns its blocks does not fail and frees exactly these blocks:
  for the seccomp record the set elements of each of its five string arrays, the arrays,
  the residual tree and the record; for the mount-extensions record the nested idmap
  record with its residual tree, the residual tree and the record; every other block of
  the heap is as before. Every release of a record that is not \<^verbatim>\<open>NULL\<close> ends with the
  \<^verbatim>\<open>free\<close> of the record itself, so a second release through the same pointer, also of a
  record whose members are all zero, is a release of a freed block: it is undefined.
\<close>

theorem release_total:
  "free_runtime_spec_schema_features_linux_cgroup None s = Some s
   \<and> free_runtime_spec_schema_features_linux_seccomp None s = Some s
   \<and> free_runtime_spec_schema_features_linux_mount_extensions None s = Some s
   \<and> free_runtime_spec_schema_features_linux_cgroup (snd (move_ptr ptr)) s = Some s
   \<and> free_runtime_spec_schema_features_linux_seccomp (snd (move_ptr ptr)) s = Some s
   \<and> (heap_load s p = Some (Seccomp zero_seccomp) \<longrightarrow>
        free_runtime_spec_schema_features_linux_seccomp (Some p) s = Some (release {p} s))
   \<and> (owned_cgroup s p c \<longrightarrow>
        free_runtime_spec_schema_features_linux_cgroup (Some p) s
        = Some (release (set (cgroup_blocks p c)) s))
   \<and> (owned_seccomp s p r \<longrightarrow>
        free_runtime_spec_schema_features_linux_seccomp (Some p) s
        = Some (release (set (seccomp_blocks s p r)) s))
   \<and> (owned_mount_extensions s p m \<longrightarrow>
        free_runtime_spec_schema_features_linux_mount_extensions (Some p) s
        = Some (release (set (mount_extensions_blocks s p m)) s))
   \<and> (heap_load s p = Some (Seccomp zero_seccomp) \<longrightarrow>
        free_runtime_spec_schema_features_linux_seccomp (Some p) (release {p} s) = None)
   \<and> (owned_cgroup s p c \<longrightarrow>
        free_runtime_spec_schema_features_linux_cgroup (Some p)
          (release (set (cgroup_blocks p c)) s) = None)
   \<and> (owned_seccomp s p r \<longrightarrow>
        free_runtime_spec_schema_features_linux_seccomp (Some p)
          (release (set (seccomp_blocks s p r)) s) = None)
   \<and> (owned_mount_extensions s p m \<longrightarrow>
        free_runtime_spec_schema_features_linux_mount_extensions (Some p)
          (release (set (mount_extensions_blocks s p m)) s) = None)"
proof -
  have z: "heap_load s p = Some (Seccomp zero_seccomp) \<longrightarrow>
        free_runtime_spec_schema_features_linux_seccomp (Some p) s = Some (release {p} s)"
  proof
    assume "heap_load s p = Some (Seccomp zero_seccomp)"
    from owned_zero_seccomp [OF this]
    have o: "owned_seccomp s p zero_seccomp" and b: "seccomp_blocks s p zero_seccomp = [p]"
      by simp_all
    from free_seccomp_ok [OF o] b show
      "free_runtime_spec_schema_features_linux_seccomp (Some p) s = Some (release {p} s)"
      by simp
  qed
  have first: "free_runtime_spec_schema_features_linux_cgroup None s = Some s
   \<and> free_runtime_spec_schema_features_linux_seccomp None s = Some s
   \<and> free_runtime_spec_schema_features_linux_mount_extensions None s = Some s
   \<and> free_runtime_spec_schema_features_linux_cgroup (snd (move_ptr ptr)) s = Some s
   \<and> free_runtime_spec_schema_features_linux_seccomp (snd (move_ptr ptr)) s = Some s
   \<and> (heap_load s p = Some (Seccomp zero_seccomp) \<longrightarrow>
        free_runtime_spec_schema_features_linux_seccomp (Some p) s = Some (release {p} s))
   \<and> (owned_cgroup s p c \<longrightarrow>
        free_runtime_spec_schema_features_linux_cgroup (Some p) s
        = Some (release (set (cgroup_blocks p c)) s))
   \<and> (owned_seccomp s p r \<longrightarrow>
        free_runtime_spec_schema_features_linux_seccomp (Some p) s
        = Some (release (set (seccomp_blocks s p r)) s))
   \<and> (owned_mount_extensions s p m \<longrightarrow>
        free_runtime_spec_schema_features_linux_mount_extensions (Some p) s
        = Some (release (set (mount_extensions_blocks s p m)) s))"
    using z free_cgroup_ok [of s p c] free_seccomp_ok [of s p r]
      free_mount_extensions_ok [of s p m]
    by (simp add: free_null_record move_ptr_def)
  have d0: "free_runtime_spec_schema_features_linux_seccomp (Some p) (release {p} s) = None"
    by (rule free_released_record) simp
  have d1: "free_runtime_spec_schema_features_linux_cgroup (Some p)
      (release (set (cgroup_blocks p c)) s) = None"
    by (rule free_released_record) (simp add: cgroup_blocks_def)
  have d2: "free_runtime_spec_schema_features_linux_seccomp (Some p)
      (release (set (seccomp_blocks s p r)) s) = None"
    by (rule free_released_record) (simp add: seccomp_blocks_def)
  have d3: "free_runtime_spec_schema_features_linux_mount_extensions (Some p)
      (release (set (mount_extensions_blocks s p m)) s) = None"
    by (rule free_released_record) (simp add: mount_extensions_blocks_def)
  from first d0 d1 d2 d3 show ?thesis by simp
qed

theorem release_total_witness:
  "owned_seccomp seccomp_heap 0 seccomp_example
   \<and> seccomp_blocks seccomp_heap 0 seccomp_example = [2, 3, 1, 4, 0]
   \<and> free_runtime_spec_schema_features_linux_seccomp (Some 0) seccomp_heap
     = Some \<lparr>cells = [None, None, None, None, None], mem = [], errlog = []\<rparr>
   \<and> free_runtime_spec_schema_features_linux_seccomp (Some 0)
       \<lparr>cells = [None, None, None, None, None], mem = [], errlog = []\<rparr> = None
   \<and> owned_mount_extensions mount_heap 0 mount_example
   \<and> free_runtime_spec_schema_features_linux_mount_extensions (Some 0) mount_heap
     = Some \<lparr>cells = [None, None, None], mem = [], errlog = []\<rparr>
   \<and> free_runtime_spec_schema_features_linux_mount_extensions (Some 0)
       \<lparr>cells = [None, None, None], mem = [], errlog = []\<rparr> = None"
proof -
  have b: "seccomp_blocks seccomp_heap 0 seccomp_example = [2, 3, 1, 4, 0]"
    by (simp add: seccomp_blocks_def seccomp_heap_def seccomp_example_def zero_seccomp_def
        array_blocks_def load_elements_def heap_load_def tree_blocks_def)
  have o: "owned_seccomp seccomp_heap 0 seccomp_example"
    unfolding owned_seccomp_def b
    by (simp add: seccomp_heap_def seccomp_example_def zero_seccomp_def
        array_ok_def load_elements_def heap_load_def tree_ok_def is_chars_def is_tree_def)
  have mb: "mount_extensions_blocks mount_heap 0 mount_example = [2, 1, 0]"
    by (simp add: mount_extensions_blocks_def mount_heap_def mount_example_def
        nested_idmap_blocks_def idmap_blocks_def heap_load_def tree_blocks_def)
  have mo: "owned_mount_extensions mount_heap 0 mount_example"
    unfolding owned_mount_extensions_def mb
    by (simp add: mount_heap_def mount_example_def nested_idmap_ok_def owned_idmap_def
        idmap_blocks_def heap_load_def tree_ok_def tree_blocks_def is_tree_def)
  have r1: "release (set [2, 3, 1, 4, 0]) seccomp_heap
      = \<lparr>cells = [None, None, None, None, None], mem = [], errlog = []\<rparr>"
    by (rule state_eqI) (auto simp: seccomp_heap_def heap_load_def release_def less_Suc_eq)
  have r2: "release (set [2, 1, 0]) mount_heap
      = \<lparr>cells = [None, None, None], mem = [], errlog = []\<rparr>"
    by (rule state_eqI) (auto simp: mount_heap_def heap_load_def release_def less_Suc_eq)
  from release_total [of seccomp_heap ptr 0 c seccomp_example m] o b r1
  have f: "free_runtime_spec_schema_features_linux_seccomp (Some 0) seccomp_heap
     = Some \<lparr>cells = [None, None, None, None, None], mem = [], errlog = []\<rparr>"
    and f2: "free_runtime_spec_schema_features_linux_seccomp (Some 0)
       \<lparr>cells = [None, None, None, None, None], mem = [], errlog = []\<rparr> = None"
    by simp_all
  from release_total [of mount_heap ptr 0 c r mount_example] mo mb r2
  have g: "free_runtime_spec_schema_features_linux_mount_extensions (Some 0) mount_heap
     = Some \<lparr>cells = [None, None, None], mem = [], errlog = []\<rparr>"
    and g2: "free_runtime_spec_schema_features_linux_mount_extensions (Some 0)
       \<lparr>cells = [None, None, None], mem = [], errlog = []\<rparr> = None"
    by simp_all
  from o b f f2 mo g g2 show ?thesis by (intro conjI)
qed

text \<open>
  Claim C9 as stated fails: release is not idempotent. The second release of a record
  that has been released, and of a record whose members are all zero, goes through a
  pointer to a freed block.
\<close>

theorem release_total_counterexample:
  "free_runtime_spec_schema_features_linux_seccomp (Some 0) seccomp_heap
     = Some \<lparr>cells = [None, None, None, None, None], mem = [], errlog = []\<rparr>
   \<and> free_runtime_spec_schema_features_linux_seccomp (Some 0)
       \<lparr>cells = [None, None, None, None, None], mem = [], errlog = []\<rparr> = None
   \<and> free_runtime_spec_schema_features_linux_seccomp (Some 0)
       \<lparr>cells = [Some (Seccomp zero_seccomp)], mem = [], errlog = []\<rparr>
     = Some \<lparr>cells = [None], mem = [], errlog = []\<rparr>
   \<and> free_runtime_spec_schema_features_linux_seccomp (Some 0)
       \<lparr>cells = [None], mem = [], errlog = []\<rparr> = None
   \<and> free_runtime_spec_schema_features_linux_cgroup (Some 0)
       \<lparr>cells = [Some (Cgroup zero_cgroup)], mem = [], errlog = []\<rparr>
     = Some \<lparr>cells = [None], mem = [], errlog = []\<rparr>
   \<and> free_runtime_spec_schema_features_linux_cgroup (Some 0)
       \<lparr>cells = [None], mem = [], errlog = []\<rparr> = None"
proof -
  have 1: "free_runtime_spec_schema_features_linux_seccomp (Some 0) seccomp_heap
     = Some \<lparr>cells = [None, None, None, None, None], mem = [], errlog = []\<rparr>"
    by (simp add: free_runtime_spec_schema_features_linux_seccomp_def seccomp_heap_def
        seccomp_example_def zero_seccomp_def free_string_array_def load_elements_def
        heap_load_def heap_write_def heap_store_def free_def
        yajl_tree_free_def)
  have 2: "free_runtime_spec_schema_features_linux_seccomp (Some 0)
       \<lparr>cells = [None, None, None, None, None], mem = [], errlog = []\<rparr> = None"
    by (simp add: free_runtime_spec_schema_features_linux_seccomp_def heap_load_def)
  have 3: "free_runtime_spec_schema_features_linux_seccomp (Some 0)
       \<lparr>cells = [Some (Seccomp zero_seccomp)], mem = [], errlog = []\<rparr>
     = Some \<lparr>cells = [None], mem = [], errlog = []\<rparr>"
    by (simp add: free_runtime_spec_schema_features_linux_seccomp_def
        zero_seccomp_def free_string_array_def heap_load_def heap_write_def heap_store_def
        free_def yajl_tree_free_def)
  have 4: "free_runtime_spec_schema_features_linux_seccomp (Some 0)
       \<lparr>cells = [None], mem = [], errlog = []\<rparr> = None"
    by (simp add: free_runtime_spec_schema_features_linux_seccomp_def heap_load_def)
  have 5: "free_runtime_spec_schema_features_linux_cgroup (Some 0)
       \<lparr>cells = [Some (Cgroup zero_cgroup)], mem = [], errlog = []\<rparr>
     = Some \<lparr>cells = [None], mem = [], errlog = []\<rparr>"
    by (simp add: free_runtime_spec_schema_features_linux_cgroup_def
        zero_cgroup_def heap_load_def heap_write_def heap_store_def free_def
        yajl_tree_free_def)
  have 6: "free_runtime_spec_schema_features_linux_cgroup (Some 0)
       \<lparr>cells = [None], mem = [], errlog = []\<rparr> = None"
    by (simp add: free_runtime_spec_schema_features_linux_cgroup_def heap_load_def)
  from 1 2 3 4 5 6 show ?thesis by (intro conjI)
qed

section \<open>Cloning a record\<close>

text \<open>
  Claim C2, as the code has it. When every allocation succeeds, the clone of an owned
  record is a new record made of new blocks only: the booleans and their presence flags
  are copied, every string is copied into a new string, every string array is copied into
  a new array with a copy of each string that is set, and the nested record is copied
  into a new record. The residual tree is \<^emph>\<open>not\<close> copied: the residual of the clone, and of
  the nested record of the clone, is \<^verbatim>\<open>NULL\<close>. The call leaves every block that was there
  before as it was, so the source is still owned and each of its blocks, the residual
  tree among them, holds what it held; releasing the clone, or storing anything into any
  block of the clone, leaves the source as it was, and releasing the source leaves the
  clone as it was.
\<close>

theorem clone_independent:
  assumes "mem s = []"
  shows "(owned_cgroup s p c \<longrightarrow>
      (\<exists>s'. clone_runtime_spec_schema_features_linux_cgroup (Some p) s
            = Some (Some (length (cells s)), s')
         \<and> untouched s s' \<and> errlog s' = errlog s
         \<and> owned_cgroup s' (length (cells s)) (c\<lparr>cgroup_residual := None\<rparr>)
         \<and> cgroup_kept s p c s'
         \<and> (\<exists>t. free_runtime_spec_schema_features_linux_cgroup (Some (length (cells s))) s'
                  = Some t
                \<and> cgroup_kept s p c t)
         \<and> (\<forall>v. cgroup_kept s p c (heap_store (length (cells s)) v s'))
         \<and> (\<exists>t. free_runtime_spec_schema_features_linux_cgroup (Some p) s' = Some t
                \<and> cgroup_kept s' (length (cells s)) (c\<lparr>cgroup_residual := None\<rparr>) t)))
   \<and> (owned_seccomp s p r \<longrightarrow>
      (\<exists>s' r'. clone_runtime_spec_schema_features_linux_seccomp (Some p) s
            = Some (Some (length (cells s)), s')
         \<and> untouched s s' \<and> errlog s' = errlog s
         \<and> owned_seccomp s' (length (cells s)) r'
         \<and> (\<forall>b \<in> set (seccomp_blocks s' (length (cells s)) r'). length (cells s) \<le> b)
         \<and> enabled r' = enabled r \<and> enabled_present r' = enabled_present r
         \<and> texts s' (seccomp_arrays_of r') = texts s (seccomp_arrays_of r)
         \<and> seccomp_residual r' = None
         \<and> seccomp_kept s p r s'
         \<and> (\<exists>t. free_runtime_spec_schema_features_linux_seccomp (Some (length (cells s))) s'
                  = Some t
                \<and> seccomp_kept s p r t)
         \<and> (\<forall>b \<in> set (seccomp_blocks s' (length (cells s)) r'). \<forall>v.
                seccomp_kept s p r (heap_store b v s'))
         \<and> (\<exists>t. free_runtime_spec_schema_features_linux_seccomp (Some p) s' = Some t
                \<and> seccomp_kept s' (length (cells s)) r' t)))
   \<and> (owned_mount_extensions s p m \<longrightarrow>
      (\<exists>s' m'. clone_runtime_spec_schema_features_linux_mount_extensions (Some p) s
            = Some (Some (length (cells s)), s')
         \<and> untouched s s' \<and> errlog s' = errlog s
         \<and> owned_mount_extensions s' (length (cells s)) m'
         \<and> (\<forall>b \<in> set (mount_extensions_blocks s' (length (cells s)) m'). length (cells s) \<le> b)
         \<and> nested_idmap s' (idmap m')
           = map_option (\<lambda>x. x\<lparr>idmap_residual := None\<rparr>) (nested_idmap s (idmap m))
         \<and> mount_extensions_residual m' = None
         \<and> mount_extensions_kept s p m s'
         \<and> (\<exists>t. free_runtime_spec_schema_features_linux_mount_extensions
                    (Some (length (cells s))) s' = Some t
                \<and> mount_extensions_kept s p m t)
         \<and> (\<forall>b \<in> set (mount_extensions_blocks s' (length (cells s)) m'). \<forall>v.
                mount_extensions_kept s p m (heap_store b v s'))
         \<and> (\<exists>t. free_runtime_spec_schema_features_linux_mount_extensions (Some p) s' = Some t
                \<and> mount_extensions_kept s' (length (cells s)) m' t)))
   \<and> (owned_zos s p z \<longrightarrow>
      (\<exists>s' z'. clone_runtime_spec_schema_defs_zos_namespace_reference (Some p) s
            = Some (Some (length (cells s)), s')
         \<and> untouched s s' \<and> errlog s' = errlog s
         \<and> owned_zos s' (length (cells s)) z'
         \<and> (\<forall>b \<in> set (zos_blocks (length (cells s)) z'). length (cells s) \<le> b)
         \<and> load_string s' (type z') = load_string s (type z)
         \<and> load_string s' (path z') = load_string s (path z)
         \<and> zos_residual z' = None
         \<and> zos_kept s p z s'
         \<and> (\<exists>t. free_runtime_spec_schema_defs_zos_namespace_reference
                    (Some (length (cells s))) s' = Some t
                \<and> zos_kept s p z t)
         \<and> (\<forall>b \<in> set (zos_blocks (length (cells s)) z'). \<forall>v.
                zos_kept s p z (heap_store b v s'))
         \<and> (\<exists>t. free_runtime_spec_schema_defs_zos_namespace_reference (Some p) s' = Some t
                \<and> zos_kept s' (length (cells s)) z' t)))"
proof (intro conjI impI)
  assume "owned_cgroup s p c"
  then show "\<exists>s'. clone_runtime_spec_schema_features_linux_cgroup (Some p) s
            = Some (Some (length (cells s)), s')
         \<and> untouched s s' \<and> errlog s' = errlog s
         \<and> owned_cgroup s' (length (cells s)) (c\<lparr>cgroup_residual := None\<rparr>)
         \<and> cgroup_kept s p c s'
         \<and> (\<exists>t. free_runtime_spec_schema_features_linux_cgroup (Some (length (cells s))) s'
                  = Some t
                \<and> cgroup_kept s p c t)
         \<and> (\<forall>v. cgroup_kept s p c (heap_store (length (cells s)) v s'))
         \<and> (\<exists>t. free_runtime_spec_schema_features_linux_cgroup (Some p) s' = Some t
                \<and> cgroup_kept s' (length (cells s)) (c\<lparr>cgroup_residual := None\<rparr>) t)"
    by (rule clone_cgroup_independent [OF assms])
next
  assume "owned_seccomp s p r"
  then show "\<exists>s' r'. clone_runtime_spec_schema_features_linux_seccomp (Some p) s
            = Some (Some (length (cells s)), s')
         \<and> untouched s s' \<and> errlog s' = errlog s
         \<and> owned_seccomp s' (length (cells s)) r'
         \<and> (\<forall>b \<in> set (seccomp_blocks s' (length (cells s)) r'). length (cells s) \<le> b)
         \<and> enabled r' = enabled r \<and> enabled_present r' = enabled_present r
         \<and> texts s' (seccomp_arrays_of r') = texts s (seccomp_arrays_of r)
         \<and> seccomp_residual r' = None
         \<and> seccomp_kept s p r s'
         \<and> (\<exists>t. free_runtime_spec_schema_features_linux_seccomp (Some (length (cells s))) s'
                  = Some t
                \<and> seccomp_kept s p r t)
         \<and> (\<forall>b \<in> set (seccomp_blocks s' (length (cells s)) r'). \<forall>v.
                seccomp_kept s p r (heap_store b v s'))
         \<and> (\<exists>t. free_runtime_spec_schema_features_linux_seccomp (Some p) s' = Some t
                \<and> seccomp_kept s' (length (cells s)) r' t)"
    by (rule clone_seccomp_independent [OF assms])
next
  assume "owned_mount_extensions s p m"
  then show "\<exists>s' m'. clone_runtime_spec_schema_features_linux_mount_extensions (Some p) s
            = Some (Some (length (cells s)), s')
         \<and> untouched s s' \<and> errlog s' = errlog s
         \<and> owned_mount_extensions s' (length (cells s)) m'
         \<and> (\<forall>b \<in> set (mount_extensions_blocks s' (length (cells s)) m'). length (cells s) \<le> b)
         \<and> nested_idmap s' (idmap m')
           = map_option (\<lambda>x. x\<lparr>idmap_residual := None\<rparr>) (nested_idmap s (idmap m))
         \<and> mount_extensions_residual m' = None
         \<and> mount_extensions_kept s p m s'
         \<and> (\<exists>t. free_runtime_spec_schema_features_linux_mount_extensions
                    (Some (length (cells s))) s' = Some t
                \<and> mount_extensions_kept s p m t)
         \<and> (\<forall>b \<in> set (mount_extensions_blocks s' (length (cells s)) m'). \<forall>v.
                mount_extensions_kept s p m (heap_store b v s'))
         \<and> (\<exists>t. free_runtime_spec_schema_features_linux_mount_extensions (Some p) s' = Some t
                \<and> mount_extensions_kept s' (length (cells s)) m' t)"
    by (rule clone_mount_extensions_independent [OF assms])
next
  assume "owned_zos s p z"
  then show "\<exists>s' z'. clone_runtime_spec_schema_defs_zos_namespace_reference (Some p) s
            = Some (Some (length (cells s)), s')
         \<and> untouched s s' \<and> errlog s' = errlog s
         \<and> owned_zos s' (length (cells s)) z'
         \<and> (\<forall>b \<in> set (zos_blocks (length (cells s)) z'). length (cells s) \<le> b)
         \<and> load_string s' (type z') = load_string s (type z)
         \<and> load_string s' (path z') = load_string s (path z)
         \<and> zos_residual z' = None
         \<and> zos_kept s p z s'
         \<and> (\<exists>t. free_runtime_spec_schema_defs_zos_namespace_reference
                    (Some (length (cells s))) s' = Some t
                \<and> zos_kept s p z t)
         \<and> (\<forall>b \<in> set (zos_blocks (length (cells s)) z'). \<forall>v.
                zos_kept s p z (heap_store b v s'))
         \<and> (\<exists>t. free_runtime_spec_schema_defs_zos_namespace_reference (Some p) s' = Some t
                \<and> zos_kept s' (length (cells s)) z' t)"
    by (rule clone_zos_independent [OF assms])
qed

theorem clone_independent_witness:
  "mem seccomp_heap = [] \<and> owned_seccomp seccomp_heap 0 seccomp_example
   \<and> clone_runtime_spec_schema_features_linux_seccomp (Some 0) seccomp_heap
     = Some (Some 5, seccomp_cloned)
   \<and> seccomp_kept seccomp_heap 0 seccomp_example seccomp_cloned
   \<and> seccomp_kept seccomp_heap 0 seccomp_example
       (heap_store 7 (Chars ''changed'') seccomp_cloned)
   \<and> mem mount_heap = [] \<and> owned_mount_extensions mount_heap 0 mount_example
   \<and> clone_runtime_spec_schema_features_linux_mount_extensions (Some 0) mount_heap
     = Some (Some 3, mount_cloned)
   \<and> mount_extensions_kept mount_heap 0 mount_example mount_cloned
   \<and> mount_extensions_kept mount_heap 0 mount_example
       (heap_store 4 (Idmap zero_idmap) mount_cloned)
   \<and> mem cgroup_with_residual = []
   \<and> owned_cgroup cgroup_with_residual 0
       (zero_cgroup\<lparr>v1 := True, v1_present := True, cgroup_residual := Some 1\<rparr>)
   \<and> cgroup_kept cgroup_with_residual 0
       (zero_cgroup\<lparr>v1 := True, v1_present := True, cgroup_residual := Some 1\<rparr>)
       (heap_store 2 (Cgroup zero_cgroup)
          (cgroup_with_residual\<lparr>cells := cells cgroup_with_residual
             @ [Some (Cgroup (zero_cgroup\<lparr>v1 := True, v1_present := True\<rparr>))]\<rparr>))
   \<and> mem zos_heap = []
   \<and> owned_zos zos_heap 0 \<lparr>type = Some 1, path = Some 2, zos_residual = Some 3\<rparr>
   \<and> clone_runtime_spec_schema_defs_zos_namespace_reference (Some 0) zos_heap
     = Some (Some 4, zos_heap_cloned)
   \<and> zos_kept zos_heap 0 \<lparr>type = Some 1, path = Some 2, zos_residual = Some 3\<rparr>
       zos_heap_cloned
   \<and> zos_kept zos_heap 0 \<lparr>type = Some 1, path = Some 2, zos_residual = Some 3\<rparr>
       (heap_store 5 (Chars ''changed'') zos_heap_cloned)"
proof -
  have m: "mem seccomp_heap = []" by (simp add: seccomp_heap_def)
  have n: "length (cells seccomp_heap) = 5" by (simp add: seccomp_heap_def)
  have b: "seccomp_blocks seccomp_heap 0 seccomp_example = [2, 3, 1, 4, 0]"
    by (simp add: seccomp_blocks_def seccomp_heap_def seccomp_example_def zero_seccomp_def
        array_blocks_def load_elements_def heap_load_def tree_blocks_def)
  have o: "owned_seccomp seccomp_heap 0 seccomp_example"
    unfolding owned_seccomp_def b
    by (simp add: seccomp_heap_def seccomp_example_def zero_seccomp_def
        array_ok_def load_elements_def heap_load_def tree_ok_def is_chars_def is_tree_def)
  note t = clone_independent [OF m, of 0 c seccomp_example x y]
  from t [THEN conjunct2, THEN conjunct1, rule_format, OF o, unfolded n]
  obtain s' r' where
    call: "clone_runtime_spec_schema_features_linux_seccomp (Some 0) seccomp_heap
        = Some (Some 5, s')"
    and own: "owned_seccomp s' 5 r'"
    and k: "seccomp_kept seccomp_heap 0 seccomp_example s'"
    and mut: "\<forall>b \<in> set (seccomp_blocks s' 5 r'). \<forall>v.
        seccomp_kept seccomp_heap 0 seccomp_example (heap_store b v s')"
    by blast
  from call have s': "s' = seccomp_cloned" by (simp add: clone_seccomp_example)
  from own have "heap_load seccomp_cloned 5 = Some (Seccomp r')"
    by (simp add: owned_seccomp_def s')
  then have r': "r' = zero_seccomp\<lparr>actions := Some 6, actions_len := 2\<rparr>"
    by (simp add: seccomp_cloned_def heap_load_def)
  have "seccomp_blocks seccomp_cloned 5 r' = [7, 8, 6, 5]"
    unfolding r'
    by (simp add: seccomp_blocks_def seccomp_cloned_def zero_seccomp_def
        array_blocks_def load_elements_def heap_load_def tree_blocks_def)
  with mut have k7: "seccomp_kept seccomp_heap 0 seccomp_example
      (heap_store 7 (Chars ''changed'') seccomp_cloned)"
    by (simp add: s')
  have mm: "mem mount_heap = []" by (simp add: mount_heap_def)
  have mn: "length (cells mount_heap) = 3" by (simp add: mount_heap_def)
  have mb: "mount_extensions_blocks mount_heap 0 mount_example = [2, 1, 0]"
    by (simp add: mount_extensions_blocks_def mount_heap_def mount_example_def
        nested_idmap_blocks_def idmap_blocks_def heap_load_def tree_blocks_def)
  have mo: "owned_mount_extensions mount_heap 0 mount_example"
    unfolding owned_mount_extensions_def mb
    by (simp add: mount_heap_def mount_example_def nested_idmap_ok_def owned_idmap_def
        idmap_blocks_def heap_load_def tree_ok_def tree_blocks_def is_tree_def)
  note u = clone_independent [OF mm, of 0 c x mount_example y]
  from u [THEN conjunct2, THEN conjunct2, THEN conjunct1, rule_format, OF mo, unfolded mn]
  obtain t' m' where
    mcall: "clone_runtime_spec_schema_features_linux_mount_extensions (Some 0) mount_heap
        = Some (Some 3, t')"
    and mown: "owned_mount_extensions t' 3 m'"
    and mk: "mount_extensions_kept mount_heap 0 mount_example t'"
    and mmut: "\<forall>b \<in> set (mount_extensions_blocks t' 3 m'). \<forall>v.
        mount_extensions_kept mount_heap 0 mount_example (heap_store b v t')"
    by blast
  from mcall have t': "t' = mount_cloned" by (simp add: clone_mount_extensions_example)
  from mown have "heap_load mount_cloned 3 = Some (MountExt m')"
    by (simp add: owned_mount_extensions_def t')
  then have m': "m' = \<lparr>idmap = Some 4, mount_extensions_residual = None\<rparr>"
    by (simp add: mount_cloned_def heap_load_def)
  have "mount_extensions_blocks mount_cloned 3 m' = [4, 3]"
    unfolding m'
    by (simp add: mount_extensions_blocks_def mount_cloned_def
        nested_idmap_blocks_def idmap_blocks_def heap_load_def tree_blocks_def)
  with mmut have k4: "mount_extensions_kept mount_heap 0 mount_example
      (heap_store 4 (Idmap zero_idmap) mount_cloned)"
    by (simp add: t')
  let ?c = "zero_cgroup\<lparr>v1 := True, v1_present := True, cgroup_residual := Some 1\<rparr>"
  have cm: "mem cgroup_with_residual = []" by (simp add: cgroup_with_residual_def)
  have cn: "length (cells cgroup_with_residual) = 2" by (simp add: cgroup_with_residual_def)
  have co: "owned_cgroup cgroup_with_residual 0 ?c"
    by (simp add: owned_cgroup_def cgroup_with_residual_def cgroup_blocks_def tree_blocks_def
        tree_ok_def is_tree_def heap_load_def)
  from co have cl: "heap_load cgroup_with_residual 0 = Some (Cgroup ?c)"
    by (simp add: owned_cgroup_def)
  note w = clone_independent [OF cm, of 0 ?c x y z]
  from w [THEN conjunct1, rule_format, OF co, unfolded cn]
  obtain c' where
    ccall: "clone_runtime_spec_schema_features_linux_cgroup (Some 0) cgroup_with_residual
        = Some (Some 2, c')"
    and cmut: "\<forall>v. cgroup_kept cgroup_with_residual 0 ?c (heap_store 2 v c')"
    by blast
  from ccall have "c' = cgroup_with_residual\<lparr>cells := cells cgroup_with_residual
      @ [Some (Cgroup (zero_cgroup\<lparr>v1 := True, v1_present := True\<rparr>))]\<rparr>"
    unfolding clone_cgroup_ok [OF cm cl] by (simp add: zero_cgroup_def)
  with cmut have k2: "cgroup_kept cgroup_with_residual 0 ?c
       (heap_store 2 (Cgroup zero_cgroup)
          (cgroup_with_residual\<lparr>cells := cells cgroup_with_residual
             @ [Some (Cgroup (zero_cgroup\<lparr>v1 := True, v1_present := True\<rparr>))]\<rparr>))"
    by simp
  let ?z = "\<lparr>type = Some 1, path = Some 2, zos_residual = Some 3\<rparr>"
  have zm: "mem zos_heap = []" by (simp add: zos_heap_def)
  have zn: "length (cells zos_heap) = 4" by (simp add: zos_heap_def)
  have zo: "owned_zos zos_heap 0 ?z"
    by (simp add: owned_zos_def zos_heap_def zos_blocks_def string_blocks_def tree_blocks_def
        string_ok_def tree_ok_def is_chars_def is_tree_def heap_load_def)
  note v = clone_independent [OF zm, of 0 c x y ?z]
  from v [THEN conjunct2, THEN conjunct2, THEN conjunct2, rule_format, OF zo, unfolded zn]
  obtain zs z' where
    zcall: "clone_runtime_spec_schema_defs_zos_namespace_reference (Some 0) zos_heap
        = Some (Some 4, zs)"
    and zown: "owned_zos zs 4 z'"
    and zk: "zos_kept zos_heap 0 ?z zs"
    and zmut: "\<forall>b \<in> set (zos_blocks 4 z'). \<forall>v. zos_kept zos_heap 0 ?z (heap_store b v zs)"
    by blast
  from zcall have zs: "zs = zos_heap_cloned" by (simp add: clone_zos_example)
  from zown have "heap_load zos_heap_cloned 4 = Some (Zos z')"
    by (simp add: owned_zos_def zs)
  then have z': "z' = \<lparr>type = Some 5, path = Some 6, zos_residual = None\<rparr>"
    by (simp add: zos_heap_cloned_def heap_load_def)
  have "zos_blocks 4 z' = [5, 6, 4]"
    unfolding z' by (simp add: zos_blocks_def string_blocks_def tree_blocks_def)
  with zmut have k5: "zos_kept zos_heap 0 ?z (heap_store 5 (Chars ''changed'') zos_heap_cloned)"
    by (simp add: zs)
  from m o clone_seccomp_example k [unfolded s'] k7 mm mo clone_mount_extensions_example
    mk [unfolded t'] k4 cm co k2 zm zo clone_zos_example zk [unfolded zs] k5
  show ?thesis by (intro conjI)
qed

text \<open>
  Claim C2 as stated fails for the residual tree: the clone of the record decoded from
  \<^verbatim>\<open>{"v1": true, "unknownKey": "x"}\<close> with \<^verbatim>\<open>OPT_PARSE_FULLKEY\<close> has no residual, and no
  copy of the tree is made.
\<close>

theorem clone_independent_counterexample:
  "map_option st (make_runtime_spec_schema_features_linux_cgroup (Some (YObject v1_and_unknown))
       ctx_fullkey empty_state)
   = Some cgroup_with_residual
   \<and> clone_runtime_spec_schema_features_linux_cgroup (Some 0) cgroup_with_residual
     = Some (Some 2,
         \<lparr>cells = [Some (Cgroup (zero_cgroup\<lparr>v1 := True, v1_present := True,
                                     cgroup_residual := Some 1\<rparr>)),
                   Some (Tree (YObject [(Some ''unknownKey'', Some (YString ''x''))])),
                   Some (Cgroup (zero_cgroup\<lparr>v1 := True, v1_present := True,
                                     cgroup_residual := None\<rparr>))],
          mem = [], errlog = []\<rparr>)"
proof -
  have a: "map_option st (make_runtime_spec_schema_features_linux_cgroup
       (Some (YObject v1_and_unknown)) ctx_fullkey empty_state) = Some cgroup_with_residual"
    unfolding make_cgroup_example
    by (simp add: ctx_fullkey_def ctx_plain_def add_warning_def cgroup_with_residual_def)
  have b: "clone_runtime_spec_schema_features_linux_cgroup (Some 0) cgroup_with_residual
     = Some (Some 2,
         \<lparr>cells = [Some (Cgroup (zero_cgroup\<lparr>v1 := True, v1_present := True,
                                     cgroup_residual := Some 1\<rparr>)),
                   Some (Tree (YObject [(Some ''unknownKey'', Some (YString ''x''))])),
                   Some (Cgroup (zero_cgroup\<lparr>v1 := True, v1_present := True,
                                     cgroup_residual := None\<rparr>))],
          mem = [], errlog = []\<rparr>)"
    by (simp add: clone_runtime_spec_schema_features_linux_cgroup_def alloc_def
        cgroup_with_residual_def heap_load_def heap_store_def zero_cgroup_def)
  from a b show ?thesis by (rule conjI)
qed

end
